theory Spec2Isabelle
  imports Main
begin

section \<open>Copper clearance test of the design-rule checker\<close>

text \<open>
  A shallow embedding of \<^verbatim>\<open>pcbnew/drc/drc_test_provider_copper_clearance.cpp\<close>
  (class \<^verbatim>\<open>DRC_TEST_PROVIDER_COPPER_CLEARANCE\<close>).  Board items are records of
  the answers of the queries the provider makes on them; the engine, the geometry
  library and the spatial indices, which live in other files, are fields of an
  environment record.  Everything the provider does besides returning a value
  (reporting a violation, calling a collision primitive, writing a message) is
  appended to a log that is threaded through the functions.
\<close>

subsection \<open>Data model\<close>

type_synonym PCB_LAYER_ID = nat
type_synonym LSET = "PCB_LAYER_ID set"
type_synonym VECTOR2I = "int \<times> int"
type_synonym SEG = "VECTOR2I \<times> VECTOR2I"
type_synonym BOX2I = "VECTOR2I \<times> VECTOR2I"

text \<open>A shape is opaque to the provider: it is only handed to the collision primitives.\<close>
type_synonym SHAPE = nat

text \<open>
  The enumerators \<^verbatim>\<open>F_Cu\<close> and \<^verbatim>\<open>B_Cu\<close> are declared in
  \<^verbatim>\<open>layer_ids.h\<close>: the copper layers are the identifiers from \<^verbatim>\<open>F_Cu\<close>
  to \<^verbatim>\<open>B_Cu\<close>.
\<close>
definition F_Cu :: PCB_LAYER_ID where "F_Cu = 0"
definition B_Cu :: PCB_LAYER_ID where "B_Cu = 31"

definition IsCopperLayer :: "PCB_LAYER_ID \<Rightarrow> bool" where
  "IsCopperLayer aLayerId = (F_Cu \<le> aLayerId \<and> aLayerId \<le> B_Cu)"

text \<open>\<^verbatim>\<open>LSET::Seq()\<close>: the layers of a set in ascending order.\<close>
definition LSET_Seq :: "LSET \<Rightarrow> PCB_LAYER_ID list" where
  "LSET_Seq s = sorted_list_of_set s"

datatype KICAD_T =
    PCB_TRACE_T | PCB_ARC_T | PCB_VIA_T | PCB_PAD_T | PCB_ZONE_T
  | PCB_SHAPE_T | PCB_FP_SHAPE_T | PCB_TEXT_T | PCB_FP_TEXT_T
  | PCB_TEXTBOX_T | PCB_FP_TEXTBOX_T | PCB_BITMAP_T | PCB_DIMENSION_T

datatype PAD_ATTRIB = PTH | SMD | CONN | NPTH

datatype DRC_ERROR =
    DRCE_CLEARANCE | DRCE_HOLE_CLEARANCE | DRCE_TRACKS_CROSSING
  | DRCE_ZONES_INTERSECT | DRCE_SHORTING_ITEMS

datatype DRC_CONSTRAINT_T = NULL_CONSTRAINT | CLEARANCE_CONSTRAINT | HOLE_CLEARANCE_CONSTRAINT

datatype SEVERITY =
    RPT_SEVERITY_UNDEFINED | RPT_SEVERITY_INFO | RPT_SEVERITY_EXCLUSION
  | RPT_SEVERITY_ACTION | RPT_SEVERITY_WARNING | RPT_SEVERITY_ERROR | RPT_SEVERITY_IGNORE

text \<open>
  A board item, as the provider sees it.  \<open>addr\<close> is the address of the object (the
  provider compares and orders items by pointer); the other fields are the results
  of the member functions of the same name.  A field that an item type does not
  have is simply never read for an item of that type.  \<open>GetNet\<close> is the address of
  the item's \<^verbatim>\<open>NETINFO_ITEM\<close>.  For a zone, \<open>FilledPolySegments layer\<close> lists the
  segments that \<^verbatim>\<open>IterateSegmentsWithHoles\<close> enumerates on the fractured copy of
  \<^verbatim>\<open>GetFilledPolysList( layer )\<close>, and \<open>FillBBox layer\<close> is
  \<^verbatim>\<open>GetFill( layer )->BBoxFromCaches()\<close>.
\<close>
record BOARD_ITEM =
  addr :: nat
  Type :: KICAD_T
  GetParent :: nat
  GetNetCode :: int
  GetNetname :: string
  GetNet :: nat
  GetLayer :: PCB_LAYER_ID
  GetLayerSet :: LSET
  IsOnLayer :: "PCB_LAYER_ID \<Rightarrow> bool"
  HasHole :: bool
  GetEffectiveShape :: "PCB_LAYER_ID \<Rightarrow> SHAPE"
  GetEffectiveHoleShape :: SHAPE
  GetBoundingBox :: BOX2I
  GetPosition :: VECTOR2I
  GetStart :: VECTOR2I
  GetEnd :: VECTOR2I
  GetAttribute :: PAD_ATTRIB
  FlashLayer :: "PCB_LAYER_ID \<Rightarrow> bool"
  IsFreePad :: bool
  GetDrillSize_x :: int
  GetDrill :: int
  GetNumber :: string
  IsKnockout :: bool
  GetIsRuleArea :: bool
  FilledPolySegments :: "PCB_LAYER_ID \<Rightarrow> SEG list"
  FillBBox :: "PCB_LAYER_ID \<Rightarrow> BOX2I"

text \<open>\<^verbatim>\<open>dynamic_cast<PCB_TRACK*>\<close> succeeds on traces, arcs and vias.\<close>
definition is_PCB_TRACK :: "BOARD_ITEM \<Rightarrow> bool" where
  "is_PCB_TRACK i = (Type i = PCB_TRACE_T \<or> Type i = PCB_ARC_T \<or> Type i = PCB_VIA_T)"

text \<open>
  \<^verbatim>\<open>dynamic_cast<BOARD_CONNECTED_ITEM*>\<close> succeeds on tracks, pads and zones;
  \<^verbatim>\<open>IsConnected()\<close> "returns information if the object is derived from
  BOARD_CONNECTED_ITEM" (\<^verbatim>\<open>board_item.h\<close>).
\<close>
definition IsConnected :: "BOARD_ITEM \<Rightarrow> bool" where
  "IsConnected i = (is_PCB_TRACK i \<or> Type i = PCB_PAD_T \<or> Type i = PCB_ZONE_T)"

record DRC_CONSTRAINT =
  GetValue_Min :: int
  GetSeverity :: SEVERITY
  GetParentRule :: "nat option"
  GetName :: string

text \<open>
  Modelled from the spec: the default constructor of \<^verbatim>\<open>DRC_CONSTRAINT\<close>
  (\<^verbatim>\<open>drc_rule.h\<close>) is not part of the sources at hand.  A constraint that was never
  assigned has no parent rule; wherever the provider reads one, the local
  \<^verbatim>\<open>clearance\<close> is still \<open>-1\<close>, so its severity decides nothing.
\<close>
definition default_constraint :: DRC_CONSTRAINT where
  "default_constraint =
     \<lparr>GetValue_Min = 0, GetSeverity = RPT_SEVERITY_UNDEFINED, GetParentRule = None,
      GetName = []\<rparr>"

text \<open>The text appended to the error message of a violation.\<close>
datatype DRC_MSG =
    NoMsg
  | ClearanceMsg string int int
  | ClearanceNegMsg string int int
  | NetsMsg string string

text \<open>A \<^verbatim>\<open>DRC_ITEM\<close> together with the marker position and layer it is reported at.\<close>
record VIOLATION =
  GetErrorCode :: DRC_ERROR
  GetItems :: "BOARD_ITEM \<times> BOARD_ITEM"
  GetViolatingRule :: "nat option"
  GetErrorMessage :: DRC_MSG
  MarkerPos :: VECTOR2I
  MarkerLayer :: PCB_LAYER_ID

text \<open>
  What the provider does to the outside, in the order it does it.  A collision event
  records the constraint the test serves, the two shapes and the clearance passed.
\<close>
datatype EVENT =
    EvAux string
  | EvPhase string
  | EvCollide DRC_CONSTRAINT_T SHAPE "SHAPE option" int
  | EvZoneQuery DRC_CONSTRAINT_T nat SHAPE int
  | EvViolation VIOLATION

text \<open>
  The engine's flags (error limits, cancellation) and the progress callbacks can
  change between two reads; \<open>tick\<close> counts the reads, and each read is answered by the
  environment for that tick.
\<close>
record DRC_STATE =
  tick :: nat
  log :: "EVENT list"

record FOOTPRINT =
  Pads :: "BOARD_ITEM list"
  GraphicalItems :: "BOARD_ITEM list"

text \<open>
  The board.  \<open>CopperLayers\<close> is \<^verbatim>\<open>LSET::AllCuMask( GetCopperLayerCount() )\<close>;
  \<open>CopperItemRTree\<close> lists, for a reference item and a layer, the items the copper
  index enumerates for a query; \<open>CopperZoneRTreeCache\<close> gives the index of a zone
  (by address), if it has one.
\<close>
record BOARD =
  m_DRCMaxClearance :: int
  GetDRCEpsilon :: int
  Tracks :: "BOARD_ITEM list"
  Footprints :: "FOOTPRINT list"
  Drawings :: "BOARD_ITEM list"
  m_DRCCopperZones :: "BOARD_ITEM list"
  CopperLayers :: LSET
  IsLayerEnabled :: "PCB_LAYER_ID \<Rightarrow> bool"
  CopperItemRTree :: "BOARD_ITEM \<Rightarrow> PCB_LAYER_ID \<Rightarrow> BOARD_ITEM list"
  CopperZoneRTreeCache :: "nat \<Rightarrow> nat option"

text \<open>
  The collaborators of the provider.  \<open>Collide\<close> and the zone index queries return
  the actual distance and the position when they answer true.  The engine's flags
  and the progress callbacks take the tick of the read.
\<close>
record DRC_ENV =
  m_board :: BOARD
  m_drcEpsilon :: int
  IsErrorLimitExceeded :: "DRC_ERROR \<Rightarrow> nat \<Rightarrow> bool"
  IsCancelled :: "nat \<Rightarrow> bool"
  reportProgress :: "nat \<Rightarrow> bool"
  reportPhase :: "nat \<Rightarrow> bool"
  GetReportAllTrackErrors :: bool
  EvalRules :: "DRC_CONSTRAINT_T \<Rightarrow> BOARD_ITEM \<Rightarrow> BOARD_ITEM \<Rightarrow> PCB_LAYER_ID \<Rightarrow> DRC_CONSTRAINT"
  IsNetTieExclusion :: "int \<Rightarrow> PCB_LAYER_ID \<Rightarrow> VECTOR2I \<Rightarrow> BOARD_ITEM \<Rightarrow> bool"
  Collide :: "SHAPE \<Rightarrow> SHAPE option \<Rightarrow> int \<Rightarrow> (int \<times> VECTOR2I) option"
  Intersect :: "SEG \<Rightarrow> SEG \<Rightarrow> VECTOR2I option"
  SameLogicalPadAs :: "BOARD_ITEM \<Rightarrow> BOARD_ITEM \<Rightarrow> bool"
  MapPadNumbersToNetTieGroups :: "nat \<Rightarrow> string \<Rightarrow> int option"
  ZoneQueryColliding :: "nat \<Rightarrow> BOX2I \<Rightarrow> SHAPE \<Rightarrow> PCB_LAYER_ID \<Rightarrow> int \<Rightarrow> (int \<times> VECTOR2I) option"
  ZoneQueryCollidingAny :: "nat \<Rightarrow> BOX2I \<Rightarrow> SHAPE \<Rightarrow> PCB_LAYER_ID \<Rightarrow> bool"
  Inflate :: "BOX2I \<Rightarrow> int \<Rightarrow> BOX2I"
  Intersects :: "BOX2I \<Rightarrow> BOX2I \<Rightarrow> bool"
  GetClearanceBetweenSegments :: "SEG \<Rightarrow> SEG \<Rightarrow> int \<Rightarrow> int \<times> VECTOR2I"

subsection \<open>Reading the engine, writing the log\<close>

definition errorLimitExceeded :: "DRC_ENV \<Rightarrow> DRC_ERROR \<Rightarrow> DRC_STATE \<Rightarrow> bool \<times> DRC_STATE" where
  "errorLimitExceeded e k s = (IsErrorLimitExceeded e k (tick s), s\<lparr>tick := Suc (tick s)\<rparr>)"

definition cancelled :: "DRC_ENV \<Rightarrow> DRC_STATE \<Rightarrow> bool \<times> DRC_STATE" where
  "cancelled e s = (IsCancelled e (tick s), s\<lparr>tick := Suc (tick s)\<rparr>)"

definition progress :: "DRC_ENV \<Rightarrow> DRC_STATE \<Rightarrow> bool \<times> DRC_STATE" where
  "progress e s = (reportProgress e (tick s), s\<lparr>tick := Suc (tick s)\<rparr>)"

definition emit :: "EVENT \<Rightarrow> DRC_STATE \<Rightarrow> DRC_STATE" where
  "emit ev s = s\<lparr>log := log s @ [ev]\<rparr>"

definition phase :: "DRC_ENV \<Rightarrow> string \<Rightarrow> DRC_STATE \<Rightarrow> bool \<times> DRC_STATE" where
  "phase e msg s = (reportPhase e (tick s), emit (EvPhase msg) (s\<lparr>tick := Suc (tick s)\<rparr>))"

definition reportViolation :: "VIOLATION \<Rightarrow> DRC_STATE \<Rightarrow> DRC_STATE" where
  "reportViolation v s = emit (EvViolation v) s"

text \<open>\<^verbatim>\<open>shapeA->Collide( shapeB, clearance, &actual, &pos )\<close>, logged.\<close>
definition collide ::
  "DRC_ENV \<Rightarrow> DRC_CONSTRAINT_T \<Rightarrow> SHAPE \<Rightarrow> SHAPE option \<Rightarrow> int \<Rightarrow> DRC_STATE
     \<Rightarrow> (int \<times> VECTOR2I) option \<times> DRC_STATE" where
  "collide e k a b c s = (Collide e a b c, emit (EvCollide k a b c) s)"

text \<open>\<^verbatim>\<open>zoneTree->QueryColliding( bbox, shape, layer, clearance, &actual, &pos )\<close>, logged.\<close>
definition zoneQuery ::
  "DRC_ENV \<Rightarrow> DRC_CONSTRAINT_T \<Rightarrow> nat \<Rightarrow> BOX2I \<Rightarrow> SHAPE \<Rightarrow> PCB_LAYER_ID \<Rightarrow> int \<Rightarrow> DRC_STATE
     \<Rightarrow> (int \<times> VECTOR2I) option \<times> DRC_STATE" where
  "zoneQuery e k tree box sh layer c s =
     (ZoneQueryColliding e tree box sh layer c, emit (EvZoneQuery k tree sh c) s)"

definition violations :: "DRC_STATE \<Rightarrow> VIOLATION list" where
  "violations s = concat (map (\<lambda>ev. case ev of EvViolation v \<Rightarrow> [v] | _ \<Rightarrow> []) (log s))"

subsection \<open>testTrackAgainstItem\<close>

text \<open>
  The local \<^verbatim>\<open>holeShape\<close> (source lines 291 to 299 and 410 to 418): the hole shape
  of the item, but for a via only on a layer of its layer set; \<open>None\<close> is the null
  pointer.
\<close>
definition holeShapeOn :: "BOARD_ITEM \<Rightarrow> PCB_LAYER_ID \<Rightarrow> SHAPE option" where
  "holeShapeOn b layer =
     (if Type b = PCB_VIA_T
      then (if layer \<in> GetLayerSet b then Some (GetEffectiveHoleShape b) else None)
      else Some (GetEffectiveHoleShape b))"

text \<open>
  The clearance part (source lines 221 to 273).  The result is \<open>(ret, has_error, s)\<close>:
  \<open>ret = Some r\<close> when the function returns \<open>r\<close> from inside this part.
\<close>
definition trackClearance ::
  "DRC_ENV \<Rightarrow> BOARD_ITEM \<Rightarrow> SHAPE \<Rightarrow> PCB_LAYER_ID \<Rightarrow> BOARD_ITEM \<Rightarrow> DRC_CONSTRAINT \<Rightarrow> int
     \<Rightarrow> DRC_STATE \<Rightarrow> bool option \<times> bool \<times> DRC_STATE" where
  "trackClearance e track trackShape layer other constraint clearance s =
    (if GetSeverity constraint \<noteq> RPT_SEVERITY_IGNORE \<and> clearance > 0 then
       (case (if Type track = PCB_TRACE_T \<and> Type other = PCB_TRACE_T
              then (let trackSeg = (GetStart track, GetEnd track);
                        otherSeg = (GetStart track, GetEnd track)
                    in Intersect e trackSeg otherSeg)
              else None) of
          Some intersection \<Rightarrow>
            (Some False, False,
             reportViolation
               \<lparr>GetErrorCode = DRCE_TRACKS_CROSSING, GetItems = (track, other),
                GetViolatingRule = GetParentRule constraint, GetErrorMessage = NoMsg,
                MarkerPos = intersection, MarkerLayer = layer\<rparr> s)
        | None \<Rightarrow>
            (case collide e CLEARANCE_CONSTRAINT trackShape
                    (Some (GetEffectiveShape other layer)) (clearance - m_drcEpsilon e) s of
               (Some (actual, pos), s1) \<Rightarrow>
                 if IsNetTieExclusion e (GetNetCode track) layer pos other then (None, False, s1)
                 else
                   (let s2 = reportViolation
                          \<lparr>GetErrorCode = DRCE_CLEARANCE, GetItems = (track, other),
                           GetViolatingRule = GetParentRule constraint,
                           GetErrorMessage = ClearanceMsg (GetName constraint) clearance actual,
                           MarkerPos = pos, MarkerLayer = layer\<rparr> s1
                    in if \<not> GetReportAllTrackErrors e then (Some False, True, s2)
                       else (None, True, s2))
             | (None, s1) \<Rightarrow> (None, False, s1)))
     else (None, False, s))"

text \<open>
  The loop over the two orientations of the hole test (source lines 281 to 326), over
  the triples \<open>(a[ii], b[ii], a_shape[ii])\<close>.  The result is \<open>False\<close> when the loop
  returned \<open>false\<close> from the function, \<open>True\<close> when it ran to its end.
\<close>
fun trackHoles ::
  "DRC_ENV \<Rightarrow> PCB_LAYER_ID \<Rightarrow> (BOARD_ITEM \<times> BOARD_ITEM \<times> SHAPE) list \<Rightarrow> DRC_STATE
     \<Rightarrow> bool \<times> DRC_STATE" where
  "trackHoles e layer [] s = (True, s)"
| "trackHoles e layer ((a, b, a_shape) # rest) s =
    (if \<not> is_PCB_TRACK a \<or> \<not> HasHole b then trackHoles e layer rest s
     else
       (let holeShape = holeShapeOn b layer;
            constraint = EvalRules e HOLE_CLEARANCE_CONSTRAINT b a layer;
            clearance = GetValue_Min constraint
        in if GetSeverity constraint \<noteq> RPT_SEVERITY_IGNORE then
             (case collide e HOLE_CLEARANCE_CONSTRAINT a_shape holeShape
                     (max 0 (clearance - m_drcEpsilon e)) s of
                (Some (actual, pos), s1) \<Rightarrow>
                  (False,
                   reportViolation
                     \<lparr>GetErrorCode = DRCE_HOLE_CLEARANCE, GetItems = (a, b),
                      GetViolatingRule = GetParentRule constraint,
                      GetErrorMessage =
                        (if clearance \<noteq> 0 then ClearanceMsg (GetName constraint) clearance actual
                         else ClearanceNegMsg (GetName constraint) clearance actual),
                      MarkerPos = pos, MarkerLayer = layer\<rparr> s1)
              | (None, s1) \<Rightarrow> trackHoles e layer rest s1)
           else trackHoles e layer rest s))"

definition testTrackAgainstItem ::
  "DRC_ENV \<Rightarrow> BOARD_ITEM \<Rightarrow> SHAPE \<Rightarrow> PCB_LAYER_ID \<Rightarrow> BOARD_ITEM \<Rightarrow> DRC_STATE
     \<Rightarrow> bool \<times> DRC_STATE" where
  "testTrackAgainstItem e track trackShape layer other s0 =
    (let (limC, s1) = errorLimitExceeded e DRCE_CLEARANCE s0;
         (limH, s2) = errorLimitExceeded e DRCE_HOLE_CLEARANCE s1;
         testHoles = \<not> limH;
         otherShape = GetEffectiveShape other layer;
         testClearance =
           (if Type other = PCB_PAD_T \<and> GetAttribute other = NPTH \<and> \<not> FlashLayer other layer
            then False else \<not> limC);
         constraint =
           (if testClearance then EvalRules e CLEARANCE_CONSTRAINT track other layer
            else default_constraint);
         clearance = (if testClearance then GetValue_Min constraint else - 1)
     in case trackClearance e track trackShape layer other constraint clearance s2 of
          (Some r, has_error, s3) \<Rightarrow> (r, s3)
        | (None, has_error, s3) \<Rightarrow>
            if testHoles \<and> (HasHole track \<or> HasHole other) then
              (case trackHoles e layer
                      [(track, other, trackShape), (other, track, otherShape)] s3 of
                 (False, s4) \<Rightarrow> (False, s4)
               | (True, s4) \<Rightarrow> (\<not> has_error, s4))
            else (\<not> has_error, s3))"

subsection \<open>testItemAgainstZone\<close>

text \<open>Source lines 385 to 404.\<close>
definition zoneClearance ::
  "DRC_ENV \<Rightarrow> BOARD_ITEM \<Rightarrow> BOARD_ITEM \<Rightarrow> PCB_LAYER_ID \<Rightarrow> nat \<Rightarrow> DRC_CONSTRAINT \<Rightarrow> int
     \<Rightarrow> DRC_STATE \<Rightarrow> DRC_STATE" where
  "zoneClearance e aItem aZone aLayer zoneTree constraint clearance s =
    (if GetSeverity constraint \<noteq> RPT_SEVERITY_IGNORE \<and> clearance > 0 then
       (case zoneQuery e CLEARANCE_CONSTRAINT zoneTree (GetBoundingBox aItem)
               (GetEffectiveShape aItem aLayer) aLayer (max 0 (clearance - m_drcEpsilon e)) s of
          (Some (actual, pos), s1) \<Rightarrow>
            reportViolation
              \<lparr>GetErrorCode = DRCE_CLEARANCE, GetItems = (aItem, aZone),
               GetViolatingRule = GetParentRule constraint,
               GetErrorMessage = ClearanceMsg (GetName constraint) clearance actual,
               MarkerPos = pos, MarkerLayer = aLayer\<rparr> s1
        | (None, s1) \<Rightarrow> s1)
     else s)"

text \<open>Source lines 406 to 445.\<close>
definition zoneHoles ::
  "DRC_ENV \<Rightarrow> BOARD_ITEM \<Rightarrow> BOARD_ITEM \<Rightarrow> PCB_LAYER_ID \<Rightarrow> nat \<Rightarrow> bool \<Rightarrow> DRC_STATE \<Rightarrow> DRC_STATE"
  where
  "zoneHoles e aItem aZone aLayer zoneTree testHoles s =
    (if testHoles \<and> HasHole aItem then
       (case holeShapeOn aItem aLayer of
          None \<Rightarrow> s
        | Some holeShape \<Rightarrow>
            (let constraint = EvalRules e HOLE_CLEARANCE_CONSTRAINT aItem aZone aLayer;
                 clearance = GetValue_Min constraint
             in if GetSeverity constraint \<noteq> RPT_SEVERITY_IGNORE \<and> clearance > 0 then
                  (case zoneQuery e HOLE_CLEARANCE_CONSTRAINT zoneTree (GetBoundingBox aItem)
                          holeShape aLayer (max 0 (clearance - m_drcEpsilon e)) s of
                     (Some (actual, pos), s1) \<Rightarrow>
                       reportViolation
                         \<lparr>GetErrorCode = DRCE_HOLE_CLEARANCE, GetItems = (aItem, aZone),
                          GetViolatingRule = GetParentRule constraint,
                          GetErrorMessage = ClearanceMsg (GetName constraint) clearance actual,
                          MarkerPos = pos, MarkerLayer = aLayer\<rparr> s1
                   | (None, s1) \<Rightarrow> s1)
                else s))
     else s)"

definition testItemAgainstZone ::
  "DRC_ENV \<Rightarrow> BOARD_ITEM \<Rightarrow> BOARD_ITEM \<Rightarrow> PCB_LAYER_ID \<Rightarrow> DRC_STATE \<Rightarrow> DRC_STATE" where
  "testItemAgainstZone e aItem aZone aLayer s0 =
    (if aLayer \<notin> GetLayerSet aZone then s0
     else if GetNetCode aZone \<noteq> 0 \<and> IsConnected aItem \<and> GetNetCode aZone = GetNetCode aItem
     then s0
     else
       (let itemBBox = GetBoundingBox aItem;
            worstCaseBBox = Inflate e itemBBox (m_DRCMaxClearance (m_board e))
        in if \<not> Intersects e worstCaseBBox (GetBoundingBox aZone) then s0
           else
             (let (limC, s1) = errorLimitExceeded e DRCE_CLEARANCE s0;
                  (limH, s2) = errorLimitExceeded e DRCE_HOLE_CLEARANCE s1;
                  testClearance = \<not> limC;
                  testHoles = \<not> limH
              in if \<not> testClearance \<and> \<not> testHoles then s2
                 else
                   (case CopperZoneRTreeCache (m_board e) (addr aZone) of
                      None \<Rightarrow> s2
                    | Some zoneTree \<Rightarrow>
                        (let testClearance =
                               (if Type aItem = PCB_PAD_T
                                   \<and> \<not> FlashLayer aItem aLayer
                                   \<and> \<not> (HasHole aItem \<and> GetAttribute aItem = PTH)
                                then False else testClearance);
                             constraint =
                               (if testClearance
                                then EvalRules e CLEARANCE_CONSTRAINT aItem aZone aLayer
                                else default_constraint);
                             clearance = (if testClearance then GetValue_Min constraint else - 1);
                             s3 = zoneClearance e aItem aZone aLayer zoneTree constraint clearance s2
                         in zoneHoles e aItem aZone aLayer zoneTree testHoles s3)))))"

subsection \<open>testKnockoutTextAgainstZone\<close>

text \<open>
  \<open>aInheritedNet\<close> is the in-out parameter: the address and the name of the inherited
  net, \<open>None\<close> for the null pointer.
\<close>
definition testKnockoutTextAgainstZone ::
  "DRC_ENV \<Rightarrow> BOARD_ITEM \<Rightarrow> (nat \<times> string) option \<Rightarrow> BOARD_ITEM \<Rightarrow> DRC_STATE
     \<Rightarrow> (nat \<times> string) option \<times> DRC_STATE" where
  "testKnockoutTextAgainstZone e aText aInheritedNet aZone s0 =
    (let (limC, s1) = errorLimitExceeded e DRCE_CLEARANCE s0;
         (limS, s2) = errorLimitExceeded e DRCE_SHORTING_ITEMS s1;
         testClearance = \<not> limC;
         testShorts = \<not> limS
     in if \<not> testClearance \<and> \<not> testShorts then (aInheritedNet, s2)
        else
          (let layer = GetLayer aText
           in if layer \<notin> GetLayerSet aZone then (aInheritedNet, s2)
              else
                (let itemBBox = GetBoundingBox aText;
                     worstCaseBBox = Inflate e itemBBox (m_DRCMaxClearance (m_board e))
                 in if \<not> Intersects e worstCaseBBox (GetBoundingBox aZone)
                    then (aInheritedNet, s2)
                    else
                      (case CopperZoneRTreeCache (m_board e) (addr aZone) of
                         None \<Rightarrow> (aInheritedNet, s2)
                       | Some zoneTree \<Rightarrow>
                           (let itemShape = GetEffectiveShape aText layer;
                                aInheritedNet =
                                  (if aInheritedNet = None
                                      \<and> ZoneQueryCollidingAny e zoneTree itemBBox itemShape layer
                                   then Some (GetNet aZone, GetNetname aZone)
                                   else aInheritedNet)
                            in if map_option fst aInheritedNet = Some (GetNet aZone)
                               then (aInheritedNet, s2)
                               else
                                 (let constraint =
                                        EvalRules e CLEARANCE_CONSTRAINT aText aZone layer;
                                      clearance = GetValue_Min constraint
                                  in if GetSeverity constraint \<noteq> RPT_SEVERITY_IGNORE
                                        \<and> clearance \<ge> 0
                                     then
                                       (case zoneQuery e CLEARANCE_CONSTRAINT zoneTree itemBBox
                                               itemShape layer
                                               (max 0 (clearance - m_drcEpsilon e)) s2 of
                                          (Some (actual, pos), s3) \<Rightarrow>
                                            (aInheritedNet,
                                             reportViolation
                                               \<lparr>GetErrorCode =
                                                  (if testShorts \<and> actual = 0 \<and> aInheritedNet \<noteq> None
                                                   then DRCE_SHORTING_ITEMS else DRCE_CLEARANCE),
                                                GetItems = (aText, aZone),
                                                GetViolatingRule = GetParentRule constraint,
                                                GetErrorMessage =
                                                  (if testShorts \<and> actual = 0 \<and> aInheritedNet \<noteq> None
                                                   then NetsMsg (snd (the aInheritedNet))
                                                          (GetNetname aZone)
                                                   else ClearanceMsg (GetName constraint)
                                                          clearance actual),
                                                MarkerPos = pos, MarkerLayer = layer\<rparr> s3)
                                        | (None, s3) \<Rightarrow> (aInheritedNet, s3))
                                     else (aInheritedNet, s2)))))))"

subsection \<open>The copper item index\<close>

text \<open>
  Modelled from the spec: \<^verbatim>\<open>DRC_RTREE::QueryColliding\<close> with a filter and a visitor
  (\<^verbatim>\<open>drc_rtree.h\<close>) is not part of the sources at hand.  It "enumerates candidate
  items ...; for each, invokes filter (may reject and record as already checked)
  then visitor (performs the real geometric test); aborts early if visitor returns
  false".  The candidates are the list the board gives for the reference item and
  the layer.
\<close>
fun QueryColliding ::
  "(BOARD_ITEM \<Rightarrow> 'st \<Rightarrow> bool \<times> 'st) \<Rightarrow> (BOARD_ITEM \<Rightarrow> 'st \<Rightarrow> bool \<times> 'st) \<Rightarrow> BOARD_ITEM list
     \<Rightarrow> 'st \<Rightarrow> 'st" where
  "QueryColliding aFilter aVisitor [] st = st"
| "QueryColliding aFilter aVisitor (other # rest) st =
    (case aFilter other st of
       (False, st1) \<Rightarrow> QueryColliding aFilter aVisitor rest st1
     | (True, st1) \<Rightarrow>
         (case aVisitor other st1 of
            (True, st2) \<Rightarrow> QueryColliding aFilter aVisitor rest st2
          | (False, st2) \<Rightarrow> st2))"

text \<open>The key \<^verbatim>\<open>{ a, b }\<close> after the swap into canonical (address) order.\<close>
definition pairKey :: "BOARD_ITEM \<Rightarrow> BOARD_ITEM \<Rightarrow> nat \<times> nat" where
  "pairKey a b = (if addr a > addr b then (addr b, addr a) else (addr a, addr b))"

subsection \<open>testTrackClearances\<close>

record layers_checked =
  layers :: LSET
  has_error :: bool

type_synonym track_phase =
  "((nat \<times> nat) \<Rightarrow> layers_checked option) \<times> (nat \<Rightarrow> int option) \<times> DRC_STATE"

text \<open>The filter of the query (source lines 556 to 583).\<close>
definition trackFilter ::
  "DRC_ENV \<Rightarrow> BOARD_ITEM \<Rightarrow> PCB_LAYER_ID \<Rightarrow> BOARD_ITEM \<Rightarrow> track_phase \<Rightarrow> bool \<times> track_phase"
  where
  "trackFilter e track layer other st =
    (case st of (checkedPairs, freePadsUsageMap, s) \<Rightarrow>
       if IsConnected other \<and> GetNetCode other = GetNetCode track then (False, st)
       else
         (case checkedPairs (pairKey track other) of
            Some it \<Rightarrow>
              if layer \<in> layers it \<or> (has_error it \<and> \<not> GetReportAllTrackErrors e)
              then (False, st)
              else (True,
                    (checkedPairs(pairKey track other \<mapsto> it\<lparr>layers := insert layer (layers it)\<rparr>),
                     freePadsUsageMap, s))
          | None \<Rightarrow>
              (True,
               (checkedPairs(pairKey track other \<mapsto> \<lparr>layers = {layer}, has_error = False\<rparr>),
                freePadsUsageMap, s))))"

text \<open>
  The free-pad test at the head of the visitor (source lines 590 to 606): \<open>True\<close> when
  the visitor returns \<open>true\<close> from there.
\<close>
definition freePadClaim ::
  "DRC_ENV \<Rightarrow> BOARD_ITEM \<Rightarrow> SHAPE \<Rightarrow> PCB_LAYER_ID \<Rightarrow> BOARD_ITEM \<Rightarrow> (nat \<Rightarrow> int option) \<Rightarrow> DRC_STATE
     \<Rightarrow> bool \<times> (nat \<Rightarrow> int option) \<times> DRC_STATE" where
  "freePadClaim e track trackShape layer other freePadsUsageMap s =
    (if Type other = PCB_PAD_T \<and> IsFreePad other then
       (case collide e NULL_CONSTRAINT (GetEffectiveShape other layer) (Some trackShape) 0 s of
          (Some hit, s1) \<Rightarrow>
            (case freePadsUsageMap (addr other) of
               None \<Rightarrow> (True, freePadsUsageMap(addr other \<mapsto> GetNetCode track), s1)
             | Some net \<Rightarrow>
                 if net = GetNetCode track then (True, freePadsUsageMap, s1)
                 else (False, freePadsUsageMap, s1))
        | (None, s1) \<Rightarrow> (False, freePadsUsageMap, s1))
     else (False, freePadsUsageMap, s))"

text \<open>The visitor of the query (source lines 585 to 630).\<close>
definition trackVisitor ::
  "DRC_ENV \<Rightarrow> BOARD_ITEM \<Rightarrow> SHAPE \<Rightarrow> PCB_LAYER_ID \<Rightarrow> BOARD_ITEM \<Rightarrow> track_phase
     \<Rightarrow> bool \<times> track_phase" where
  "trackVisitor e track trackShape layer other st =
    (case st of (checkedPairs, freePadsUsageMap, s0) \<Rightarrow>
       (case cancelled e s0 of
          (True, s1) \<Rightarrow> (False, (checkedPairs, freePadsUsageMap, s1))
        | (False, s1) \<Rightarrow>
            (case freePadClaim e track trackShape layer other freePadsUsageMap s1 of
               (True, freePads1, s2) \<Rightarrow> (True, (checkedPairs, freePads1, s2))
             | (False, freePads1, s2) \<Rightarrow>
                 (case testTrackAgainstItem e track trackShape layer other s2 of
                    (False, s3) \<Rightarrow>
                      (let checkedPairs1 =
                             (case checkedPairs (pairKey track other) of
                                Some it \<Rightarrow>
                                  checkedPairs(pairKey track other \<mapsto> it\<lparr>has_error := True\<rparr>)
                              | None \<Rightarrow> checkedPairs)
                       in if \<not> GetReportAllTrackErrors e
                          then (False, (checkedPairs1, freePads1, s3))
                          else (case cancelled e s3 of
                                  (c, s4) \<Rightarrow> (\<not> c, (checkedPairs1, freePads1, s4))))
                  | (True, s3) \<Rightarrow>
                      (case cancelled e s3 of
                         (c, s4) \<Rightarrow> (\<not> c, (checkedPairs, freePads1, s4)))))))"

text \<open>The loop over the copper zones at the end of the layer loop (lines 633 to 639).\<close>
fun trackZones ::
  "DRC_ENV \<Rightarrow> BOARD_ITEM \<Rightarrow> PCB_LAYER_ID \<Rightarrow> BOARD_ITEM list \<Rightarrow> DRC_STATE \<Rightarrow> DRC_STATE" where
  "trackZones e track layer [] s = s"
| "trackZones e track layer (zone # rest) s =
    (case cancelled e (testItemAgainstZone e track zone layer s) of
       (True, s1) \<Rightarrow> s1
     | (False, s1) \<Rightarrow> trackZones e track layer rest s1)"

fun trackLayers ::
  "DRC_ENV \<Rightarrow> BOARD_ITEM \<Rightarrow> PCB_LAYER_ID list \<Rightarrow> track_phase \<Rightarrow> track_phase" where
  "trackLayers e track [] st = st"
| "trackLayers e track (layer # rest) st =
    (case QueryColliding (trackFilter e track layer)
            (trackVisitor e track (GetEffectiveShape track layer) layer)
            (CopperItemRTree (m_board e) track layer) st of
       (checkedPairs, freePadsUsageMap, s1) \<Rightarrow>
         trackLayers e track rest
           (checkedPairs, freePadsUsageMap,
            trackZones e track layer (m_DRCCopperZones (m_board e)) s1))"

fun tracksLoop :: "DRC_ENV \<Rightarrow> BOARD_ITEM list \<Rightarrow> track_phase \<Rightarrow> track_phase" where
  "tracksLoop e [] st = st"
| "tracksLoop e (track # rest) st =
    (case st of (checkedPairs, freePadsUsageMap, s) \<Rightarrow>
       (case progress e s of
          (False, s1) \<Rightarrow> (checkedPairs, freePadsUsageMap, s1)
        | (True, s1) \<Rightarrow>
            tracksLoop e rest
              (trackLayers e track
                 (LSET_Seq (GetLayerSet track \<inter> CopperLayers (m_board e)))
                 (checkedPairs, freePadsUsageMap, s1))))"

definition testTrackClearances :: "DRC_ENV \<Rightarrow> DRC_STATE \<Rightarrow> DRC_STATE" where
  "testTrackClearances e s =
    snd (snd (tracksLoop e (Tracks (m_board e))
                (Map.empty, Map.empty, emit (EvAux ''Testing tracks & vias...'') s)))"

subsection \<open>testPadAgainstItem\<close>

text \<open>\<^verbatim>\<open>std::map::operator[]\<close>: a key that is absent reads as \<open>0\<close>.\<close>
definition netTieGroup :: "(string \<Rightarrow> int option) \<Rightarrow> string \<Rightarrow> int" where
  "netTieGroup padToNetTieGroupMap number =
     (case padToNetTieGroupMap number of None \<Rightarrow> 0 | Some idx \<Rightarrow> idx)"

text \<open>
  One of the three hole tests (source lines 795 to 811, 816 to 832, 837 to 852):
  \<open>True\<close> when the violation was reported.
\<close>
definition padHoleTest ::
  "DRC_ENV \<Rightarrow> DRC_CONSTRAINT \<Rightarrow> int \<Rightarrow> BOARD_ITEM \<Rightarrow> BOARD_ITEM \<Rightarrow> SHAPE \<Rightarrow> SHAPE \<Rightarrow> PCB_LAYER_ID
     \<Rightarrow> DRC_STATE \<Rightarrow> bool \<times> DRC_STATE" where
  "padHoleTest e constraint clearance pad other solid hole aLayer s =
    (if clearance > 0 then
       (case collide e HOLE_CLEARANCE_CONSTRAINT solid (Some hole)
               (max 0 (clearance - m_drcEpsilon e)) s of
          (Some (actual, pos), s1) \<Rightarrow>
            (True,
             reportViolation
               \<lparr>GetErrorCode = DRCE_HOLE_CLEARANCE, GetItems = (pad, other),
                GetViolatingRule = GetParentRule constraint,
                GetErrorMessage = ClearanceMsg (GetName constraint) clearance actual,
                MarkerPos = pos, MarkerLayer = aLayer\<rparr> s1)
        | (None, s1) \<Rightarrow> (False, s1))
     else (False, s))"

text \<open>
  The clearance test (source lines 750 to 782): the result is the new value of
  \<^verbatim>\<open>testHoles\<close>.
\<close>
definition padClearance ::
  "DRC_ENV \<Rightarrow> BOARD_ITEM \<Rightarrow> SHAPE \<Rightarrow> PCB_LAYER_ID \<Rightarrow> BOARD_ITEM \<Rightarrow> bool \<Rightarrow> bool \<Rightarrow> DRC_STATE
     \<Rightarrow> bool \<times> DRC_STATE" where
  "padClearance e pad padShape aLayer other testClearance testHoles s =
    (if testClearance then
       (let constraint = EvalRules e CLEARANCE_CONSTRAINT pad other aLayer;
            clearance = GetValue_Min constraint
        in if GetSeverity constraint \<noteq> RPT_SEVERITY_IGNORE \<and> clearance > 0 then
             (case collide e CLEARANCE_CONSTRAINT padShape (Some (GetEffectiveShape other aLayer))
                     (max 0 (clearance - m_drcEpsilon e)) s of
                (Some (actual, pos), s1) \<Rightarrow>
                  if IsNetTieExclusion e (GetNetCode pad) aLayer pos other then (testHoles, s1)
                  else
                    (False,
                     reportViolation
                       \<lparr>GetErrorCode = DRCE_CLEARANCE, GetItems = (pad, other),
                        GetViolatingRule = GetParentRule constraint,
                        GetErrorMessage = ClearanceMsg (GetName constraint) clearance actual,
                        MarkerPos = pos, MarkerLayer = aLayer\<rparr> s1)
              | (None, s1) \<Rightarrow> (testHoles, s1))
           else (testHoles, s))
     else (testHoles, s))"

text \<open>The hole tests (source lines 784 to 853).\<close>
definition padHoles ::
  "DRC_ENV \<Rightarrow> BOARD_ITEM \<Rightarrow> SHAPE \<Rightarrow> PCB_LAYER_ID \<Rightarrow> BOARD_ITEM \<Rightarrow> bool \<Rightarrow> DRC_STATE \<Rightarrow> DRC_STATE"
  where
  "padHoles e pad padShape aLayer other testHoles s =
    (if testHoles then
       (let otherPad = (Type other = PCB_PAD_T);
            otherVia = (Type other = PCB_VIA_T);
            constraint = EvalRules e HOLE_CLEARANCE_CONSTRAINT pad other aLayer;
            clearance = GetValue_Min constraint;
            testHoles = (if GetSeverity constraint = RPT_SEVERITY_IGNORE then False else testHoles);
            (reported, s1) =
              (if testHoles \<and> otherPad \<and> FlashLayer pad aLayer \<and> HasHole other
               then padHoleTest e constraint clearance pad other padShape
                      (GetEffectiveHoleShape other) aLayer s
               else (False, s));
            testHoles = (if reported then False else testHoles);
            (reported, s2) =
              (if testHoles \<and> otherPad \<and> FlashLayer other aLayer \<and> HasHole pad
               then padHoleTest e constraint clearance pad other (GetEffectiveShape other aLayer)
                      (GetEffectiveHoleShape pad) aLayer s1
               else (False, s1));
            testHoles = (if reported then False else testHoles)
        in if testHoles \<and> otherVia \<and> IsOnLayer other aLayer
           then snd (padHoleTest e constraint clearance pad other padShape
                       (GetEffectiveHoleShape other) aLayer s2)
           else s2)
     else s)"

definition testPadAgainstItem ::
  "DRC_ENV \<Rightarrow> BOARD_ITEM \<Rightarrow> SHAPE \<Rightarrow> PCB_LAYER_ID \<Rightarrow> BOARD_ITEM \<Rightarrow> DRC_STATE
     \<Rightarrow> bool \<times> DRC_STATE" where
  "testPadAgainstItem e pad padShape aLayer other s0 =
    (let (limC, s1) = errorLimitExceeded e DRCE_CLEARANCE s0;
         (limS, s2) = errorLimitExceeded e DRCE_SHORTING_ITEMS s1;
         (limH, s3) = errorLimitExceeded e DRCE_HOLE_CLEARANCE s2;
         testClearance = \<not> limC;
         testShorting = \<not> limS;
         testHoles = \<not> limH;
         sameParent = (GetParent other = GetParent pad);
         padToNetTieGroupMap = MapPadNumbersToNetTieGroups e (GetParent pad);
         padGroupIdx = netTieGroup padToNetTieGroupMap (GetNumber pad);
         testClearance =
           (if sameParent \<and> Type other = PCB_PAD_T \<and> padGroupIdx \<ge> 0
               \<and> padGroupIdx = netTieGroup padToNetTieGroupMap (GetNumber other)
            then False else testClearance);
         testHoles =
           (if sameParent \<and> Type other = PCB_PAD_T \<and> SameLogicalPadAs e pad other
            then False else testHoles);
         testClearance =
           (if sameParent \<and> Type other = PCB_FP_SHAPE_T \<and> padGroupIdx \<ge> 0
            then False else testClearance);
         otherPad = (Type other = PCB_PAD_T);
         otherVia = (Type other = PCB_VIA_T);
         testClearance = (if \<not> IsCopperLayer aLayer then False else testClearance);
         testClearance =
           (if GetAttribute pad = NPTH \<and> \<not> FlashLayer pad aLayer then False else testClearance);
         testClearance =
           (if otherPad \<and> GetAttribute other = NPTH \<and> \<not> FlashLayer other aLayer
            then False else testClearance);
         testClearance = (if is_PCB_TRACK other then False else testClearance);
         padNet = GetNetCode pad;
         otherPadNet = (if otherPad then GetNetCode other else 0);
         otherViaNet = (if otherVia then GetNetCode other else 0);
         sameNet = ((otherPadNet \<noteq> 0 \<and> otherPadNet = padNet)
                      \<or> (otherViaNet \<noteq> 0 \<and> otherViaNet = padNet));
         testClearance = (if sameNet then False else testClearance);
         testHoles = (if sameNet then False else testHoles);
         testHoles =
           (if \<not> (GetDrillSize_x pad > 0) \<and> \<not> (otherPad \<and> GetDrillSize_x other > 0)
               \<and> \<not> (otherVia \<and> GetDrill other > 0)
            then False else testHoles)
     in if \<not> testClearance \<and> \<not> testShorting \<and> \<not> testHoles then (False, s3)
        else if otherPad \<and> SameLogicalPadAs e pad other then
          (let s4 =
                 (if GetNetCode pad \<noteq> 0 \<and> GetNetCode other \<noteq> 0
                     \<and> GetNetCode pad \<noteq> GetNetCode other \<and> testShorting
                  then reportViolation
                         \<lparr>GetErrorCode = DRCE_SHORTING_ITEMS, GetItems = (pad, other),
                          GetViolatingRule = None,
                          GetErrorMessage = NetsMsg (GetNetname pad) (GetNetname other),
                          MarkerPos = GetPosition other, MarkerLayer = aLayer\<rparr> s3
                  else s3);
               (c, s5) = cancelled e s4
           in (\<not> c, s5))
        else
          (let (testHoles, s4) =
                 padClearance e pad padShape aLayer other testClearance testHoles s3;
               s5 = padHoles e pad padShape aLayer other testHoles s4;
               (c, s6) = cancelled e s5
           in (\<not> c, s6)))"

subsection \<open>testPadClearances\<close>

type_synonym pad_phase = "((nat \<times> nat) \<Rightarrow> int option) \<times> DRC_STATE"

text \<open>The filter of the query (source lines 884 to 903).\<close>
definition padFilter :: "BOARD_ITEM \<Rightarrow> BOARD_ITEM \<Rightarrow> pad_phase \<Rightarrow> bool \<times> pad_phase" where
  "padFilter pad other st =
    (case st of (checkedPairs, s) \<Rightarrow>
       if checkedPairs (pairKey pad other) \<noteq> None then (False, st)
       else (True, (checkedPairs(pairKey pad other \<mapsto> 1), s)))"

definition padVisitor ::
  "DRC_ENV \<Rightarrow> BOARD_ITEM \<Rightarrow> SHAPE \<Rightarrow> PCB_LAYER_ID \<Rightarrow> BOARD_ITEM \<Rightarrow> pad_phase \<Rightarrow> bool \<times> pad_phase"
  where
  "padVisitor e pad padShape layer other st =
    (case st of (checkedPairs, s) \<Rightarrow>
       (case testPadAgainstItem e pad padShape layer other s of
          (r, s1) \<Rightarrow> (r, (checkedPairs, s1))))"

text \<open>
  The loops of \<^verbatim>\<open>testPadClearances\<close>.  The first component of a result is \<open>True\<close>
  when the loop left the function by \<^verbatim>\<open>return\<close>.
\<close>
fun padZones ::
  "DRC_ENV \<Rightarrow> BOARD_ITEM \<Rightarrow> PCB_LAYER_ID \<Rightarrow> BOARD_ITEM list \<Rightarrow> DRC_STATE \<Rightarrow> bool \<times> DRC_STATE" where
  "padZones e pad layer [] s = (False, s)"
| "padZones e pad layer (zone # rest) s =
    (case cancelled e (testItemAgainstZone e pad zone layer s) of
       (True, s1) \<Rightarrow> (True, s1)
     | (False, s1) \<Rightarrow> padZones e pad layer rest s1)"

fun padLayers ::
  "DRC_ENV \<Rightarrow> BOARD_ITEM \<Rightarrow> PCB_LAYER_ID list \<Rightarrow> pad_phase \<Rightarrow> bool \<times> pad_phase" where
  "padLayers e pad [] st = (False, st)"
| "padLayers e pad (layer # rest) st =
    (case QueryColliding (padFilter pad) (padVisitor e pad (GetEffectiveShape pad layer) layer)
            (CopperItemRTree (m_board e) pad layer) st of
       (checkedPairs, s1) \<Rightarrow>
         (case padZones e pad layer (m_DRCCopperZones (m_board e)) s1 of
            (True, s2) \<Rightarrow> (True, (checkedPairs, s2))
          | (False, s2) \<Rightarrow> padLayers e pad rest (checkedPairs, s2)))"

fun padsLoop :: "DRC_ENV \<Rightarrow> BOARD_ITEM list \<Rightarrow> pad_phase \<Rightarrow> bool \<times> pad_phase" where
  "padsLoop e [] st = (False, st)"
| "padsLoop e (pad # rest) st =
    (case padLayers e pad (LSET_Seq (GetLayerSet pad \<inter> CopperLayers (m_board e))) st of
       (True, st1) \<Rightarrow> (True, st1)
     | (False, (checkedPairs, s1)) \<Rightarrow>
         (case progress e s1 of
            (False, s2) \<Rightarrow> (True, (checkedPairs, s2))
          | (True, s2) \<Rightarrow> padsLoop e rest (checkedPairs, s2)))"

fun footprintsLoop :: "DRC_ENV \<Rightarrow> FOOTPRINT list \<Rightarrow> pad_phase \<Rightarrow> pad_phase" where
  "footprintsLoop e [] st = st"
| "footprintsLoop e (footprint # rest) st =
    (case padsLoop e (Pads footprint) st of
       (True, st1) \<Rightarrow> st1
     | (False, (checkedPairs, s1)) \<Rightarrow>
         (case cancelled e s1 of
            (True, s2) \<Rightarrow> (checkedPairs, s2)
          | (False, s2) \<Rightarrow> footprintsLoop e rest (checkedPairs, s2)))"

definition testPadClearances :: "DRC_ENV \<Rightarrow> DRC_STATE \<Rightarrow> DRC_STATE" where
  "testPadClearances e s =
    snd (footprintsLoop e (Footprints (m_board e))
           (Map.empty, emit (EvAux ''Testing pads...'') s))"

subsection \<open>testGraphicClearances\<close>

definition isKnockoutText :: "BOARD_ITEM \<Rightarrow> bool" where
  "isKnockoutText item =
     (if Type item = PCB_TEXT_T then IsKnockout item
      else if Type item = PCB_FP_TEXT_T then IsKnockout item
      else False)"

text \<open>The loop over the zones inside the lambda \<^verbatim>\<open>testGraphicAgainstZone\<close>.\<close>
fun graphicZones ::
  "DRC_ENV \<Rightarrow> BOARD_ITEM \<Rightarrow> (nat \<times> string) option \<Rightarrow> BOARD_ITEM list \<Rightarrow> DRC_STATE \<Rightarrow> DRC_STATE"
  where
  "graphicZones e item inheritedNet [] s = s"
| "graphicZones e item inheritedNet (zone # rest) s =
    (case (if isKnockoutText item then testKnockoutTextAgainstZone e item inheritedNet zone s
           else (inheritedNet, testItemAgainstZone e item zone (GetLayer item) s)) of
       (inheritedNet1, s1) \<Rightarrow>
         (case cancelled e s1 of
            (True, s2) \<Rightarrow> s2
          | (False, s2) \<Rightarrow> graphicZones e item inheritedNet1 rest s2))"

definition testGraphicAgainstZone :: "DRC_ENV \<Rightarrow> BOARD_ITEM \<Rightarrow> DRC_STATE \<Rightarrow> DRC_STATE" where
  "testGraphicAgainstZone e item s =
    (if Type item = PCB_BITMAP_T then s
     else if \<not> IsCopperLayer (GetLayer item) then s
     else graphicZones e item None (m_DRCCopperZones (m_board e)) s)"

text \<open>
  The loop over a list of graphic items; \<open>True\<close> when it left the function by
  \<^verbatim>\<open>return\<close>.
\<close>
fun graphicsLoop :: "DRC_ENV \<Rightarrow> BOARD_ITEM list \<Rightarrow> DRC_STATE \<Rightarrow> bool \<times> DRC_STATE" where
  "graphicsLoop e [] s = (False, s)"
| "graphicsLoop e (item # rest) s =
    (case progress e (testGraphicAgainstZone e item s) of
       (False, s1) \<Rightarrow> (True, s1)
     | (True, s1) \<Rightarrow> graphicsLoop e rest s1)"

fun footprintGraphicsLoop :: "DRC_ENV \<Rightarrow> FOOTPRINT list \<Rightarrow> DRC_STATE \<Rightarrow> DRC_STATE" where
  "footprintGraphicsLoop e [] s = s"
| "footprintGraphicsLoop e (footprint # rest) s =
    (case graphicsLoop e (GraphicalItems footprint) s of
       (True, s1) \<Rightarrow> s1
     | (False, s1) \<Rightarrow> footprintGraphicsLoop e rest s1)"

definition testGraphicClearances :: "DRC_ENV \<Rightarrow> DRC_STATE \<Rightarrow> DRC_STATE" where
  "testGraphicClearances e s =
    (case graphicsLoop e (Drawings (m_board e)) (emit (EvAux ''Testing graphics...'') s) of
       (True, s1) \<Rightarrow> s1
     | (False, s1) \<Rightarrow> footprintGraphicsLoop e (Footprints (m_board e)) s1)"

subsection \<open>testZonesToZones\<close>

text \<open>
  \<^verbatim>\<open>report_data\<close>: the indices of zoneA and zoneB, the conflict point, the actual
  clearance, the required clearance and the layer.
\<close>
type_synonym report_data = "int \<times> int \<times> VECTOR2I \<times> int \<times> int \<times> PCB_LAYER_ID"

definition invalid_zone :: int where
  "invalid_zone = - 1"

definition invalid_result :: report_data where
  "invalid_result = (invalid_zone, invalid_zone, (0, 0), 0, 0, F_Cu)"

text \<open>
  The inner loop of \<^verbatim>\<open>checkZones\<close> over the test segments (source lines 1039 to
  1071): \<open>Some r\<close> when the lambda returns \<open>r\<close>, \<open>None\<close> when the loop ends or breaks
  and the next reference segment is taken.  The flag \<^verbatim>\<open>reported\<close> is false
  whenever the loop body starts, because the lambda returns as soon as it is set.
\<close>
fun testSegmentsLoop ::
  "DRC_ENV \<Rightarrow> bool \<Rightarrow> bool \<Rightarrow> bool \<Rightarrow> int \<Rightarrow> int \<Rightarrow> int \<Rightarrow> PCB_LAYER_ID \<Rightarrow> SEG \<Rightarrow> SEG list
     \<Rightarrow> report_data option" where
  "testSegmentsLoop e testClearance testIntersects cancelledFlag zoneA zoneB zone2zoneClearance
     layer refSegment [] = None"
| "testSegmentsLoop e testClearance testIntersects cancelledFlag zoneA zoneB zone2zoneClearance
     layer refSegment (testSegment # rest) =
    (let ax2 = fst (snd refSegment);
         bx1 = fst (fst testSegment)
     in if ax2 < bx1 then None
        else
          (let (d, pt) = GetClearanceBetweenSegments e testSegment refSegment zone2zoneClearance;
               reported =
                 (if d < zone2zoneClearance
                  then (if d = 0 \<and> testIntersects then True
                        else if testClearance then True else False)
                  else False)
           in if d < zone2zoneClearance \<and> reported
              then Some (zoneA, zoneB, pt, d, zone2zoneClearance, layer)
              else if cancelledFlag then Some invalid_result
              else testSegmentsLoop e testClearance testIntersects cancelledFlag zoneA zoneB
                     zone2zoneClearance layer refSegment rest))"

text \<open>The outer loop over the reference segments, and the lambda \<^verbatim>\<open>checkZones\<close>.\<close>
fun refSegmentsLoop ::
  "DRC_ENV \<Rightarrow> bool \<Rightarrow> bool \<Rightarrow> bool \<Rightarrow> int \<Rightarrow> int \<Rightarrow> int \<Rightarrow> PCB_LAYER_ID \<Rightarrow> SEG list \<Rightarrow> SEG list
     \<Rightarrow> report_data" where
  "refSegmentsLoop e testClearance testIntersects cancelledFlag zoneA zoneB zone2zoneClearance
     layer [] testSegments = invalid_result"
| "refSegmentsLoop e testClearance testIntersects cancelledFlag zoneA zoneB zone2zoneClearance
     layer (refSegment # rest) testSegments =
    (case testSegmentsLoop e testClearance testIntersects cancelledFlag zoneA zoneB
            zone2zoneClearance layer refSegment testSegments of
       Some r \<Rightarrow> r
     | None \<Rightarrow>
         refSegmentsLoop e testClearance testIntersects cancelledFlag zoneA zoneB
           zone2zoneClearance layer rest testSegments)"

text \<open>
  The segment list the provider builds for a zone and a layer (source lines 1098 to
  1108): every segment is turned so that \<open>A.x \<le> B.x\<close>, then the list is sorted.

  Modelled from the spec: \<^verbatim>\<open>SEG::operator<\<close>, the order of \<^verbatim>\<open>std::sort\<close>, is
  not part of the sources at hand; the list is "sorted by one coordinate to allow a
  sweep-style early exit", the coordinate the early exit reads: \<open>A.x\<close>.
\<close>
definition orient :: "SEG \<Rightarrow> SEG" where
  "orient seg = (if fst (fst seg) > fst (snd seg) then (snd seg, fst seg) else seg)"

definition poly_segs :: "BOARD_ITEM \<Rightarrow> PCB_LAYER_ID \<Rightarrow> SEG list" where
  "poly_segs zone layer =
     (if IsOnLayer zone layer
      then sort_key (\<lambda>seg. fst (fst seg)) (map orient (FilledPolySegments zone layer))
      else [])"

definition checkZones ::
  "DRC_ENV \<Rightarrow> bool \<Rightarrow> bool \<Rightarrow> bool \<Rightarrow> nat \<Rightarrow> nat \<Rightarrow> int \<Rightarrow> PCB_LAYER_ID \<Rightarrow> report_data" where
  "checkZones e testClearance testIntersects cancelledFlag zoneA zoneB zone2zoneClearance layer =
     refSegmentsLoop e testClearance testIntersects cancelledFlag (int zoneA) (int zoneB)
       zone2zoneClearance layer
       (poly_segs (m_DRCCopperZones (m_board e) ! zoneA) layer)
       (poly_segs (m_DRCCopperZones (m_board e) ! zoneB) layer)"

text \<open>A submitted task: the arguments of \<^verbatim>\<open>checkZones\<close>.\<close>
type_synonym zone_task = "nat \<times> nat \<times> int \<times> PCB_LAYER_ID"

text \<open>The loop over \<open>ia2\<close> (source lines 1127 to 1158): the tasks it submits.\<close>
fun zoneBLoop ::
  "DRC_ENV \<Rightarrow> PCB_LAYER_ID \<Rightarrow> nat \<Rightarrow> nat list \<Rightarrow> zone_task list" where
  "zoneBLoop e layer ia [] = []"
| "zoneBLoop e layer ia (ia2 # rest) =
    (let zoneA = m_DRCCopperZones (m_board e) ! ia;
         zoneB = m_DRCCopperZones (m_board e) ! ia2
     in if \<not> IsOnLayer zoneB layer then zoneBLoop e layer ia rest
        else if GetNetCode zoneA = GetNetCode zoneB \<and> GetNetCode zoneA \<ge> 0
        then zoneBLoop e layer ia rest
        else if GetIsRuleArea zoneA \<or> GetIsRuleArea zoneB then zoneBLoop e layer ia rest
        else if \<not> Intersects e (FillBBox zoneA layer) (FillBBox zoneB layer)
        then zoneBLoop e layer ia rest
        else
          (let constraint = EvalRules e CLEARANCE_CONSTRAINT zoneA zoneB layer;
               zone2zoneClearance = GetValue_Min constraint
           in if GetSeverity constraint = RPT_SEVERITY_IGNORE \<or> zone2zoneClearance \<le> 0
              then zoneBLoop e layer ia rest
              else (ia, ia2, zone2zoneClearance, layer) # zoneBLoop e layer ia rest))"

text \<open>
  The loop over \<open>ia\<close> (source lines 1114 to 1159): \<open>(returned, tasks, s)\<close>, with
  \<open>returned\<close> true when progress reporting asked to stop and the function returned.
\<close>
fun zoneALoop ::
  "DRC_ENV \<Rightarrow> PCB_LAYER_ID \<Rightarrow> nat list \<Rightarrow> DRC_STATE \<Rightarrow> bool \<times> zone_task list \<times> DRC_STATE" where
  "zoneALoop e layer [] s = (False, [], s)"
| "zoneALoop e layer (ia # rest) s =
    (case progress e s of
       (False, s1) \<Rightarrow> (True, [], s1)
     | (True, s1) \<Rightarrow>
         (let tasks =
                (if \<not> IsOnLayer (m_DRCCopperZones (m_board e) ! ia) layer then []
                 else zoneBLoop e layer ia
                        [Suc ia ..< length (m_DRCCopperZones (m_board e))])
          in case zoneALoop e layer rest s1 of
               (returned, tasks1, s2) \<Rightarrow> (returned, tasks @ tasks1, s2)))"

text \<open>The loop over the copper layers (source lines 1077 to 1160).\<close>
fun zoneLayersLoop ::
  "DRC_ENV \<Rightarrow> PCB_LAYER_ID list \<Rightarrow> DRC_STATE \<Rightarrow> bool \<times> zone_task list \<times> DRC_STATE" where
  "zoneLayersLoop e [] s = (False, [], s)"
| "zoneLayersLoop e (layer # rest) s =
    (if \<not> IsLayerEnabled (m_board e) layer then zoneLayersLoop e rest s
     else
       (case zoneALoop e layer [0 ..< length (m_DRCCopperZones (m_board e))] s of
          (True, tasks, s1) \<Rightarrow> (True, tasks, s1)
        | (False, tasks, s1) \<Rightarrow>
            (case zoneLayersLoop e rest s1 of
               (returned, tasks1, s2) \<Rightarrow> (returned, tasks @ tasks1, s2))))"

text \<open>What the collecting loop does with the result of a task (lines 1181 to 1219).\<close>
definition reportZoneResult ::
  "DRC_ENV \<Rightarrow> bool \<Rightarrow> bool \<Rightarrow> report_data \<Rightarrow> DRC_STATE \<Rightarrow> DRC_STATE" where
  "reportZoneResult e testClearance testIntersects data s =
    (case data of (zoneA_id, zoneB_id, pt, actual, required, layer) \<Rightarrow>
       if zoneA_id \<noteq> invalid_zone then
         (let zoneA = m_DRCCopperZones (m_board e) ! nat zoneA_id;
              zoneB = m_DRCCopperZones (m_board e) ! nat zoneB_id;
              constraint = EvalRules e CLEARANCE_CONSTRAINT zoneA zoneB layer
          in if actual \<le> 0 \<and> testIntersects then
               reportViolation
                 \<lparr>GetErrorCode = DRCE_ZONES_INTERSECT, GetItems = (zoneA, zoneB),
                  GetViolatingRule = GetParentRule constraint, GetErrorMessage = NoMsg,
                  MarkerPos = pt, MarkerLayer = layer\<rparr> s
             else if testClearance then
               reportViolation
                 \<lparr>GetErrorCode = DRCE_CLEARANCE, GetItems = (zoneA, zoneB),
                  GetViolatingRule = GetParentRule constraint,
                  GetErrorMessage = ClearanceMsg (GetName constraint) required (max actual 0),
                  MarkerPos = pt, MarkerLayer = layer\<rparr> s
             else s)
       else s)"

text \<open>
  The loop over the futures (source lines 1162 to 1225).  The thread pool is modelled
  by running a task when its future is awaited, with the value the flag
  \<^verbatim>\<open>cancelled\<close> has then.
\<close>
fun futuresLoop ::
  "DRC_ENV \<Rightarrow> bool \<Rightarrow> bool \<Rightarrow> zone_task list \<Rightarrow> bool \<Rightarrow> DRC_STATE \<Rightarrow> DRC_STATE" where
  "futuresLoop e testClearance testIntersects [] cancelledFlag s = s"
| "futuresLoop e testClearance testIntersects (task # rest) cancelledFlag s =
    (case cancelled e s of
       (True, s1) \<Rightarrow> futuresLoop e testClearance testIntersects rest True s1
     | (False, s1) \<Rightarrow>
         (case task of (zoneA, zoneB, zone2zoneClearance, layer) \<Rightarrow>
            futuresLoop e testClearance testIntersects rest cancelledFlag
              (reportZoneResult e testClearance testIntersects
                 (checkZones e testClearance testIntersects cancelledFlag zoneA zoneB
                    zone2zoneClearance layer) s1)))"

definition testZonesToZones :: "DRC_ENV \<Rightarrow> DRC_STATE \<Rightarrow> DRC_STATE" where
  "testZonesToZones e s0 =
    (let (limC, s1) = errorLimitExceeded e DRCE_CLEARANCE s0;
         (limI, s2) = errorLimitExceeded e DRCE_ZONES_INTERSECT s1;
         testClearance = \<not> limC;
         testIntersects = \<not> limI
     in case zoneLayersLoop e [F_Cu ..< Suc B_Cu] s2 of
          (True, tasks, s3) \<Rightarrow> s3
        | (False, tasks, s3) \<Rightarrow> futuresLoop e testClearance testIntersects tasks False s3)"

subsection \<open>Run\<close>

text \<open>
  One of the four guarded phases of \<^verbatim>\<open>Run\<close>: \<open>None\<close> when the run goes on,
  \<open>Some False\<close> when \<^verbatim>\<open>reportPhase\<close> asked to stop and \<^verbatim>\<open>Run\<close> returns false.
\<close>
definition runPhase ::
  "DRC_ENV \<Rightarrow> string \<Rightarrow> (DRC_ENV \<Rightarrow> DRC_STATE \<Rightarrow> DRC_STATE) \<Rightarrow> DRC_STATE
     \<Rightarrow> bool option \<times> DRC_STATE" where
  "runPhase e msg test s =
    (case phase e msg s of
       (False, s1) \<Rightarrow> (Some False, s1)
     | (True, s1) \<Rightarrow> (None, test e s1))"

definition runTracks :: "DRC_ENV \<Rightarrow> DRC_STATE \<Rightarrow> bool option \<times> DRC_STATE" where
  "runTracks e s =
    (case errorLimitExceeded e DRCE_CLEARANCE s of
       (False, s1) \<Rightarrow> runPhase e ''Checking track & via clearances...'' testTrackClearances s1
     | (True, s1) \<Rightarrow>
         (case errorLimitExceeded e DRCE_HOLE_CLEARANCE s1 of
            (False, s2) \<Rightarrow> runPhase e ''Checking hole clearances...'' testTrackClearances s2
          | (True, s2) \<Rightarrow> (None, s2)))"

definition runPads :: "DRC_ENV \<Rightarrow> DRC_STATE \<Rightarrow> bool option \<times> DRC_STATE" where
  "runPads e s =
    (case errorLimitExceeded e DRCE_CLEARANCE s of
       (False, s1) \<Rightarrow> runPhase e ''Checking pad clearances...'' testPadClearances s1
     | (True, s1) \<Rightarrow>
         (case errorLimitExceeded e DRCE_SHORTING_ITEMS s1 of
            (False, s2) \<Rightarrow> runPhase e ''Checking pads...'' testPadClearances s2
          | (True, s2) \<Rightarrow>
              (case errorLimitExceeded e DRCE_HOLE_CLEARANCE s2 of
                 (False, s3) \<Rightarrow> runPhase e ''Checking pads...'' testPadClearances s3
               | (True, s3) \<Rightarrow> (None, s3))))"

definition runGraphics :: "DRC_ENV \<Rightarrow> DRC_STATE \<Rightarrow> bool option \<times> DRC_STATE" where
  "runGraphics e s =
    (case errorLimitExceeded e DRCE_CLEARANCE s of
       (False, s1) \<Rightarrow> runPhase e ''Checking copper graphic clearances...'' testGraphicClearances s1
     | (True, s1) \<Rightarrow> (None, s1))"

definition runZones :: "DRC_ENV \<Rightarrow> DRC_STATE \<Rightarrow> bool option \<times> DRC_STATE" where
  "runZones e s =
    (case errorLimitExceeded e DRCE_CLEARANCE s of
       (False, s1) \<Rightarrow> runPhase e ''Checking copper zone clearances...'' testZonesToZones s1
     | (True, s1) \<Rightarrow>
         (case errorLimitExceeded e DRCE_ZONES_INTERSECT s1 of
            (False, s2) \<Rightarrow> runPhase e ''Checking zones...'' testZonesToZones s2
          | (True, s2) \<Rightarrow> (None, s2)))"

text \<open>
  \<^verbatim>\<open>Run\<close>.  The provider's \<^verbatim>\<open>m_drcEpsilon\<close> is set from the board's design
  settings before the first phase.
\<close>
definition Run :: "DRC_ENV \<Rightarrow> DRC_STATE \<Rightarrow> bool \<times> DRC_STATE" where
  "Run e0 s0 =
    (if m_DRCMaxClearance (m_board e0) \<le> 0
     then (True, emit (EvAux ''No Clearance constraints found. Tests not run.'') s0)
     else
       (let e = e0\<lparr>m_drcEpsilon := GetDRCEpsilon (m_board e0)\<rparr>
        in case runTracks e s0 of
             (Some r, s1) \<Rightarrow> (r, s1)
           | (None, s1) \<Rightarrow>
               (case runPads e s1 of
                  (Some r, s2) \<Rightarrow> (r, s2)
                | (None, s2) \<Rightarrow>
                    (case runGraphics e s2 of
                       (Some r, s3) \<Rightarrow> (r, s3)
                     | (None, s3) \<Rightarrow>
                         (case runZones e s3 of
                            (Some r, s4) \<Rightarrow> (r, s4)
                          | (None, s4) \<Rightarrow>
                              (case cancelled e (emit (EvAux ''rule statistics'') s4) of
                                 (c, s5) \<Rightarrow> (\<not> c, s5)))))))"

section \<open>Concrete boards\<close>

text \<open>
  A trace on the front copper layer, a board with two copper layers and an engine
  that enforces a clearance of 10 between any two items: the examples below vary them.
\<close>
definition blank_item :: BOARD_ITEM where
  "blank_item =
     \<lparr>addr = 0, Type = PCB_TRACE_T, GetParent = 0, GetNetCode = 0, GetNetname = [], GetNet = 0,
      GetLayer = F_Cu, GetLayerSet = {F_Cu}, IsOnLayer = (\<lambda>l. l = F_Cu), HasHole = False,
      GetEffectiveShape = (\<lambda>l. 0), GetEffectiveHoleShape = 0,
      GetBoundingBox = ((0, 0), (0, 0)), GetPosition = (0, 0), GetStart = (0, 0),
      GetEnd = (0, 0), GetAttribute = SMD, FlashLayer = (\<lambda>l. True), IsFreePad = False,
      GetDrillSize_x = 0, GetDrill = 0, GetNumber = [], IsKnockout = False,
      GetIsRuleArea = False, FilledPolySegments = (\<lambda>l. []),
      FillBBox = (\<lambda>l. ((0, 0), (0, 0)))\<rparr>"

definition blank_board :: BOARD where
  "blank_board =
     \<lparr>m_DRCMaxClearance = 10, GetDRCEpsilon = 0, Tracks = [], Footprints = [], Drawings = [],
      m_DRCCopperZones = [], CopperLayers = {F_Cu, B_Cu},
      IsLayerEnabled = (\<lambda>l. l = F_Cu \<or> l = B_Cu),
      CopperItemRTree = (\<lambda>i l. []), CopperZoneRTreeCache = (\<lambda>z. None)\<rparr>"

definition rule10 :: DRC_CONSTRAINT where
  "rule10 =
     \<lparr>GetValue_Min = 10, GetSeverity = RPT_SEVERITY_ERROR, GetParentRule = Some 0,
      GetName = ''rule''\<rparr>"

definition blank_env :: DRC_ENV where
  "blank_env =
     \<lparr>m_board = blank_board, m_drcEpsilon = 0, IsErrorLimitExceeded = (\<lambda>k t. False),
      IsCancelled = (\<lambda>t. False), reportProgress = (\<lambda>t. True), reportPhase = (\<lambda>t. True),
      GetReportAllTrackErrors = False, EvalRules = (\<lambda>k a b l. rule10),
      IsNetTieExclusion = (\<lambda>n l p i. False), Collide = (\<lambda>a b c. None),
      Intersect = (\<lambda>s t. None), SameLogicalPadAs = (\<lambda>a b. False),
      MapPadNumbersToNetTieGroups = (\<lambda>fp n. None),
      ZoneQueryColliding = (\<lambda>t b s l c. None), ZoneQueryCollidingAny = (\<lambda>t b s l. False),
      Inflate = (\<lambda>b c. b), Intersects = (\<lambda>a b. True),
      GetClearanceBetweenSegments = (\<lambda>a b c. (c + 1, (0, 0)))\<rparr>"

definition start_state :: DRC_STATE where
  "start_state = \<lparr>tick = 0, log = []\<rparr>"

text \<open>
  Two traces of different nets that cross at \<open>(5, 5)\<close>: one from \<open>(0, 0)\<close> to
  \<open>(10, 10)\<close>, the other from \<open>(0, 10)\<close> to \<open>(10, 0)\<close>.  Their shapes (handles 1
  and 2) overlap, so \<open>Collide\<close> answers with distance 0.  \<open>Intersect\<close> answers for the
  two segments with their crossing point, and with nothing for any other pair, in
  particular for a segment with itself.
\<close>
definition cross_track :: BOARD_ITEM where
  "cross_track =
     blank_item\<lparr>addr := 1, GetNetCode := 1, GetStart := (0, 0), GetEnd := (10, 10),
                GetEffectiveShape := (\<lambda>l. 1)\<rparr>"

definition cross_other :: BOARD_ITEM where
  "cross_other =
     blank_item\<lparr>addr := 2, GetNetCode := 2, GetStart := (0, 10), GetEnd := (10, 0),
                GetEffectiveShape := (\<lambda>l. 2)\<rparr>"

definition cross_env :: DRC_ENV where
  "cross_env =
     blank_env\<lparr>Collide := (\<lambda>a b c. if a = 1 \<and> b = Some 2 then Some (0, (5, 5)) else None),
               Intersect := (\<lambda>s t. if s = ((0, 0), (10, 10)) \<and> t = ((0, 10), (10, 0))
                                    then Some (5, 5) else None)\<rparr>"

text \<open>A board whose maximum clearance is 0, with the two crossing traces on it.\<close>
definition no_clearance_env :: DRC_ENV where
  "no_clearance_env =
     cross_env\<lparr>m_board := blank_board\<lparr>m_DRCMaxClearance := 0, Tracks := [cross_track, cross_other],
                 CopperItemRTree := (\<lambda>i l. [cross_track, cross_other])\<rparr>\<rparr>"

text \<open>
  Boxes as pairs of their lower and upper corner, with the overlap test and the
  inflation one expects of them.
\<close>
definition box_intersects :: "BOX2I \<Rightarrow> BOX2I \<Rightarrow> bool" where
  "box_intersects a b =
     (fst (fst a) \<le> fst (snd b) \<and> fst (fst b) \<le> fst (snd a)
      \<and> snd (fst a) \<le> snd (snd b) \<and> snd (fst b) \<le> snd (snd a))"

definition box_inflate :: "BOX2I \<Rightarrow> int \<Rightarrow> BOX2I" where
  "box_inflate a c = ((fst (fst a) - c, snd (fst a) - c), (fst (snd a) + c, snd (snd a) + c))"

text \<open>
  A distance primitive given by a table from (test segment, reference segment) to
  their distance; a pair that is not in the table is farther apart than the bound.
\<close>
definition table_distance ::
  "((SEG \<times> SEG) \<times> int) list \<Rightarrow> SEG \<Rightarrow> SEG \<Rightarrow> int \<Rightarrow> int \<times> VECTOR2I" where
  "table_distance table testSegment refSegment max_cl =
     (case map_of table (testSegment, refSegment) of
        Some d \<Rightarrow> (d, fst testSegment)
      | None \<Rightarrow> (max_cl + 1, fst testSegment))"

definition blank_zone :: BOARD_ITEM where
  "blank_zone = blank_item\<lparr>Type := PCB_ZONE_T\<rparr>"

text \<open>
  Two zones of different nets on the front layer, required clearance 5.  Zone A fills
  the square from \<open>(0, 0)\<close> to \<open>(10, 10)\<close>.  Zone B fills an L: the polygon \<open>(5, 20)\<close>,
  \<open>(5, 30)\<close>, \<open>(30, 30)\<close>, \<open>(30, 0)\<close>, \<open>(12, 0)\<close>, \<open>(12, 20)\<close>.  The bounding boxes
  overlap; the edge of B from \<open>(12, 0)\<close> to \<open>(12, 20)\<close> runs at distance 2 from the
  right edge of A.  The table gives the distance (rounded down) of every edge of B
  to every edge of A.
\<close>
definition gap_zoneA :: BOARD_ITEM where
  "gap_zoneA =
     blank_zone\<lparr>addr := 10, GetNetCode := 1,
       FilledPolySegments :=
         (\<lambda>l. [((0, 0), (10, 0)), ((10, 0), (10, 10)), ((10, 10), (0, 10)), ((0, 10), (0, 0))]),
       FillBBox := (\<lambda>l. ((0, 0), (10, 10)))\<rparr>"

definition gap_zoneB :: BOARD_ITEM where
  "gap_zoneB =
     blank_zone\<lparr>addr := 11, GetNetCode := 2,
       FilledPolySegments :=
         (\<lambda>l. [((5, 20), (5, 30)), ((5, 30), (30, 30)), ((30, 30), (30, 0)),
                ((30, 0), (12, 0)), ((12, 0), (12, 20)), ((12, 20), (5, 20))]),
       FillBBox := (\<lambda>l. ((5, 0), (30, 30)))\<rparr>"

definition gap_distances :: "((SEG \<times> SEG) \<times> int) list" where
  "gap_distances =
    [((((5, 20), (5, 30)), ((0, 0), (10, 0))), 20),
     ((((5, 30), (30, 30)), ((0, 0), (10, 0))), 30),
     ((((5, 20), (12, 20)), ((0, 0), (10, 0))), 20),
     ((((12, 0), (30, 0)), ((0, 0), (10, 0))), 2),
     ((((12, 0), (12, 20)), ((0, 0), (10, 0))), 2),
     ((((30, 30), (30, 0)), ((0, 0), (10, 0))), 20),
     ((((5, 20), (5, 30)), ((0, 10), (10, 10))), 10),
     ((((5, 30), (30, 30)), ((0, 10), (10, 10))), 20),
     ((((5, 20), (12, 20)), ((0, 10), (10, 10))), 10),
     ((((12, 0), (30, 0)), ((0, 10), (10, 10))), 10),
     ((((12, 0), (12, 20)), ((0, 10), (10, 10))), 2),
     ((((30, 30), (30, 0)), ((0, 10), (10, 10))), 20),
     ((((5, 20), (5, 30)), ((0, 10), (0, 0))), 11),
     ((((5, 30), (30, 30)), ((0, 10), (0, 0))), 20),
     ((((5, 20), (12, 20)), ((0, 10), (0, 0))), 11),
     ((((12, 0), (30, 0)), ((0, 10), (0, 0))), 12),
     ((((12, 0), (12, 20)), ((0, 10), (0, 0))), 12),
     ((((30, 30), (30, 0)), ((0, 10), (0, 0))), 30),
     ((((5, 20), (5, 30)), ((10, 0), (10, 10))), 11),
     ((((5, 30), (30, 30)), ((10, 0), (10, 10))), 20),
     ((((5, 20), (12, 20)), ((10, 0), (10, 10))), 10),
     ((((12, 0), (30, 0)), ((10, 0), (10, 10))), 2),
     ((((12, 0), (12, 20)), ((10, 0), (10, 10))), 2),
     ((((30, 30), (30, 0)), ((10, 0), (10, 10))), 20)]"

definition gap_env :: DRC_ENV where
  "gap_env =
     blank_env\<lparr>m_board := blank_board\<lparr>m_DRCCopperZones := [gap_zoneA, gap_zoneB]\<rparr>,
               EvalRules := (\<lambda>k a b l. rule10\<lparr>GetValue_Min := 5\<rparr>),
               Intersects := box_intersects,
               GetClearanceBetweenSegments := table_distance gap_distances\<rparr>"

text \<open>
  Two zones of different nets on the front layer, required clearance 5, whose fills
  overlap: zone A fills the square from \<open>(0, 0)\<close> to \<open>(10, 10)\<close>, zone B the rectangle
  from \<open>(8, 3)\<close> to \<open>(20, 7)\<close>; they share the rectangle from \<open>(8, 3)\<close> to
  \<open>(10, 7)\<close>.  The table gives the distance (rounded down) of every edge of B to
  every edge of A: the bottom and the top edge of B cross the right edge of A, the
  left edge of B lies inside A, and the bottom edge of B runs 3 above the bottom edge
  of A.
\<close>
definition overlap_zoneA :: BOARD_ITEM where
  "overlap_zoneA =
     blank_zone\<lparr>addr := 10, GetNetCode := 1,
       FilledPolySegments :=
         (\<lambda>l. [((0, 0), (10, 0)), ((10, 0), (10, 10)), ((10, 10), (0, 10)), ((0, 10), (0, 0))]),
       FillBBox := (\<lambda>l. ((0, 0), (10, 10)))\<rparr>"

definition overlap_zoneB :: BOARD_ITEM where
  "overlap_zoneB =
     blank_zone\<lparr>addr := 11, GetNetCode := 2,
       FilledPolySegments :=
         (\<lambda>l. [((8, 3), (20, 3)), ((20, 3), (20, 7)), ((20, 7), (8, 7)), ((8, 7), (8, 3))]),
       FillBBox := (\<lambda>l. ((8, 3), (20, 7)))\<rparr>"

definition overlap_distances :: "((SEG \<times> SEG) \<times> int) list" where
  "overlap_distances =
    [((((8, 3), (20, 3)), ((0, 0), (10, 0))), 3),
     ((((8, 7), (20, 7)), ((0, 0), (10, 0))), 7),
     ((((8, 7), (8, 3)), ((0, 0), (10, 0))), 3),
     ((((20, 3), (20, 7)), ((0, 0), (10, 0))), 10),
     ((((8, 3), (20, 3)), ((0, 10), (10, 10))), 7),
     ((((8, 7), (20, 7)), ((0, 10), (10, 10))), 3),
     ((((8, 7), (8, 3)), ((0, 10), (10, 10))), 3),
     ((((20, 3), (20, 7)), ((0, 10), (10, 10))), 10),
     ((((8, 3), (20, 3)), ((0, 10), (0, 0))), 8),
     ((((8, 7), (20, 7)), ((0, 10), (0, 0))), 8),
     ((((8, 7), (8, 3)), ((0, 10), (0, 0))), 8),
     ((((20, 3), (20, 7)), ((0, 10), (0, 0))), 20),
     ((((8, 3), (20, 3)), ((10, 0), (10, 10))), 0),
     ((((8, 7), (20, 7)), ((10, 0), (10, 10))), 0),
     ((((8, 7), (8, 3)), ((10, 0), (10, 10))), 2),
     ((((20, 3), (20, 7)), ((10, 0), (10, 10))), 10)]"

definition overlap_env :: DRC_ENV where
  "overlap_env =
     blank_env\<lparr>m_board := blank_board\<lparr>m_DRCCopperZones := [overlap_zoneA, overlap_zoneB]\<rparr>,
               EvalRules := (\<lambda>k a b l. rule10\<lparr>GetValue_Min := 5\<rparr>),
               Intersects := box_intersects,
               GetClearanceBetweenSegments := table_distance overlap_distances\<rparr>"

text \<open>
  The orders \<^verbatim>\<open>std::sort\<close> may leave the segments of a fill in: the segments, each
  turned so that \<open>A.x \<le> B.x\<close>, in every order that is sorted on \<open>A.x\<close>.
\<close>
primrec insert_all :: "'a \<Rightarrow> 'a list \<Rightarrow> 'a list list" where
  "insert_all x [] = [[x]]"
| "insert_all x (y # ys) = (x # y # ys) # map ((#) y) (insert_all x ys)"

primrec permutations_of :: "'a list \<Rightarrow> 'a list list" where
  "permutations_of [] = [[]]"
| "permutations_of (x # xs) = concat (map (insert_all x) (permutations_of xs))"

definition sorted_orders :: "SEG list \<Rightarrow> SEG list list" where
  "sorted_orders segs =
     filter (\<lambda>l. sorted (map (\<lambda>seg. fst (fst seg)) l)) (permutations_of (map orient segs))"

text \<open>
  Two pads with the number 1 in the same footprint, on the nets 1 and 2.  Two pads
  are the same logical pad when they are "from the same footprint with the same pad
  number".
\<close>
definition twin_pad_A :: BOARD_ITEM where
  "twin_pad_A =
     blank_item\<lparr>addr := 1, Type := PCB_PAD_T, GetParent := 100, GetNetCode := 1,
                GetNetname := ''A'', GetNumber := ''1'', GetEffectiveShape := (\<lambda>l. 1)\<rparr>"

definition twin_pad_B :: BOARD_ITEM where
  "twin_pad_B =
     blank_item\<lparr>addr := 2, Type := PCB_PAD_T, GetParent := 100, GetNetCode := 2,
                GetNetname := ''B'', GetNumber := ''1'', GetEffectiveShape := (\<lambda>l. 2),
                GetPosition := (3, 0)\<rparr>"

definition twin_env :: DRC_ENV where
  "twin_env =
     blank_env\<lparr>SameLogicalPadAs :=
                 (\<lambda>a b. GetParent a = GetParent b \<and> GetNumber a = GetNumber b)\<rparr>"

text \<open>The same engine once the limit of shorting-items errors is exceeded.\<close>
definition twin_limit_env :: DRC_ENV where
  "twin_limit_env = twin_env\<lparr>IsErrorLimitExceeded := (\<lambda>k t. k = DRCE_SHORTING_ITEMS)\<rparr>"

section \<open>Reading the log\<close>

text \<open>
  The collision tests of a log that serve a given constraint: calls of \<open>Collide\<close> and
  queries of a zone index.
\<close>
definition isTestFor :: "DRC_CONSTRAINT_T \<Rightarrow> EVENT \<Rightarrow> bool" where
  "isTestFor k ev =
     (case ev of
        EvCollide k' a b c \<Rightarrow> k' = k
      | EvZoneQuery k' tree sh c \<Rightarrow> k' = k
      | _ \<Rightarrow> False)"

definition testsFor :: "DRC_CONSTRAINT_T \<Rightarrow> DRC_STATE \<Rightarrow> EVENT list" where
  "testsFor k s = filter (isTestFor k) (log s)"

text \<open>
  An engine whose rules are all switched off: every constraint has the severity
  \<^verbatim>\<open>RPT_SEVERITY_IGNORE\<close>.  A via and a pad with a hole, of different nets, whose
  shapes would collide, and a zone whose index reports a collision for every query.
\<close>
definition hole_via :: BOARD_ITEM where
  "hole_via =
     blank_item\<lparr>addr := 1, Type := PCB_VIA_T, GetNetCode := 1, HasHole := True, GetDrill := 3,
                GetEffectiveShape := (\<lambda>l. 1), GetEffectiveHoleShape := 11,
                GetStart := (0, 0), GetEnd := (0, 0)\<rparr>"

definition hole_pad :: BOARD_ITEM where
  "hole_pad =
     blank_item\<lparr>addr := 2, Type := PCB_PAD_T, GetParent := 100, GetNetCode := 2,
                HasHole := True, GetDrillSize_x := 3, GetAttribute := PTH,
                GetEffectiveShape := (\<lambda>l. 2), GetEffectiveHoleShape := 12\<rparr>"

definition hole_pad2 :: BOARD_ITEM where
  "hole_pad2 = hole_pad\<lparr>addr := 3, GetParent := 101, GetNetCode := 3, GetNumber := ''2'',
                GetEffectiveShape := (\<lambda>l. 3), GetEffectiveHoleShape := 13\<rparr>"


definition knockout_text :: BOARD_ITEM where
  "knockout_text =
     blank_item\<lparr>addr := 4, Type := PCB_TEXT_T, IsKnockout := True,
                GetEffectiveShape := (\<lambda>l. 4)\<rparr>"

definition net7_zone :: BOARD_ITEM where
  "net7_zone = blank_zone\<lparr>addr := 10, GetNetCode := 7, GetNet := 7\<rparr>"

definition net8_zone :: BOARD_ITEM where
  "net8_zone = blank_zone\<lparr>addr := 11, GetNetCode := 8, GetNet := 8\<rparr>"

definition ignore_env :: DRC_ENV where
  "ignore_env =
     blank_env\<lparr>m_board := blank_board\<lparr>m_DRCCopperZones := [net7_zone, net8_zone],
                                        CopperZoneRTreeCache := (\<lambda>z. Some z)\<rparr>,
               EvalRules := (\<lambda>k a b l. rule10\<lparr>GetSeverity := RPT_SEVERITY_IGNORE\<rparr>),
               Collide := (\<lambda>a b c. Some (0, (0, 0))),
               ZoneQueryColliding := (\<lambda>t b s l c. Some (0, (0, 0)))\<rparr>"







text \<open>
  Two items carry the same non-zero net code.  (Only connected items, that is tracks,
  vias, pads and zones, carry a net code.)
\<close>
definition sameNonzeroNet :: "BOARD_ITEM \<Rightarrow> BOARD_ITEM \<Rightarrow> bool" where
  "sameNonzeroNet a b =
     (IsConnected a \<and> IsConnected b \<and> GetNetCode a = GetNetCode b \<and> GetNetCode a \<noteq> 0)"

text \<open>A clearance or hole clearance violation between two items of the same non-zero net.\<close>
definition sameNetViolation :: "VIOLATION \<Rightarrow> bool" where
  "sameNetViolation v =
     ((GetErrorCode v = DRCE_CLEARANCE \<or> GetErrorCode v = DRCE_HOLE_CLEARANCE)
      \<and> sameNonzeroNet (fst (GetItems v)) (snd (GetItems v)))"

definition sameNetViolations :: "DRC_STATE \<Rightarrow> VIOLATION list" where
  "sameNetViolations s = filter sameNetViolation (violations s)"

text \<open>
  A board with three traces on the front layer whose shapes all overlap: two of net
  1, one of net 2, and a zone of net 1 whose index reports a collision for every
  query.
\<close>
definition net1_track :: BOARD_ITEM where
  "net1_track = blank_item\<lparr>addr := 1, GetNetCode := 1, GetEffectiveShape := (\<lambda>l. 1)\<rparr>"

definition net1_track' :: BOARD_ITEM where
  "net1_track' = blank_item\<lparr>addr := 2, GetNetCode := 1, GetEffectiveShape := (\<lambda>l. 2)\<rparr>"

definition net2_track :: BOARD_ITEM where
  "net2_track = blank_item\<lparr>addr := 3, GetNetCode := 2, GetEffectiveShape := (\<lambda>l. 3)\<rparr>"

definition net1_zone :: BOARD_ITEM where
  "net1_zone = blank_zone\<lparr>addr := 10, GetNetCode := 1\<rparr>"

definition nets_env :: DRC_ENV where
  "nets_env =
     blank_env\<lparr>m_board :=
       blank_board\<lparr>Tracks := [net1_track, net1_track', net2_track],
                   m_DRCCopperZones := [net1_zone],
                   CopperItemRTree :=
                     (\<lambda>i l. filter (\<lambda>other. addr other \<noteq> addr i)
                               [net1_track, net1_track', net2_track]),
                   CopperZoneRTreeCache := (\<lambda>z. Some z)\<rparr>,
       Collide := (\<lambda>a b c. Some (0, (0, 0))),
       ZoneQueryColliding := (\<lambda>t b s l c. Some (0, (0, 0)))\<rparr>"

subsection \<open>Counting the clearance violations of a pair\<close>

text \<open>
  The clearance violations of a report between a given unordered pair of items
  (given by the ordered pair of their addresses) on a given layer.
\<close>
definition isClearanceAt :: "(nat \<times> nat) \<times> PCB_LAYER_ID \<Rightarrow> VIOLATION \<Rightarrow> bool" where
  "isClearanceAt K v =
     (GetErrorCode v = DRCE_CLEARANCE
      \<and> (pairKey (fst (GetItems v)) (snd (GetItems v)), MarkerLayer v) = K)"

definition clearanceCount :: "(nat \<times> nat) \<times> PCB_LAYER_ID \<Rightarrow> DRC_STATE \<Rightarrow> nat" where
  "clearanceCount K s = length (filter (isClearanceAt K) (violations s))"

text \<open>
  The pads and the graphic items of a board, and the boards the count below is about:
  the tracks, pads, graphic items and zones are objects of their own (no two at one
  address), and the copper item index holds no zone (zones have an index of their
  own) and, at the address of a track, only a track.
\<close>
definition allPads :: "BOARD \<Rightarrow> BOARD_ITEM list" where
  "allPads b = concat (map Pads (Footprints b))"

definition allGraphics :: "BOARD \<Rightarrow> BOARD_ITEM list" where
  "allGraphics b = Drawings b @ concat (map GraphicalItems (Footprints b))"

definition wf_board :: "BOARD \<Rightarrow> bool" where
  "wf_board b =
     (distinct (map addr (Tracks b @ allPads b @ allGraphics b @ m_DRCCopperZones b))
       \<and> (\<forall>item layer. \<forall>other \<in> set (CopperItemRTree b item layer).
            addr other \<notin> addr ` set (m_DRCCopperZones b)
            \<and> (addr other \<in> addr ` set (Tracks b) \<longrightarrow> is_PCB_TRACK other)))"

text \<open>What one call of a test may add for the pair and the layer \<open>K\<close>.\<close>
definition hit ::
  "(nat \<times> nat) \<times> PCB_LAYER_ID \<Rightarrow> BOARD_ITEM \<Rightarrow> BOARD_ITEM \<Rightarrow> PCB_LAYER_ID \<Rightarrow> nat" where
  "hit K a b layer = (if K = (pairKey a b, layer) then 1 else 0)"

text \<open>One of the two addresses of \<open>K\<close> is in the set \<open>A\<close>.\<close>
definition touches :: "nat set \<Rightarrow> (nat \<times> nat) \<times> PCB_LAYER_ID \<Rightarrow> bool" where
  "touches A K = (fst (fst K) \<in> A \<or> snd (fst K) \<in> A)"

text \<open>
  What the tests of the items of a list against the zones of a list may add for \<open>K\<close>:
  one violation if \<open>K\<close> is the pair of one of the items and one of the zones, on one
  of the layers \<open>L\<close> allows for the item.
\<close>
definition zoneHits ::
  "(nat \<times> nat) \<times> PCB_LAYER_ID \<Rightarrow> BOARD_ITEM list \<Rightarrow> (BOARD_ITEM \<Rightarrow> PCB_LAYER_ID set)
     \<Rightarrow> BOARD_ITEM list \<Rightarrow> nat" where
  "zoneHits K items L zones =
     (if \<exists>item \<in> set items. \<exists>layer \<in> L item. \<exists>zone \<in> set zones. K = (pairKey item zone, layer)
      then 1 else 0)"

text \<open>
  The invariant of the track phase for a key \<open>K\<close> and a count \<open>c\<close>: nothing was added
  to the \<open>c\<close> violations yet, or one was and \<^verbatim>\<open>checkedPairs\<close> holds the pair with
  the layer.
\<close>
definition trackMemo :: "(nat \<times> nat) \<times> PCB_LAYER_ID \<Rightarrow> nat \<Rightarrow> track_phase \<Rightarrow> bool" where
  "trackMemo K c st =
     (clearanceCount K (snd (snd st)) \<le> c
      \<or> (clearanceCount K (snd (snd st)) \<le> Suc c
          \<and> (\<exists>it. fst st (fst K) = Some it \<and> snd K \<in> layers it)))"

text \<open>The same for the pad phase, whose \<^verbatim>\<open>checkedPairs\<close> holds pairs without layers.\<close>
definition padMemo :: "(nat \<times> nat) \<times> PCB_LAYER_ID \<Rightarrow> nat \<Rightarrow> pad_phase \<Rightarrow> bool" where
  "padMemo K c st =
     (clearanceCount K (snd st) \<le> c
      \<or> (clearanceCount K (snd st) \<le> Suc c \<and> fst st (fst K) \<noteq> None))"

text \<open>A task without its clearance, and the key of the violation it may report.\<close>
definition taskId :: "zone_task \<Rightarrow> nat \<times> nat \<times> PCB_LAYER_ID" where
  "taskId task = (fst task, fst (snd task), snd (snd (snd task)))"

definition idKey ::
  "BOARD_ITEM list \<Rightarrow> nat \<times> nat \<times> PCB_LAYER_ID \<Rightarrow> (nat \<times> nat) \<times> PCB_LAYER_ID" where
  "idKey zones i = (pairKey (zones ! fst i) (zones ! fst (snd i)), snd (snd i))"

text \<open>The tasks of a pair of indices \<open>ia < ia2\<close> into a list of \<open>n\<close> zones, on the layers \<open>L\<close>.\<close>
definition zonePairs ::
  "nat set \<Rightarrow> nat \<Rightarrow> PCB_LAYER_ID set \<Rightarrow> (nat \<times> nat \<times> PCB_LAYER_ID) set" where
  "zonePairs A n L =
     {i. fst i \<in> A \<and> fst i < fst (snd i) \<and> fst (snd i) < n \<and> snd (snd i) \<in> L}"

subsection \<open>The hole tests of the track test\<close>

text \<open>A violation of a kind was reported between a state and a later one.\<close>
definition newViolations :: "DRC_STATE \<Rightarrow> DRC_STATE \<Rightarrow> VIOLATION list" where
  "newViolations s s' = drop (length (violations s)) (violations s')"

definition reported :: "DRC_ERROR \<Rightarrow> DRC_STATE \<Rightarrow> DRC_STATE \<Rightarrow> bool" where
  "reported k s s' = (k \<in> GetErrorCode ` set (newViolations s s'))"




subsection \<open>The order of the sweep over two zone outlines\<close>

text \<open>
  The segment pairs \<open>(refSegment, testSegment)\<close> in the order in which the sweep of
  \<^verbatim>\<open>checkZones\<close> measures them as long as it goes on: for every reference segment
  the test segments up to the first one that starts right of its end.
\<close>
definition measured_pairs :: "SEG list \<Rightarrow> SEG list \<Rightarrow> (SEG \<times> SEG) list" where
  "measured_pairs refSegments testSegments =
     concat (map (\<lambda>refSegment.
                    map (Pair refSegment)
                      (takeWhile (\<lambda>testSegment. \<not> fst (snd refSegment) < fst (fst testSegment))
                         testSegments))
               refSegments)"

text \<open>
  The pairs the sweep gets to: all of them, but only the first one once the flag
  \<^verbatim>\<open>cancelled\<close> is set.
\<close>
definition swept_pairs :: "bool \<Rightarrow> SEG list \<Rightarrow> SEG list \<Rightarrow> (SEG \<times> SEG) list" where
  "swept_pairs cancelledFlag refSegments testSegments =
     (if cancelledFlag then take 1 (measured_pairs refSegments testSegments)
      else measured_pairs refSegments testSegments)"

text \<open>A pair whose distance is below the clearance, for a violation kind that is tested.\<close>
definition below_clearance :: "DRC_ENV \<Rightarrow> bool \<Rightarrow> bool \<Rightarrow> int \<Rightarrow> SEG \<times> SEG \<Rightarrow> bool" where
  "below_clearance e testClearance testIntersects clr p =
     (fst (GetClearanceBetweenSegments e (snd p) (fst p) clr) < clr
      \<and> (fst (GetClearanceBetweenSegments e (snd p) (fst p) clr) = 0 \<and> testIntersects
           \<or> testClearance))"

text \<open>The violation that is reported for two zones from the measurement of a pair.\<close>
definition zone_violation ::
  "DRC_ENV \<Rightarrow> bool \<Rightarrow> BOARD_ITEM \<Rightarrow> BOARD_ITEM \<Rightarrow> int \<Rightarrow> PCB_LAYER_ID \<Rightarrow> SEG \<times> SEG \<Rightarrow> VIOLATION"
  where
  "zone_violation e testIntersects zoneA zoneB clr layer p =
     (let d = fst (GetClearanceBetweenSegments e (snd p) (fst p) clr);
          pt = snd (GetClearanceBetweenSegments e (snd p) (fst p) clr);
          constraint = EvalRules e CLEARANCE_CONSTRAINT zoneA zoneB layer
      in \<lparr>GetErrorCode = (if d \<le> 0 \<and> testIntersects then DRCE_ZONES_INTERSECT
                          else DRCE_CLEARANCE),
          GetItems = (zoneA, zoneB),
          GetViolatingRule = GetParentRule constraint,
          GetErrorMessage = (if d \<le> 0 \<and> testIntersects then NoMsg
                             else ClearanceMsg (GetName constraint) clr (max d 0)),
          MarkerPos = pt, MarkerLayer = layer\<rparr>)"

section \<open>Properties\<close>

lemmas fixture_defs = blank_item_def blank_board_def rule10_def blank_env_def start_state_def

lemmas engine_defs =
  errorLimitExceeded_def cancelled_def progress_def emit_def phase_def reportViolation_def
  collide_def zoneQuery_def violations_def

subsection \<open>Run on a board without clearance constraints\<close>

text \<open>
  Claim C10.  If the board's maximum clearance \<^verbatim>\<open>m_DRCMaxClearance\<close> is not
  positive, \<^verbatim>\<open>Run\<close> returns true, reads no engine flag and adds nothing to the log
  but the auxiliary message: no collision test is made and no violation is reported.
\<close>
theorem Run_without_clearance_constraints:
  "m_DRCMaxClearance (m_board e) \<le> 0 \<Longrightarrow>
     fst (Run e s) = True
     \<and> tick (snd (Run e s)) = tick s
     \<and> log (snd (Run e s)) = log s @ [EvAux ''No Clearance constraints found. Tests not run.'']
     \<and> violations (snd (Run e s)) = violations s"
  by (simp add: Run_def emit_def violations_def)

theorem Run_without_clearance_constraints_witness:
  "m_DRCMaxClearance (m_board no_clearance_env) \<le> 0
   \<and> fst (Run no_clearance_env start_state) = True
   \<and> tick (snd (Run no_clearance_env start_state)) = 0
   \<and> log (snd (Run no_clearance_env start_state)) =
       [EvAux ''No Clearance constraints found. Tests not run.'']
   \<and> violations (snd (Run no_clearance_env start_state)) = []"
  using Run_without_clearance_constraints [of no_clearance_env start_state]
  by (simp add: no_clearance_env_def cross_env_def fixture_defs violations_def)

subsection \<open>Crossing tracks\<close>

text \<open>
  The special processing for two traces compares the segment of the first track with
  a second segment that is built from the first track again: whether a crossing is
  reported does not depend on where the other track runs.
\<close>
lemma trackClearance_crossing_iff:
  assumes "Type track = PCB_TRACE_T" and "Type other = PCB_TRACE_T"
    and "GetSeverity constraint \<noteq> RPT_SEVERITY_IGNORE" and "clearance > 0"
  shows "fst (trackClearance e track trackShape layer other constraint clearance s) = Some False
           \<and> \<not> fst (snd (trackClearance e track trackShape layer other constraint clearance s))
         \<longleftrightarrow> Intersect e (GetStart track, GetEnd track) (GetStart track, GetEnd track) \<noteq> None"
  using assms by (auto simp: trackClearance_def Let_def split: option.splits prod.splits)

text \<open>
  Claim C1.  Two traces of different nets whose segments cross at \<open>(5, 5)\<close>:
  \<^verbatim>\<open>testTrackAgainstItem\<close> reports one violation, of kind \<^verbatim>\<open>DRCE_CLEARANCE\<close>, and
  no \<^verbatim>\<open>DRCE_TRACKS_CROSSING\<close>.
\<close>
theorem crossing_tracks_reported_as_clearance:
  "Type cross_track = PCB_TRACE_T \<and> Type cross_other = PCB_TRACE_T
   \<and> GetNetCode cross_track \<noteq> GetNetCode cross_other
   \<and> Intersect cross_env (GetStart cross_track, GetEnd cross_track)
        (GetStart cross_other, GetEnd cross_other) = Some (5, 5)
   \<and> map GetErrorCode
        (violations (snd (testTrackAgainstItem cross_env cross_track 1 F_Cu cross_other
                            start_state))) = [DRCE_CLEARANCE]"
  by (simp add: testTrackAgainstItem_def trackClearance_def cross_env_def cross_track_def
      cross_other_def fixture_defs engine_defs F_Cu_def)

subsection \<open>The sweep over the zone outlines\<close>

lemma copper_layer_ids:
  "[F_Cu ..< Suc B_Cu] =
     [0, 1, 2, 3, 4, 5, 6, 7, 8, 9, 10, 11, 12, 13, 14, 15, 16, 17, 18, 19, 20, 21, 22, 23,
      24, 25, 26, 27, 28, 29, 30, 31]"
  by (simp add: F_Cu_def B_Cu_def upt_conv_Cons)

text \<open>
  The early exit of the inner loop looks at the \<open>x\<close> coordinates only: a reference
  segment that ends left of a test segment is never measured against it, whatever the
  clearance and whatever the distance primitive would answer.
\<close>
lemma testSegmentsLoop_break:
  "fst (snd refSegment) < fst (fst testSegment) \<Longrightarrow>
     testSegmentsLoop e testClearance testIntersects cancelledFlag zoneA zoneB
       zone2zoneClearance layer refSegment (testSegment # rest) = None"
  by simp

lemma gap_poly_segs:
  "poly_segs gap_zoneA F_Cu =
     [((0, 0), (10, 0)), ((0, 10), (10, 10)), ((0, 10), (0, 0)), ((10, 0), (10, 10))]"
  "poly_segs gap_zoneB F_Cu =
     [((5, 20), (5, 30)), ((5, 30), (30, 30)), ((5, 20), (12, 20)), ((12, 0), (30, 0)),
      ((12, 0), (12, 20)), ((30, 30), (30, 0))]"
  by (simp_all add: poly_segs_def gap_zoneA_def gap_zoneB_def blank_zone_def blank_item_def
      orient_def F_Cu_def)

lemma gap_env_simps:
  "m_DRCCopperZones (m_board gap_env) = [gap_zoneA, gap_zoneB]"
  "IsLayerEnabled (m_board gap_env) = (\<lambda>l. l = F_Cu \<or> l = B_Cu)"
  "Intersects gap_env = box_intersects"
  "reportProgress gap_env = (\<lambda>t. True)"
  "IsCancelled gap_env = (\<lambda>t. False)"
  "IsErrorLimitExceeded gap_env = (\<lambda>k t. False)"
  "EvalRules gap_env = (\<lambda>k a b l. rule10\<lparr>GetValue_Min := 5\<rparr>)"
  "GetClearanceBetweenSegments gap_env = table_distance gap_distances"
  by (simp_all add: gap_env_def blank_env_def blank_board_def)

lemma gap_checkZones: "checkZones gap_env True True False 0 (Suc 0) 5 F_Cu = invalid_result"
  by (simp add: checkZones_def gap_poly_segs gap_env_simps table_distance_def gap_distances_def)

lemma gap_tasks:
  "zoneLayersLoop gap_env [F_Cu ..< Suc B_Cu] s = (False, [(0, 1, 5, F_Cu)], s\<lparr>tick := tick s + 4\<rparr>)"
  by (subst copper_layer_ids)
     (simp add: progress_def gap_env_simps F_Cu_def B_Cu_def gap_zoneA_def gap_zoneB_def
        blank_zone_def blank_item_def box_intersects_def rule10_def)

text \<open>
  Claim C3.  Both segment lists are sorted by \<open>A.x\<close>, and the edge of zone B from
  \<open>(12, 0)\<close> to \<open>(12, 20)\<close> is at distance 2 from the edge of zone A from \<open>(10, 0)\<close>
  to \<open>(10, 10)\<close>, below the clearance 5; the sweep returns the invalid result and the
  zone test reports nothing.
\<close>
theorem sweep_misses_conflict_right_of_reference:
  "sorted (map (\<lambda>seg. fst (fst seg)) (poly_segs gap_zoneA F_Cu))
   \<and> sorted (map (\<lambda>seg. fst (fst seg)) (poly_segs gap_zoneB F_Cu))
   \<and> ((10, 0), (10, 10)) \<in> set (poly_segs gap_zoneA F_Cu)
   \<and> ((12, 0), (12, 20)) \<in> set (poly_segs gap_zoneB F_Cu)
   \<and> fst (GetClearanceBetweenSegments gap_env ((12, 0), (12, 20)) ((10, 0), (10, 10)) 5) = 2
   \<and> checkZones gap_env True True False 0 1 5 F_Cu = invalid_result
   \<and> violations (testZonesToZones gap_env start_state) = []"
  by (simp add: gap_poly_segs gap_checkZones testZonesToZones_def gap_tasks gap_env_simps
      errorLimitExceeded_def cancelled_def reportZoneResult_def invalid_result_def
      violations_def start_state_def table_distance_def gap_distances_def del: upt_Suc)

subsection \<open>Overlapping zones\<close>

lemma overlap_poly_segs:
  "poly_segs overlap_zoneA F_Cu =
     [((0, 0), (10, 0)), ((0, 10), (10, 10)), ((0, 10), (0, 0)), ((10, 0), (10, 10))]"
  "poly_segs overlap_zoneB F_Cu =
     [((8, 3), (20, 3)), ((8, 7), (20, 7)), ((8, 7), (8, 3)), ((20, 3), (20, 7))]"
  by (simp_all add: poly_segs_def overlap_zoneA_def overlap_zoneB_def blank_zone_def
      blank_item_def orient_def F_Cu_def)

lemma overlap_env_simps:
  "m_DRCCopperZones (m_board overlap_env) = [overlap_zoneA, overlap_zoneB]"
  "IsLayerEnabled (m_board overlap_env) = (\<lambda>l. l = F_Cu \<or> l = B_Cu)"
  "Intersects overlap_env = box_intersects"
  "reportProgress overlap_env = (\<lambda>t. True)"
  "IsCancelled overlap_env = (\<lambda>t. False)"
  "IsErrorLimitExceeded overlap_env = (\<lambda>k t. False)"
  "EvalRules overlap_env = (\<lambda>k a b l. rule10\<lparr>GetValue_Min := 5\<rparr>)"
  "GetClearanceBetweenSegments overlap_env = table_distance overlap_distances"
  by (simp_all add: overlap_env_def blank_env_def blank_board_def)

lemma overlap_checkZones:
  "checkZones overlap_env True True False 0 (Suc 0) 5 F_Cu = (0, 1, (8, 3), 3, 5, F_Cu)"
  by (simp add: checkZones_def overlap_poly_segs overlap_env_simps table_distance_def
      overlap_distances_def)

lemma overlap_tasks:
  "zoneLayersLoop overlap_env [F_Cu ..< Suc B_Cu] s =
     (False, [(0, 1, 5, F_Cu)], s\<lparr>tick := tick s + 4\<rparr>)"
  by (subst copper_layer_ids)
     (simp add: progress_def overlap_env_simps F_Cu_def B_Cu_def overlap_zoneA_def
        overlap_zoneB_def blank_zone_def blank_item_def box_intersects_def rule10_def)

lemma overlap_sorted_orders:
  "sorted_orders (FilledPolySegments overlap_zoneA F_Cu) =
     [[((0, 0), (10, 0)), ((0, 10), (10, 10)), ((0, 10), (0, 0)), ((10, 0), (10, 10))],
      [((0, 10), (10, 10)), ((0, 0), (10, 0)), ((0, 10), (0, 0)), ((10, 0), (10, 10))],
      [((0, 10), (10, 10)), ((0, 10), (0, 0)), ((0, 0), (10, 0)), ((10, 0), (10, 10))],
      [((0, 0), (10, 0)), ((0, 10), (0, 0)), ((0, 10), (10, 10)), ((10, 0), (10, 10))],
      [((0, 10), (0, 0)), ((0, 0), (10, 0)), ((0, 10), (10, 10)), ((10, 0), (10, 10))],
      [((0, 10), (0, 0)), ((0, 10), (10, 10)), ((0, 0), (10, 0)), ((10, 0), (10, 10))]]"
  by (simp add: sorted_orders_def overlap_zoneA_def blank_zone_def blank_item_def orient_def)

lemma overlap_sorted_orders_B:
  "sorted_orders (FilledPolySegments overlap_zoneB F_Cu) =
     [[((8, 3), (20, 3)), ((8, 7), (20, 7)), ((8, 7), (8, 3)), ((20, 3), (20, 7))],
      [((8, 7), (20, 7)), ((8, 3), (20, 3)), ((8, 7), (8, 3)), ((20, 3), (20, 7))],
      [((8, 7), (20, 7)), ((8, 7), (8, 3)), ((8, 3), (20, 3)), ((20, 3), (20, 7))],
      [((8, 3), (20, 3)), ((8, 7), (8, 3)), ((8, 7), (20, 7)), ((20, 3), (20, 7))],
      [((8, 7), (8, 3)), ((8, 3), (20, 3)), ((8, 7), (20, 7)), ((20, 3), (20, 7))],
      [((8, 7), (8, 3)), ((8, 7), (20, 7)), ((8, 3), (20, 3)), ((20, 3), (20, 7))]]"
  by (simp add: sorted_orders_def overlap_zoneB_def blank_zone_def blank_item_def orient_def)

text \<open>
  Claim C7, as stated, fails.  The two zones are on the same layer, have different
  nets, are no rule areas, and their fills overlap: the bottom edge of B crosses the
  right edge of A (distance 0).  The zone test reports one violation, of kind
  \<^verbatim>\<open>DRCE_CLEARANCE\<close>, and no \<^verbatim>\<open>DRCE_ZONES_INTERSECT\<close>: the sweep returns with the
  bottom edges, which it measures first and finds 3 apart.  In whichever order the
  sort leaves the segments that start at the same \<open>x\<close>, what is reported is one
  \<^verbatim>\<open>DRCE_CLEARANCE\<close>.
\<close>
theorem overlapping_zones_reported_as_clearance:
  "IsOnLayer overlap_zoneA F_Cu \<and> IsOnLayer overlap_zoneB F_Cu
   \<and> GetNetCode overlap_zoneA \<noteq> GetNetCode overlap_zoneB
   \<and> \<not> GetIsRuleArea overlap_zoneA \<and> \<not> GetIsRuleArea overlap_zoneB
   \<and> fst (GetClearanceBetweenSegments overlap_env ((8, 3), (20, 3)) ((10, 0), (10, 10)) 5) = 0
   \<and> map GetErrorCode (violations (testZonesToZones overlap_env start_state)) = [DRCE_CLEARANCE]
   \<and> poly_segs overlap_zoneA F_Cu \<in> set (sorted_orders (FilledPolySegments overlap_zoneA F_Cu))
   \<and> poly_segs overlap_zoneB F_Cu \<in> set (sorted_orders (FilledPolySegments overlap_zoneB F_Cu))
   \<and> list_all (\<lambda>refSegments.
        list_all (\<lambda>testSegments.
            map GetErrorCode
              (violations (reportZoneResult overlap_env True True
                             (refSegmentsLoop overlap_env True True False 0 1 5 F_Cu
                                refSegments testSegments) start_state))
              = [DRCE_CLEARANCE])
          (sorted_orders (FilledPolySegments overlap_zoneB F_Cu)))
       (sorted_orders (FilledPolySegments overlap_zoneA F_Cu))"
proof -
  have "map GetErrorCode (violations (testZonesToZones overlap_env start_state)) = [DRCE_CLEARANCE]"
    by (simp add: testZonesToZones_def overlap_tasks overlap_checkZones overlap_env_simps
        errorLimitExceeded_def cancelled_def reportZoneResult_def invalid_zone_def
        reportViolation_def emit_def violations_def start_state_def del: upt_Suc)
  moreover have "list_all (\<lambda>refSegments.
        list_all (\<lambda>testSegments.
            map GetErrorCode
              (violations (reportZoneResult overlap_env True True
                             (refSegmentsLoop overlap_env True True False 0 1 5 F_Cu
                                refSegments testSegments) start_state))
              = [DRCE_CLEARANCE])
          (sorted_orders (FilledPolySegments overlap_zoneB F_Cu)))
       (sorted_orders (FilledPolySegments overlap_zoneA F_Cu))"
    by (simp add: overlap_sorted_orders overlap_sorted_orders_B overlap_env_simps
        table_distance_def overlap_distances_def reportZoneResult_def invalid_zone_def
        reportViolation_def emit_def violations_def start_state_def)
  moreover have "fst (GetClearanceBetweenSegments overlap_env ((8, 3), (20, 3))
                        ((10, 0), (10, 10)) 5) = 0"
    by (simp add: overlap_env_simps table_distance_def overlap_distances_def)
  moreover have "poly_segs overlap_zoneA F_Cu
                   \<in> set (sorted_orders (FilledPolySegments overlap_zoneA F_Cu))
                 \<and> poly_segs overlap_zoneB F_Cu
                   \<in> set (sorted_orders (FilledPolySegments overlap_zoneB F_Cu))"
    by (simp add: overlap_poly_segs overlap_sorted_orders overlap_sorted_orders_B)
  moreover have "IsOnLayer overlap_zoneA F_Cu \<and> IsOnLayer overlap_zoneB F_Cu
      \<and> GetNetCode overlap_zoneA \<noteq> GetNetCode overlap_zoneB
      \<and> \<not> GetIsRuleArea overlap_zoneA \<and> \<not> GetIsRuleArea overlap_zoneB"
    by (simp add: overlap_zoneA_def overlap_zoneB_def blank_zone_def blank_item_def)
  ultimately show ?thesis
    by blast
qed

text \<open>What the sweep returns: the invalid result, or the measurement of a segment pair.\<close>
lemma testSegmentsLoop_Some:
  "testSegmentsLoop e testClearance testIntersects c zoneA zoneB clr layer refSegment tests = Some r
   \<Longrightarrow> r = invalid_result
       \<or> (\<exists>testSegment \<in> set tests.
             fst (GetClearanceBetweenSegments e testSegment refSegment clr) < clr
             \<and> (fst (GetClearanceBetweenSegments e testSegment refSegment clr) = 0 \<and> testIntersects
                  \<or> testClearance)
             \<and> r = (zoneA, zoneB, snd (GetClearanceBetweenSegments e testSegment refSegment clr),
                     fst (GetClearanceBetweenSegments e testSegment refSegment clr), clr, layer))"
proof (induction tests)
  case Nil
  then show ?case by simp
next
  case (Cons t tests)
  then show ?case
    by (cases "GetClearanceBetweenSegments e t refSegment clr")
       (auto simp: Let_def split: if_splits)
qed

lemma refSegmentsLoop_result:
  "r = refSegmentsLoop e testClearance testIntersects c zoneA zoneB clr layer refs tests
   \<Longrightarrow> r = invalid_result
       \<or> (\<exists>refSegment \<in> set refs. \<exists>testSegment \<in> set tests.
             fst (GetClearanceBetweenSegments e testSegment refSegment clr) < clr
             \<and> (fst (GetClearanceBetweenSegments e testSegment refSegment clr) = 0 \<and> testIntersects
                  \<or> testClearance)
             \<and> r = (zoneA, zoneB, snd (GetClearanceBetweenSegments e testSegment refSegment clr),
                     fst (GetClearanceBetweenSegments e testSegment refSegment clr), clr, layer))"
proof (induction refs)
  case Nil
  then show ?case by simp
next
  case (Cons ref refs)
  show ?case
  proof (cases "testSegmentsLoop e testClearance testIntersects c zoneA zoneB clr layer ref tests")
    case None
    with Cons show ?thesis by auto
  next
    case (Some r')
    with Cons.prems have "r = r'" by simp
    with testSegmentsLoop_Some [OF Some] show ?thesis by auto
  qed
qed

lemma violations_reportViolation [simp]:
  "violations (reportViolation v s) = violations s @ [v]"
  by (simp add: violations_def reportViolation_def emit_def)

lemma violations_start_state [simp]: "violations start_state = []"
  by (simp add: violations_def start_state_def)

lemma find_append_case:
  "find P (xs @ ys) = (case find P xs of None \<Rightarrow> find P ys | Some x \<Rightarrow> Some x)"
  by (induction xs) simp_all

text \<open>What a sweep answers with when it returns with a pair.\<close>
lemma testSegmentsLoop_sweep:
  "testSegmentsLoop e testClearance testIntersects False zoneA zoneB clr layer refSegment tests =
     map_option
       (\<lambda>p. (zoneA, zoneB, snd (GetClearanceBetweenSegments e (snd p) (fst p) clr),
             fst (GetClearanceBetweenSegments e (snd p) (fst p) clr), clr, layer))
       (find (below_clearance e testClearance testIntersects clr)
          (map (Pair refSegment)
             (takeWhile (\<lambda>testSegment. \<not> fst (snd refSegment) < fst (fst testSegment)) tests)))"
  by (induction tests) (auto simp: Let_def below_clearance_def case_prod_beta)

lemma refSegmentsLoop_sweep:
  "refSegmentsLoop e testClearance testIntersects False zoneA zoneB clr layer refs tests =
     (case find (below_clearance e testClearance testIntersects clr) (measured_pairs refs tests) of
        None \<Rightarrow> invalid_result
      | Some p \<Rightarrow>
          (zoneA, zoneB, snd (GetClearanceBetweenSegments e (snd p) (fst p) clr),
           fst (GetClearanceBetweenSegments e (snd p) (fst p) clr), clr, layer))"
proof (induction refs)
  case Nil
  then show ?case by (simp add: measured_pairs_def)
next
  case (Cons ref refs)
  have m: "measured_pairs (ref # refs) tests =
             map (Pair ref) (takeWhile (\<lambda>testSegment. \<not> fst (snd ref) < fst (fst testSegment)) tests)
             @ measured_pairs refs tests"
    by (simp add: measured_pairs_def)
  show ?case
    unfolding m find_append_case
    using Cons by (simp add: testSegmentsLoop_sweep split: option.splits)
qed

lemma testSegmentsLoop_cancelled:
  "testSegmentsLoop e testClearance testIntersects True zoneA zoneB clr layer refSegment tests =
     (case takeWhile (\<lambda>testSegment. \<not> fst (snd refSegment) < fst (fst testSegment)) tests of
        [] \<Rightarrow> None
      | testSegment # rest \<Rightarrow>
          Some (if below_clearance e testClearance testIntersects clr (refSegment, testSegment)
                then (zoneA, zoneB,
                      snd (GetClearanceBetweenSegments e testSegment refSegment clr),
                      fst (GetClearanceBetweenSegments e testSegment refSegment clr), clr, layer)
                else invalid_result))"
  by (cases tests) (auto simp: Let_def below_clearance_def case_prod_beta)

lemma refSegmentsLoop_cancelled:
  "refSegmentsLoop e testClearance testIntersects True zoneA zoneB clr layer refs tests =
     (case find (below_clearance e testClearance testIntersects clr)
             (take 1 (measured_pairs refs tests)) of
        None \<Rightarrow> invalid_result
      | Some p \<Rightarrow>
          (zoneA, zoneB, snd (GetClearanceBetweenSegments e (snd p) (fst p) clr),
           fst (GetClearanceBetweenSegments e (snd p) (fst p) clr), clr, layer))"
proof (induction refs)
  case Nil
  then show ?case by (simp add: measured_pairs_def)
next
  case (Cons ref refs)
  let ?ts = "takeWhile (\<lambda>testSegment. \<not> fst (snd ref) < fst (fst testSegment)) tests"
  have m: "measured_pairs (ref # refs) tests = map (Pair ref) ?ts @ measured_pairs refs tests"
    by (simp add: measured_pairs_def)
  show ?case
  proof (cases ?ts)
    case Nil
    with Cons show ?thesis
      by (simp add: m testSegmentsLoop_cancelled)
  next
    case (Cons t ts)
    then show ?thesis
      by (simp add: m testSegmentsLoop_cancelled)
  qed
qed

lemma checkZones_sweep:
  "checkZones e testClearance testIntersects c zoneA zoneB clr layer =
     (case find (below_clearance e testClearance testIntersects clr)
             (swept_pairs c (poly_segs (m_DRCCopperZones (m_board e) ! zoneA) layer)
                (poly_segs (m_DRCCopperZones (m_board e) ! zoneB) layer)) of
        None \<Rightarrow> invalid_result
      | Some p \<Rightarrow>
          (int zoneA, int zoneB, snd (GetClearanceBetweenSegments e (snd p) (fst p) clr),
           fst (GetClearanceBetweenSegments e (snd p) (fst p) clr), clr, layer))"
  by (cases c) (simp_all add: checkZones_def swept_pairs_def refSegmentsLoop_sweep
      refSegmentsLoop_cancelled)

text \<open>
  Claim C7, amended.  For a zone pair that was submitted on a layer, the zone test
  reports, when it collects the result of the sweep, exactly one violation if the
  sweep got to a segment pair whose distance is below the clearance (for a violation
  kind that is tested), and none otherwise.
  The violation is that of the first such pair in the order of the sweep: a
  \<^verbatim>\<open>DRCE_ZONES_INTERSECT\<close> when the distance of that pair is 0 (or less) and zone
  intersections are tested, a \<^verbatim>\<open>DRCE_CLEARANCE\<close> otherwise, whether or not the
  fills overlap elsewhere.
\<close>
theorem zone_pair_reported_at_first_pair_below_clearance:
  "violations (reportZoneResult e testClearance testIntersects
                 (checkZones e testClearance testIntersects c zoneA zoneB clr layer) s)
     = violations s @
         (case find (below_clearance e testClearance testIntersects clr)
                 (swept_pairs c (poly_segs (m_DRCCopperZones (m_board e) ! zoneA) layer)
                    (poly_segs (m_DRCCopperZones (m_board e) ! zoneB) layer)) of
            None \<Rightarrow> []
          | Some p \<Rightarrow>
              [zone_violation e testIntersects (m_DRCCopperZones (m_board e) ! zoneA)
                 (m_DRCCopperZones (m_board e) ! zoneB) clr layer p])"
proof (cases "find (below_clearance e testClearance testIntersects clr)
                (swept_pairs c (poly_segs (m_DRCCopperZones (m_board e) ! zoneA) layer)
                   (poly_segs (m_DRCCopperZones (m_board e) ! zoneB) layer))")
  case None
  then show ?thesis
    by (simp add: checkZones_sweep reportZoneResult_def invalid_result_def)
next
  case (Some p)
  then have "below_clearance e testClearance testIntersects clr p"
    by (auto simp: find_Some_iff)
  then show ?thesis
    by (auto simp: checkZones_sweep Some reportZoneResult_def invalid_zone_def Let_def
        zone_violation_def below_clearance_def)
qed

theorem zone_pair_reported_at_first_pair_below_clearance_witness:
  "measured_pairs (poly_segs (m_DRCCopperZones (m_board overlap_env) ! 0) F_Cu)
     (poly_segs (m_DRCCopperZones (m_board overlap_env) ! 1) F_Cu)
     = [(((0, 0), (10, 0)), ((8, 3), (20, 3))), (((0, 0), (10, 0)), ((8, 7), (20, 7))),
        (((0, 0), (10, 0)), ((8, 7), (8, 3))),
        (((0, 10), (10, 10)), ((8, 3), (20, 3))), (((0, 10), (10, 10)), ((8, 7), (20, 7))),
        (((0, 10), (10, 10)), ((8, 7), (8, 3))),
        (((10, 0), (10, 10)), ((8, 3), (20, 3))), (((10, 0), (10, 10)), ((8, 7), (20, 7))),
        (((10, 0), (10, 10)), ((8, 7), (8, 3)))]
   \<and> map (\<lambda>v. (GetErrorCode v, MarkerPos v))
       (violations (reportZoneResult overlap_env True True
                      (checkZones overlap_env True True False 0 1 5 F_Cu) start_state))
       = [(DRCE_CLEARANCE, (8, 3))]
   \<and> map (\<lambda>v. (GetErrorCode v, MarkerPos v))
       (violations (reportZoneResult overlap_env False True
                      (checkZones overlap_env False True False 0 1 5 F_Cu) start_state))
       = [(DRCE_ZONES_INTERSECT, (8, 3))]
   \<and> violations (reportZoneResult overlap_env True True
                    (checkZones overlap_env True True True 0 1 5 F_Cu) start_state)
       = [zone_violation overlap_env True overlap_zoneA overlap_zoneB 5 F_Cu
            (((0, 0), (10, 0)), ((8, 3), (20, 3)))]
   \<and> violations (reportZoneResult overlap_env False True
                    (checkZones overlap_env False True True 0 1 5 F_Cu) start_state)
       = []"
  using zone_pair_reported_at_first_pair_below_clearance
          [of overlap_env True True False 0 1 5 F_Cu start_state]
    zone_pair_reported_at_first_pair_below_clearance
          [of overlap_env False True False 0 1 5 F_Cu start_state]
    zone_pair_reported_at_first_pair_below_clearance
          [of overlap_env True True True 0 1 5 F_Cu start_state]
    zone_pair_reported_at_first_pair_below_clearance
          [of overlap_env False True True 0 1 5 F_Cu start_state]
  by (simp add: overlap_env_simps overlap_poly_segs measured_pairs_def swept_pairs_def
      below_clearance_def zone_violation_def table_distance_def overlap_distances_def)

subsection \<open>Pads that are the same logical pad\<close>

text \<open>
  Claim C9.  For two pads that are the same logical pad, \<^verbatim>\<open>testPadAgainstItem\<close>
  never reports a clearance violation: it reports either nothing or one
  \<^verbatim>\<open>DRCE_SHORTING_ITEMS\<close> violation for the pair, and it reports the latter exactly
  when both net codes are non-zero and differ, as long as the engine's limit of
  shorting-items errors is not exceeded (the limit every report is subject to).
\<close>
theorem same_logical_pads_report_only_shorting:
  "Type other = PCB_PAD_T \<Longrightarrow> SameLogicalPadAs e pad other \<Longrightarrow>
     violations (snd (testPadAgainstItem e pad padShape aLayer other s)) =
       violations s @
         (if GetNetCode pad \<noteq> 0 \<and> GetNetCode other \<noteq> 0 \<and> GetNetCode pad \<noteq> GetNetCode other
             \<and> \<not> IsErrorLimitExceeded e DRCE_SHORTING_ITEMS (Suc (tick s))
          then [\<lparr>GetErrorCode = DRCE_SHORTING_ITEMS, GetItems = (pad, other),
                 GetViolatingRule = None,
                 GetErrorMessage = NetsMsg (GetNetname pad) (GetNetname other),
                 MarkerPos = GetPosition other, MarkerLayer = aLayer\<rparr>]
          else [])"
  by (simp add: testPadAgainstItem_def Let_def errorLimitExceeded_def cancelled_def
      violations_def reportViolation_def emit_def)

theorem same_logical_pads_report_only_shorting_witness:
  "Type twin_pad_B = PCB_PAD_T \<and> SameLogicalPadAs twin_env twin_pad_A twin_pad_B
   \<and> GetParent twin_pad_A = GetParent twin_pad_B
   \<and> GetNetCode twin_pad_A = 1 \<and> GetNetCode twin_pad_B = 2
   \<and> map GetErrorCode
        (violations (snd (testPadAgainstItem twin_env twin_pad_A 1 F_Cu twin_pad_B start_state)))
       = [DRCE_SHORTING_ITEMS]
   \<and> SameLogicalPadAs twin_limit_env twin_pad_A twin_pad_B
   \<and> violations (snd (testPadAgainstItem twin_limit_env twin_pad_A 1 F_Cu twin_pad_B start_state))
       = []"
  using same_logical_pads_report_only_shorting
          [of twin_pad_B twin_env twin_pad_A 1 F_Cu start_state]
    same_logical_pads_report_only_shorting
          [of twin_pad_B twin_limit_env twin_pad_A 1 F_Cu start_state]
  by (simp add: twin_limit_env_def twin_env_def twin_pad_A_def twin_pad_B_def blank_env_def
      blank_item_def)

subsection \<open>Rules with severity ignore\<close>

lemma testsFor_simps [simp]:
  "testsFor k (s\<lparr>tick := t\<rparr>) = testsFor k s"
  "testsFor k (reportViolation v s) = testsFor k s"
  "testsFor k (emit (EvCollide k' a b c) s) = testsFor k s @ (if k' = k then [EvCollide k' a b c] else [])"
  "testsFor k (emit (EvZoneQuery k' tree sh c) s) =
     testsFor k s @ (if k' = k then [EvZoneQuery k' tree sh c] else [])"
  "testsFor k (emit (EvAux msg) s) = testsFor k s"
  "testsFor k (emit (EvPhase msg) s) = testsFor k s"
  by (simp_all add: testsFor_def isTestFor_def reportViolation_def emit_def)

lemmas read_defs = errorLimitExceeded_def cancelled_def progress_def collide_def zoneQuery_def

text \<open>The hole tests add no clearance test, the clearance tests add no hole test.\<close>
lemma trackHoles_testsFor_other:
  "k \<noteq> HOLE_CLEARANCE_CONSTRAINT \<Longrightarrow> testsFor k (snd (trackHoles e layer triples s)) = testsFor k s"
proof (induction triples arbitrary: s)
  case Nil
  then show ?case by simp
next
  case (Cons x triples)
  obtain a b a_shape where x: "x = (a, b, a_shape)" by (cases x)
  from Cons show ?case
    by (simp add: x read_defs Let_def split: prod.splits option.splits)
qed


lemma trackClearance_ignore:
  "GetSeverity constraint = RPT_SEVERITY_IGNORE \<or> clearance \<le> 0 \<Longrightarrow>
     trackClearance e track trackShape layer other constraint clearance s = (None, False, s)"
  by (auto simp: trackClearance_def)

lemma padHoleTest_testsFor_other:
  "k \<noteq> HOLE_CLEARANCE_CONSTRAINT \<Longrightarrow>
     testsFor k (snd (padHoleTest e constraint clearance pad other solid hole aLayer s))
       = testsFor k s"
  by (simp add: padHoleTest_def read_defs split: prod.splits option.splits)

lemma padHoles_testsFor_other:
  "k \<noteq> HOLE_CLEARANCE_CONSTRAINT \<Longrightarrow>
     testsFor k (padHoles e pad padShape aLayer other testHoles s) = testsFor k s"
  by (simp add: padHoles_def Let_def case_prod_beta padHoleTest_testsFor_other)

lemma padClearance_testsFor_other:
  "k \<noteq> CLEARANCE_CONSTRAINT \<Longrightarrow>
     testsFor k (snd (padClearance e pad padShape aLayer other testClearance testHoles s))
       = testsFor k s"
  by (simp add: padClearance_def read_defs Let_def split: prod.splits option.splits)

lemma padClearance_ignore:
  "GetSeverity (EvalRules e CLEARANCE_CONSTRAINT pad other aLayer) = RPT_SEVERITY_IGNORE
     \<or> GetValue_Min (EvalRules e CLEARANCE_CONSTRAINT pad other aLayer) \<le> 0 \<Longrightarrow>
     padClearance e pad padShape aLayer other testClearance testHoles s = (testHoles, s)"
  by (auto simp: padClearance_def Let_def)

lemma padHoles_ignore:
  "GetSeverity (EvalRules e HOLE_CLEARANCE_CONSTRAINT pad other aLayer) = RPT_SEVERITY_IGNORE
     \<or> GetValue_Min (EvalRules e HOLE_CLEARANCE_CONSTRAINT pad other aLayer) \<le> 0 \<Longrightarrow>
     padHoles e pad padShape aLayer other testHoles s = s"
  by (auto simp: padHoles_def padHoleTest_def Let_def)

lemma zoneClearance_testsFor_other:
  "k \<noteq> CLEARANCE_CONSTRAINT \<Longrightarrow>
     testsFor k (zoneClearance e aItem aZone aLayer zoneTree constraint clearance s) = testsFor k s"
  by (simp add: zoneClearance_def read_defs Let_def split: prod.splits option.splits)

lemma zoneHoles_testsFor_other:
  "k \<noteq> HOLE_CLEARANCE_CONSTRAINT \<Longrightarrow>
     testsFor k (zoneHoles e aItem aZone aLayer zoneTree testHoles s) = testsFor k s"
  by (simp add: zoneHoles_def read_defs Let_def split: prod.splits option.splits)

lemma zoneClearance_ignore:
  "GetSeverity constraint = RPT_SEVERITY_IGNORE \<or> clearance \<le> 0 \<Longrightarrow>
     zoneClearance e aItem aZone aLayer zoneTree constraint clearance s = s"
  by (auto simp: zoneClearance_def)

lemma zoneHoles_ignore:
  "GetSeverity (EvalRules e HOLE_CLEARANCE_CONSTRAINT aItem aZone aLayer) = RPT_SEVERITY_IGNORE
     \<or> GetValue_Min (EvalRules e HOLE_CLEARANCE_CONSTRAINT aItem aZone aLayer) \<le> 0 \<Longrightarrow>
     zoneHoles e aItem aZone aLayer zoneTree testHoles s = s"
  by (auto simp: zoneHoles_def Let_def split: option.splits)

lemma testTrackAgainstItem_clearance_ignore:
  assumes "GetSeverity (EvalRules e CLEARANCE_CONSTRAINT track other layer) = RPT_SEVERITY_IGNORE"
  shows "testsFor CLEARANCE_CONSTRAINT (snd (testTrackAgainstItem e track trackShape layer other s))
           = testsFor CLEARANCE_CONSTRAINT s"
proof -
  have a: "trackClearance e track trackShape layer other default_constraint (- 1) s'
             = (None, False, s')" for s'
    by (simp add: trackClearance_ignore)
  have b: "trackClearance e track trackShape layer other
             (EvalRules e CLEARANCE_CONSTRAINT track other layer)
             (GetValue_Min (EvalRules e CLEARANCE_CONSTRAINT track other layer)) s'
             = (None, False, s')" for s'
    by (simp add: trackClearance_ignore assms)
  show ?thesis
    by (simp add: testTrackAgainstItem_def Let_def case_prod_beta a b errorLimitExceeded_def
        trackHoles_testsFor_other del: trackHoles.simps split: bool.splits)
qed

lemma testPadAgainstItem_clearance_ignore:
  assumes "GetSeverity (EvalRules e CLEARANCE_CONSTRAINT pad other aLayer) = RPT_SEVERITY_IGNORE"
  shows "testsFor CLEARANCE_CONSTRAINT (snd (testPadAgainstItem e pad padShape aLayer other s))
           = testsFor CLEARANCE_CONSTRAINT s"
  by (simp add: testPadAgainstItem_def Let_def case_prod_beta errorLimitExceeded_def
      cancelled_def padClearance_ignore assms padHoles_testsFor_other)

lemma testPadAgainstItem_holes_skipped:
  assumes "GetSeverity (EvalRules e HOLE_CLEARANCE_CONSTRAINT pad other aLayer) = RPT_SEVERITY_IGNORE
     \<or> GetValue_Min (EvalRules e HOLE_CLEARANCE_CONSTRAINT pad other aLayer) \<le> 0"
  shows "testsFor HOLE_CLEARANCE_CONSTRAINT (snd (testPadAgainstItem e pad padShape aLayer other s))
           = testsFor HOLE_CLEARANCE_CONSTRAINT s"
  by (simp add: testPadAgainstItem_def Let_def case_prod_beta errorLimitExceeded_def
      cancelled_def padHoles_ignore assms padClearance_testsFor_other)

lemma testItemAgainstZone_clearance_ignore:
  assumes "GetSeverity (EvalRules e CLEARANCE_CONSTRAINT aItem aZone aLayer) = RPT_SEVERITY_IGNORE"
  shows "testsFor CLEARANCE_CONSTRAINT (testItemAgainstZone e aItem aZone aLayer s)
           = testsFor CLEARANCE_CONSTRAINT s"
proof -
  have a: "zoneClearance e aItem aZone aLayer zoneTree default_constraint (- 1) s' = s'"
    for s' zoneTree
    by (simp add: zoneClearance_ignore)
  have b: "zoneClearance e aItem aZone aLayer zoneTree
             (EvalRules e CLEARANCE_CONSTRAINT aItem aZone aLayer)
             (GetValue_Min (EvalRules e CLEARANCE_CONSTRAINT aItem aZone aLayer)) s' = s'"
    for s' zoneTree
    by (simp add: zoneClearance_ignore assms)
  show ?thesis
    by (simp add: testItemAgainstZone_def Let_def case_prod_beta a b errorLimitExceeded_def
        zoneHoles_testsFor_other split: option.splits)
qed

lemma testItemAgainstZone_holes_skipped:
  assumes "GetSeverity (EvalRules e HOLE_CLEARANCE_CONSTRAINT aItem aZone aLayer) = RPT_SEVERITY_IGNORE
     \<or> GetValue_Min (EvalRules e HOLE_CLEARANCE_CONSTRAINT aItem aZone aLayer) \<le> 0"
  shows "testsFor HOLE_CLEARANCE_CONSTRAINT (testItemAgainstZone e aItem aZone aLayer s)
           = testsFor HOLE_CLEARANCE_CONSTRAINT s"
  by (simp add: testItemAgainstZone_def Let_def case_prod_beta errorLimitExceeded_def
      zoneHoles_ignore assms zoneClearance_testsFor_other split: option.splits)

lemma testKnockoutTextAgainstZone_ignore:
  assumes "GetSeverity (EvalRules e CLEARANCE_CONSTRAINT aText aZone (GetLayer aText))
             = RPT_SEVERITY_IGNORE"
  shows "log (snd (testKnockoutTextAgainstZone e aText aInheritedNet aZone s)) = log s"
  by (simp add: testKnockoutTextAgainstZone_def Let_def case_prod_beta errorLimitExceeded_def
      assms split: option.splits)

lemma zoneBLoop_ignore:
  "GetSeverity (EvalRules e CLEARANCE_CONSTRAINT (m_DRCCopperZones (m_board e) ! ia)
                  (m_DRCCopperZones (m_board e) ! ia2) layer) = RPT_SEVERITY_IGNORE \<Longrightarrow>
     zoneBLoop e layer ia (ia2 # rest) = zoneBLoop e layer ia rest"
  by (simp add: Let_def)

lemma trackHoles_ignore:
  "GetSeverity (EvalRules e HOLE_CLEARANCE_CONSTRAINT b a layer) = RPT_SEVERITY_IGNORE \<Longrightarrow>
     trackHoles e layer ((a, b, a_shape) # rest) s = trackHoles e layer rest s"
  by (simp add: Let_def)

text \<open>
  Claim C8.  When the rule evaluator returns the severity \<^verbatim>\<open>RPT_SEVERITY_IGNORE\<close>
  for a pair, a layer and a constraint, the collision test that serves this
  constraint is not made: the track, pad and zone tests add no collision test for the
  constraint to the log, the hole loop of the track test skips the orientation, the
  knockout-text test leaves the log as it is, and the zone loop submits no task for
  the zone pair.  (All functions are total: none of them fails.)
\<close>
theorem ignored_rule_skips_collision_test:
  "(GetSeverity (EvalRules e CLEARANCE_CONSTRAINT track other layer) = RPT_SEVERITY_IGNORE \<longrightarrow>
      testsFor CLEARANCE_CONSTRAINT (snd (testTrackAgainstItem e track trackShape layer other s))
        = testsFor CLEARANCE_CONSTRAINT s)
   \<and> (GetSeverity (EvalRules e HOLE_CLEARANCE_CONSTRAINT b a layer) = RPT_SEVERITY_IGNORE \<longrightarrow>
      trackHoles e layer ((a, b, a_shape) # rest) s = trackHoles e layer rest s)
   \<and> (GetSeverity (EvalRules e CLEARANCE_CONSTRAINT pad other layer) = RPT_SEVERITY_IGNORE \<longrightarrow>
      testsFor CLEARANCE_CONSTRAINT (snd (testPadAgainstItem e pad padShape layer other s))
        = testsFor CLEARANCE_CONSTRAINT s)
   \<and> (GetSeverity (EvalRules e HOLE_CLEARANCE_CONSTRAINT pad other layer) = RPT_SEVERITY_IGNORE \<longrightarrow>
      testsFor HOLE_CLEARANCE_CONSTRAINT (snd (testPadAgainstItem e pad padShape layer other s))
        = testsFor HOLE_CLEARANCE_CONSTRAINT s)
   \<and> (GetSeverity (EvalRules e CLEARANCE_CONSTRAINT aItem aZone layer) = RPT_SEVERITY_IGNORE \<longrightarrow>
      testsFor CLEARANCE_CONSTRAINT (testItemAgainstZone e aItem aZone layer s)
        = testsFor CLEARANCE_CONSTRAINT s)
   \<and> (GetSeverity (EvalRules e HOLE_CLEARANCE_CONSTRAINT aItem aZone layer) = RPT_SEVERITY_IGNORE \<longrightarrow>
      testsFor HOLE_CLEARANCE_CONSTRAINT (testItemAgainstZone e aItem aZone layer s)
        = testsFor HOLE_CLEARANCE_CONSTRAINT s)
   \<and> (GetSeverity (EvalRules e CLEARANCE_CONSTRAINT aText aZone (GetLayer aText))
         = RPT_SEVERITY_IGNORE \<longrightarrow>
      log (snd (testKnockoutTextAgainstZone e aText aInheritedNet aZone s)) = log s)
   \<and> (GetSeverity (EvalRules e CLEARANCE_CONSTRAINT (m_DRCCopperZones (m_board e) ! zoneA)
                      (m_DRCCopperZones (m_board e) ! zoneB) layer) = RPT_SEVERITY_IGNORE \<longrightarrow>
      zoneBLoop e layer zoneA (zoneB # others) = zoneBLoop e layer zoneA others)"
  using testTrackAgainstItem_clearance_ignore [of e track other layer trackShape s]
    trackHoles_ignore [of e b a layer a_shape rest s]
    testPadAgainstItem_clearance_ignore [of e pad other layer padShape s]
    testPadAgainstItem_holes_skipped [of e pad other layer padShape s]
    testItemAgainstZone_clearance_ignore [of e aItem aZone layer s]
    testItemAgainstZone_holes_skipped [of e aItem aZone layer s]
    testKnockoutTextAgainstZone_ignore [of e aText aZone aInheritedNet s]
    zoneBLoop_ignore [of e zoneA zoneB layer others]
  by blast

theorem ignored_rule_skips_collision_test_witness:
  "GetSeverity (EvalRules ignore_env CLEARANCE_CONSTRAINT hole_via hole_pad2 F_Cu)
     = RPT_SEVERITY_IGNORE
   \<and> GetSeverity (EvalRules ignore_env HOLE_CLEARANCE_CONSTRAINT hole_pad hole_via F_Cu)
     = RPT_SEVERITY_IGNORE
   \<and> GetSeverity (EvalRules ignore_env CLEARANCE_CONSTRAINT hole_pad hole_pad2 F_Cu)
     = RPT_SEVERITY_IGNORE
   \<and> GetSeverity (EvalRules ignore_env HOLE_CLEARANCE_CONSTRAINT hole_pad hole_pad2 F_Cu)
     = RPT_SEVERITY_IGNORE
   \<and> GetSeverity (EvalRules ignore_env CLEARANCE_CONSTRAINT hole_pad net7_zone F_Cu)
     = RPT_SEVERITY_IGNORE
   \<and> GetSeverity (EvalRules ignore_env HOLE_CLEARANCE_CONSTRAINT hole_pad net7_zone F_Cu)
     = RPT_SEVERITY_IGNORE
   \<and> GetSeverity (EvalRules ignore_env CLEARANCE_CONSTRAINT knockout_text net7_zone
                    (GetLayer knockout_text)) = RPT_SEVERITY_IGNORE
   \<and> GetSeverity (EvalRules ignore_env CLEARANCE_CONSTRAINT
                    (m_DRCCopperZones (m_board ignore_env) ! 0)
                    (m_DRCCopperZones (m_board ignore_env) ! 1) F_Cu) = RPT_SEVERITY_IGNORE
   \<and> testsFor CLEARANCE_CONSTRAINT (snd (testTrackAgainstItem ignore_env hole_via 1 F_Cu hole_pad2
                                           start_state)) = []
   \<and> trackHoles ignore_env F_Cu [(hole_via, hole_pad, 1)] start_state = (True, start_state)
   \<and> testsFor CLEARANCE_CONSTRAINT (snd (testPadAgainstItem ignore_env hole_pad 2 F_Cu hole_pad2
                                           start_state)) = []
   \<and> testsFor HOLE_CLEARANCE_CONSTRAINT (snd (testPadAgainstItem ignore_env hole_pad 2 F_Cu
                                                hole_pad2 start_state)) = []
   \<and> testsFor CLEARANCE_CONSTRAINT (testItemAgainstZone ignore_env hole_pad net7_zone F_Cu
                                      start_state) = []
   \<and> testsFor HOLE_CLEARANCE_CONSTRAINT (testItemAgainstZone ignore_env hole_pad net7_zone F_Cu
                                           start_state) = []
   \<and> log (snd (testKnockoutTextAgainstZone ignore_env knockout_text None net7_zone start_state))
       = []
   \<and> zoneBLoop ignore_env F_Cu 0 [1] = []"
  using ignored_rule_skips_collision_test
          [where e = ignore_env and track = hole_via and other = hole_pad2 and layer = F_Cu
             and trackShape = 1 and s = start_state and a = hole_via and b = hole_pad
             and a_shape = 1 and rest = "[]" and pad = hole_pad
             and padShape = 2 and aItem = hole_pad and aZone = net7_zone
             and aText = knockout_text and aInheritedNet = None and zoneA = 0 and zoneB = 1
             and others = "[]"]
  by (simp add: ignore_env_def blank_env_def rule10_def testsFor_def start_state_def)

subsection \<open>Hole tests at clearance 0\<close>









subsection \<open>The memo of checked pairs\<close>






lemma trackFilter_accepts_iff:
  "fst (trackFilter e track layer other (checkedPairs, freePads, s)) \<longleftrightarrow>
     \<not> (IsConnected other \<and> GetNetCode other = GetNetCode track)
     \<and> (case checkedPairs (pairKey track other) of
          None \<Rightarrow> True
        | Some it \<Rightarrow> layer \<notin> layers it \<and> (has_error it \<longrightarrow> GetReportAllTrackErrors e))"
  by (auto simp: trackFilter_def split: option.splits)



subsection \<open>Items of the same net\<close>

lemma sameNonzeroNet_commute: "sameNonzeroNet a b = sameNonzeroNet b a"
  by (auto simp: sameNonzeroNet_def)

lemma sameNetViolations_simps [simp]:
  "sameNetViolations (s\<lparr>tick := t\<rparr>) = sameNetViolations s"
  "sameNetViolations (reportViolation v s) =
     sameNetViolations s @ (if sameNetViolation v then [v] else [])"
  "sameNetViolations (emit (EvCollide k a b c) s) = sameNetViolations s"
  "sameNetViolations (emit (EvZoneQuery k tree sh c) s) = sameNetViolations s"
  "sameNetViolations (emit (EvAux msg) s) = sameNetViolations s"
  "sameNetViolations (emit (EvPhase msg) s) = sameNetViolations s"
  by (simp_all add: sameNetViolations_def violations_def reportViolation_def emit_def)

lemma trackHoles_sameNet:
  "\<forall>(a, b, a_shape) \<in> set triples. \<not> sameNonzeroNet a b \<Longrightarrow>
     sameNetViolations (snd (trackHoles e layer triples s)) = sameNetViolations s"
proof (induction triples arbitrary: s)
  case Nil
  then show ?case by simp
next
  case (Cons x triples)
  obtain a b a_shape where x: "x = (a, b, a_shape)" by (cases x)
  from Cons show ?case
    by (simp add: x read_defs Let_def sameNetViolation_def split: prod.splits option.splits)
qed

lemma trackClearance_sameNet:
  "\<not> sameNonzeroNet track other \<Longrightarrow>
     sameNetViolations (snd (snd (trackClearance e track trackShape layer other constraint
                                   clearance s))) = sameNetViolations s"
  by (simp add: trackClearance_def read_defs Let_def sameNetViolation_def
      split: prod.splits option.splits)

lemma snd_case_bool [simp]:
  "snd (case b of True \<Rightarrow> (x, s) | False \<Rightarrow> (y, s)) = s"
  by (cases b) simp_all

lemma testTrackAgainstItem_sameNet:
  assumes "\<not> sameNonzeroNet track other"
  shows "sameNetViolations (snd (testTrackAgainstItem e track trackShape layer other s))
           = sameNetViolations s"
proof -
  have h: "\<forall>(a, b, a_shape) \<in> set [(track, other, trackShape),
             (other, track, GetEffectiveShape other layer)]. \<not> sameNonzeroNet a b"
    using assms by (simp add: sameNonzeroNet_commute)
  show ?thesis
    using trackClearance_sameNet [OF assms]
    by (simp add: testTrackAgainstItem_def Let_def case_prod_beta errorLimitExceeded_def
        trackHoles_sameNet [OF h] del: trackHoles.simps split: option.splits bool.splits)
qed

lemma zoneClearance_sameNet:
  "\<not> sameNonzeroNet aItem aZone \<Longrightarrow>
     sameNetViolations (zoneClearance e aItem aZone aLayer zoneTree constraint clearance s)
       = sameNetViolations s"
  by (simp add: zoneClearance_def read_defs sameNetViolation_def split: prod.splits option.splits)

lemma zoneHoles_sameNet:
  "\<not> sameNonzeroNet aItem aZone \<Longrightarrow>
     sameNetViolations (zoneHoles e aItem aZone aLayer zoneTree testHoles s) = sameNetViolations s"
  by (simp add: zoneHoles_def read_defs Let_def sameNetViolation_def
      split: prod.splits option.splits)

lemma testItemAgainstZone_sameNet:
  "sameNetViolations (testItemAgainstZone e aItem aZone aLayer s) = sameNetViolations s"
proof (cases "sameNonzeroNet aItem aZone")
  case True
  then show ?thesis
    by (simp add: testItemAgainstZone_def sameNonzeroNet_def)
next
  case False
  then show ?thesis
    by (simp add: testItemAgainstZone_def Let_def case_prod_beta errorLimitExceeded_def
        zoneClearance_sameNet zoneHoles_sameNet split: option.splits)
qed

lemma testKnockoutTextAgainstZone_sameNet:
  "\<not> IsConnected aText \<Longrightarrow>
     sameNetViolations (snd (testKnockoutTextAgainstZone e aText aInheritedNet aZone s))
       = sameNetViolations s"
  by (simp add: testKnockoutTextAgainstZone_def Let_def case_prod_beta read_defs
      sameNetViolation_def sameNonzeroNet_def split: option.splits)

lemma padHoleTest_sameNet:
  "\<not> sameNonzeroNet pad other \<Longrightarrow>
     sameNetViolations (snd (padHoleTest e constraint clearance pad other solid hole aLayer s))
       = sameNetViolations s"
  by (simp add: padHoleTest_def read_defs sameNetViolation_def split: prod.splits option.splits)

lemma padHoles_sameNet:
  "\<not> sameNonzeroNet pad other \<Longrightarrow>
     sameNetViolations (padHoles e pad padShape aLayer other testHoles s) = sameNetViolations s"
  by (simp add: padHoles_def Let_def case_prod_beta padHoleTest_sameNet)

lemma padHoles_off [simp]: "padHoles e pad padShape aLayer other False s = s"
  by (simp add: padHoles_def)

lemma padClearance_sameNet:
  "\<not> sameNonzeroNet pad other \<Longrightarrow>
     sameNetViolations (snd (padClearance e pad padShape aLayer other testClearance testHoles s))
       = sameNetViolations s"
  by (simp add: padClearance_def read_defs Let_def sameNetViolation_def
      split: prod.splits option.splits)

lemma padClearance_off [simp]:
  "padClearance e pad padShape aLayer other False testHoles s = (testHoles, s)"
  by (simp add: padClearance_def)

lemma padHoles_neither_pad_nor_via:
  "Type other \<noteq> PCB_PAD_T \<Longrightarrow> Type other \<noteq> PCB_VIA_T \<Longrightarrow>
     padHoles e pad padShape aLayer other testHoles s = s"
  by (simp add: padHoles_def Let_def)

lemma testPadAgainstItem_sameNet:
  assumes "Type other \<noteq> PCB_ZONE_T"
  shows "sameNetViolations (snd (testPadAgainstItem e pad padShape aLayer other s))
           = sameNetViolations s"
proof (cases "sameNonzeroNet pad other")
  case False
  then show ?thesis
    by (simp add: testPadAgainstItem_def Let_def case_prod_beta errorLimitExceeded_def
        cancelled_def padClearance_sameNet padHoles_sameNet sameNetViolation_def)
next
  case True
  then have net: "GetNetCode other = GetNetCode pad" "GetNetCode pad \<noteq> 0"
    and conn: "IsConnected other"
    by (auto simp: sameNonzeroNet_def)
  from conn assms consider
    (pad) "Type other = PCB_PAD_T" | (via) "Type other = PCB_VIA_T"
    | (seg) "Type other = PCB_TRACE_T \<or> Type other = PCB_ARC_T"
    by (auto simp: IsConnected_def is_PCB_TRACK_def)
  then show ?thesis
  proof cases
    case pad
    then show ?thesis
      using net
      by (simp add: testPadAgainstItem_def Let_def case_prod_beta errorLimitExceeded_def
          cancelled_def sameNetViolation_def)
  next
    case via
    then show ?thesis
      using net
      by (simp add: testPadAgainstItem_def Let_def case_prod_beta errorLimitExceeded_def
          cancelled_def sameNetViolation_def is_PCB_TRACK_def)
  next
    case seg
    then have "is_PCB_TRACK other" "Type other \<noteq> PCB_PAD_T" "Type other \<noteq> PCB_VIA_T"
      by (auto simp: is_PCB_TRACK_def)
    then show ?thesis
      by (simp add: testPadAgainstItem_def Let_def case_prod_beta errorLimitExceeded_def
          cancelled_def padHoles_neither_pad_nor_via)
  qed
qed

text \<open>An invariant of the index query: the filter hands it on to the visitor.\<close>
lemma QueryColliding_invariant:
  assumes "I st"
    and "\<And>other st. other \<in> set candidates \<Longrightarrow> I st \<Longrightarrow>
           (if fst (aFilter other st) then J other (snd (aFilter other st))
            else I (snd (aFilter other st)))"
    and "\<And>other st. other \<in> set candidates \<Longrightarrow> J other st \<Longrightarrow> I (snd (aVisitor other st))"
  shows "I (QueryColliding aFilter aVisitor candidates st)"
  using assms
proof (induction candidates arbitrary: st)
  case Nil
  then show ?case by simp
next
  case (Cons other candidates)
  obtain b st1 where f: "aFilter other st = (b, st1)" by (cases "aFilter other st")
  show ?case
  proof (cases b)
    case False
    with Cons.prems(2) [of other st] Cons.prems(1) f have "I st1" by simp
    with Cons.IH [of st1] Cons.prems(2,3) f False show ?thesis by simp
  next
    case True
    with Cons.prems(2) [of other st] Cons.prems(1) f have j: "J other st1" by simp
    obtain c st2 where v: "aVisitor other st1 = (c, st2)" by (cases "aVisitor other st1")
    from Cons.prems(3) [of other st1] j v have i2: "I st2" by simp
    show ?thesis
    proof (cases c)
      case False
      with f True v i2 show ?thesis by simp
    next
      case True
      with Cons.IH [of st2] Cons.prems(2,3) i2 f \<open>b\<close> v show ?thesis by simp
    qed
  qed
qed

lemma freePadClaim_sameNet:
  "sameNetViolations (snd (snd (freePadClaim e track trackShape layer other freePads s)))
     = sameNetViolations s"
  by (simp add: freePadClaim_def read_defs split: option.splits prod.splits)

lemma trackVisitor_sameNet:
  assumes "\<not> sameNonzeroNet track other"
  shows "sameNetViolations (snd (snd (snd (trackVisitor e track trackShape layer other
                                            (checkedPairs, freePads, s)))))
           = sameNetViolations s"
  by (simp add: trackVisitor_def Let_def cancelled_def case_prod_beta freePadClaim_sameNet
      testTrackAgainstItem_sameNet [OF assms] split: bool.splits)

lemma trackFilter_sameNet:
  "snd (snd (snd (trackFilter e track layer other (checkedPairs, freePads, s)))) = s"
  "fst (trackFilter e track layer other (checkedPairs, freePads, s)) \<Longrightarrow>
     \<not> sameNonzeroNet track other"
  by (auto simp: trackFilter_def sameNonzeroNet_def split: option.splits if_splits)

lemma trackZones_sameNet:
  "sameNetViolations (trackZones e track layer zones s) = sameNetViolations s"
  by (induction zones arbitrary: s)
     (simp_all add: cancelled_def testItemAgainstZone_sameNet split: bool.splits)

lemma trackQuery_sameNet:
  "sameNetViolations (snd (snd (QueryColliding (trackFilter e track layer)
                                  (trackVisitor e track trackShape layer) candidates st)))
     = sameNetViolations (snd (snd st))"
proof -
  define n where "n = sameNetViolations (snd (snd st))"
  have "sameNetViolations (snd (snd (QueryColliding (trackFilter e track layer)
          (trackVisitor e track trackShape layer) candidates st))) = n"
  proof (rule QueryColliding_invariant
      [where I = "\<lambda>st. sameNetViolations (snd (snd st)) = n"
         and J = "\<lambda>other st. sameNetViolations (snd (snd st)) = n \<and> \<not> sameNonzeroNet track other"])
    show "sameNetViolations (snd (snd st)) = n" by (simp add: n_def)
  next
    fix other and st :: track_phase
    assume "sameNetViolations (snd (snd st)) = n"
    then show "if fst (trackFilter e track layer other st)
        then sameNetViolations (snd (snd (snd (trackFilter e track layer other st)))) = n
             \<and> \<not> sameNonzeroNet track other
        else sameNetViolations (snd (snd (snd (trackFilter e track layer other st)))) = n"
      by (cases st) (auto simp: trackFilter_sameNet)
  next
    fix other and st :: track_phase
    assume "sameNetViolations (snd (snd st)) = n \<and> \<not> sameNonzeroNet track other"
    then show "sameNetViolations (snd (snd (snd (trackVisitor e track trackShape layer other st))))
                 = n"
      by (cases st) (auto simp: trackVisitor_sameNet)
  qed
  then show ?thesis by (simp add: n_def)
qed

lemma trackLayers_sameNet:
  "sameNetViolations (snd (snd (trackLayers e track layerSeq st)))
     = sameNetViolations (snd (snd st))"
proof (induction layerSeq arbitrary: st)
  case Nil
  then show ?case by simp
next
  case (Cons layer layerSeq)
  show ?case
    using trackQuery_sameNet [of e track layer "GetEffectiveShape track layer"
        "CopperItemRTree (m_board e) track layer" st]
    by (simp add: Cons.IH case_prod_beta trackZones_sameNet)
qed

lemma tracksLoop_sameNet:
  "sameNetViolations (snd (snd (tracksLoop e tracks st))) = sameNetViolations (snd (snd st))"
proof (induction tracks arbitrary: st)
  case Nil
  then show ?case by simp
next
  case (Cons track tracks)
  show ?case
    by (cases st) (simp add: Cons.IH progress_def trackLayers_sameNet split: bool.splits)
qed

lemma testTrackClearances_sameNet:
  "sameNetViolations (testTrackClearances e s) = sameNetViolations s"
  by (simp add: testTrackClearances_def tracksLoop_sameNet)

lemma padQuery_sameNet:
  assumes "\<forall>other \<in> set candidates. Type other \<noteq> PCB_ZONE_T"
  shows "sameNetViolations (snd (QueryColliding (padFilter pad)
                                  (padVisitor e pad padShape layer) candidates st))
           = sameNetViolations (snd st)"
proof -
  define n where "n = sameNetViolations (snd st)"
  have "sameNetViolations (snd (QueryColliding (padFilter pad)
          (padVisitor e pad padShape layer) candidates st)) = n"
  proof (rule QueryColliding_invariant
      [where I = "\<lambda>st. sameNetViolations (snd st) = n"
         and J = "\<lambda>other st. sameNetViolations (snd st) = n \<and> Type other \<noteq> PCB_ZONE_T"])
    show "sameNetViolations (snd st) = n" by (simp add: n_def)
  next
    fix other :: BOARD_ITEM and st :: pad_phase
    assume "other \<in> set candidates" "sameNetViolations (snd st) = n"
    then show "if fst (padFilter pad other st)
        then sameNetViolations (snd (snd (padFilter pad other st))) = n
             \<and> Type other \<noteq> PCB_ZONE_T
        else sameNetViolations (snd (snd (padFilter pad other st))) = n"
      using assms by (cases st) (auto simp: padFilter_def)
  next
    fix other :: BOARD_ITEM and st :: pad_phase
    assume "sameNetViolations (snd st) = n \<and> Type other \<noteq> PCB_ZONE_T"
    then show "sameNetViolations (snd (snd (padVisitor e pad padShape layer other st))) = n"
      by (cases st) (auto simp: padVisitor_def case_prod_beta testPadAgainstItem_sameNet)
  qed
  then show ?thesis by (simp add: n_def)
qed

lemma padZones_sameNet:
  "sameNetViolations (snd (padZones e pad layer zones s)) = sameNetViolations s"
  by (induction zones arbitrary: s)
     (simp_all add: cancelled_def testItemAgainstZone_sameNet split: bool.splits)

lemma padLayers_sameNet:
  assumes "\<forall>item l. \<forall>other \<in> set (CopperItemRTree (m_board e) item l). Type other \<noteq> PCB_ZONE_T"
  shows "sameNetViolations (snd (snd (padLayers e pad layerSeq st))) = sameNetViolations (snd st)"
proof (induction layerSeq arbitrary: st)
  case Nil
  then show ?case by simp
next
  case (Cons layer layerSeq)
  let ?q = "QueryColliding (padFilter pad) (padVisitor e pad (GetEffectiveShape pad layer) layer)
              (CopperItemRTree (m_board e) pad layer) st"
  have q: "sameNetViolations (snd ?q) = sameNetViolations (snd st)"
    using assms by (intro padQuery_sameNet) blast
  have z: "sameNetViolations (snd (padZones e pad layer (m_DRCCopperZones (m_board e)) (snd ?q)))
             = sameNetViolations (snd st)"
    by (simp add: padZones_sameNet q)
  show ?case
    using z by (simp add: Cons.IH case_prod_beta split: bool.splits)
qed

lemma padsLoop_sameNet:
  assumes "\<forall>item l. \<forall>other \<in> set (CopperItemRTree (m_board e) item l). Type other \<noteq> PCB_ZONE_T"
  shows "sameNetViolations (snd (snd (padsLoop e pads st))) = sameNetViolations (snd st)"
proof (induction pads arbitrary: st)
  case Nil
  then show ?case by simp
next
  case (Cons pad pads)
  show ?case
    using padLayers_sameNet [OF assms,
        of pad "LSET_Seq (GetLayerSet pad \<inter> CopperLayers (m_board e))" st]
    by (simp add: Cons.IH case_prod_beta progress_def split: bool.splits)
qed

lemma footprintsLoop_sameNet:
  assumes "\<forall>item l. \<forall>other \<in> set (CopperItemRTree (m_board e) item l). Type other \<noteq> PCB_ZONE_T"
  shows "sameNetViolations (snd (footprintsLoop e footprints st)) = sameNetViolations (snd st)"
proof (induction footprints arbitrary: st)
  case Nil
  then show ?case by simp
next
  case (Cons footprint footprints)
  show ?case
    using padsLoop_sameNet [OF assms, of "Pads footprint" st]
    by (simp add: Cons.IH case_prod_beta cancelled_def split: bool.splits)
qed

lemma testPadClearances_sameNet:
  assumes "\<forall>item l. \<forall>other \<in> set (CopperItemRTree (m_board e) item l). Type other \<noteq> PCB_ZONE_T"
  shows "sameNetViolations (testPadClearances e s) = sameNetViolations s"
  by (simp add: testPadClearances_def footprintsLoop_sameNet [OF assms])

lemma graphicZones_sameNet:
  "sameNetViolations (graphicZones e item inheritedNet zones s) = sameNetViolations s"
proof (induction zones arbitrary: s inheritedNet)
  case Nil
  then show ?case by simp
next
  case (Cons zone zones)
  have "isKnockoutText item \<Longrightarrow> \<not> IsConnected item"
    by (auto simp: isKnockoutText_def IsConnected_def is_PCB_TRACK_def split: if_splits)
  then show ?case
    by (simp add: Cons.IH case_prod_beta cancelled_def testItemAgainstZone_sameNet
        testKnockoutTextAgainstZone_sameNet split: bool.splits)
qed

lemma graphicsLoop_sameNet:
  "sameNetViolations (snd (graphicsLoop e items s)) = sameNetViolations s"
  by (induction items arbitrary: s)
     (simp_all add: progress_def testGraphicAgainstZone_def graphicZones_sameNet
        split: bool.splits)

lemma footprintGraphicsLoop_sameNet:
  "sameNetViolations (footprintGraphicsLoop e footprints s) = sameNetViolations s"
proof (induction footprints arbitrary: s)
  case Nil
  then show ?case by simp
next
  case (Cons footprint footprints)
  show ?case
    using graphicsLoop_sameNet [of e "GraphicalItems footprint" s]
    by (simp add: Cons.IH case_prod_beta split: bool.splits)
qed

lemma testGraphicClearances_sameNet:
  "sameNetViolations (testGraphicClearances e s) = sameNetViolations s"
  using graphicsLoop_sameNet [of e "Drawings (m_board e)" "emit (EvAux ''Testing graphics...'') s"]
  by (simp add: testGraphicClearances_def case_prod_beta footprintGraphicsLoop_sameNet
      split: bool.splits)

text \<open>
  Claim C6.  None of the test phases adds a clearance or hole clearance violation
  between two items of the same non-zero net to the report: the track phase and the
  graphic phase (with their tests against zones) never, the pad phase (with its tests
  against zones) provided the copper item index holds no zones, which have an index
  of their own.
\<close>
theorem no_violation_between_items_of_same_net:
  "sameNetViolations (testTrackClearances e s) = sameNetViolations s
   \<and> ((\<forall>item l. \<forall>other \<in> set (CopperItemRTree (m_board e) item l). Type other \<noteq> PCB_ZONE_T) \<longrightarrow>
        sameNetViolations (testPadClearances e s) = sameNetViolations s)
   \<and> sameNetViolations (testGraphicClearances e s) = sameNetViolations s"
  using testTrackClearances_sameNet [of e s] testPadClearances_sameNet [of e s]
    testGraphicClearances_sameNet [of e s]
  by blast

lemma nets_env_simps:
  "Tracks (m_board nets_env) = [net1_track, net1_track', net2_track]"
  "Footprints (m_board nets_env) = []"
  "Drawings (m_board nets_env) = []"
  "m_DRCCopperZones (m_board nets_env) = [net1_zone]"
  "CopperItemRTree (m_board nets_env) net1_track l = [net1_track', net2_track]"
  "CopperItemRTree (m_board nets_env) net1_track' l = [net1_track, net2_track]"
  "CopperItemRTree (m_board nets_env) net2_track l = [net1_track, net1_track']"
  "CopperLayers (m_board nets_env) = {F_Cu, B_Cu}"
  "reportProgress nets_env = (\<lambda>t. True)"
  "IsCancelled nets_env = (\<lambda>t. False)"
  "GetReportAllTrackErrors nets_env = False"
  by (simp_all add: nets_env_def blank_env_def blank_board_def net1_track_def net1_track'_def
      net2_track_def)

lemma nets_track_test:
  assumes "Type track = PCB_TRACE_T" and "\<not> HasHole track"
  shows "testTrackAgainstItem nets_env track (GetEffectiveShape track F_Cu) F_Cu net2_track s =
     (False,
      s\<lparr>tick := Suc (Suc (tick s)),
        log := log s @
          [EvCollide CLEARANCE_CONSTRAINT (GetEffectiveShape track F_Cu) (Some 3) 10,
           EvViolation \<lparr>GetErrorCode = DRCE_CLEARANCE, GetItems = (track, net2_track),
                        GetViolatingRule = Some 0, GetErrorMessage = ClearanceMsg ''rule'' 10 0,
                        MarkerPos = (0, 0), MarkerLayer = F_Cu\<rparr>]\<rparr>)"
  using assms
  by (simp add: testTrackAgainstItem_def trackClearance_def nets_env_def net2_track_def
      fixture_defs errorLimitExceeded_def collide_def emit_def reportViolation_def Let_def)

lemma nets_zone_tests:
  "testItemAgainstZone nets_env net1_track net1_zone F_Cu s = s"
  "testItemAgainstZone nets_env net1_track' net1_zone F_Cu s = s"
  "testItemAgainstZone nets_env net2_track net1_zone F_Cu s =
     s\<lparr>tick := Suc (Suc (tick s)),
       log := log s @
         [EvZoneQuery CLEARANCE_CONSTRAINT 10 3 10,
          EvViolation \<lparr>GetErrorCode = DRCE_CLEARANCE, GetItems = (net2_track, net1_zone),
                       GetViolatingRule = Some 0, GetErrorMessage = ClearanceMsg ''rule'' 10 0,
                       MarkerPos = (0, 0), MarkerLayer = F_Cu\<rparr>]\<rparr>"
  by (simp_all add: testItemAgainstZone_def zoneClearance_def zoneHoles_def nets_env_def
      net1_track_def net1_track'_def net2_track_def net1_zone_def blank_zone_def fixture_defs
      errorLimitExceeded_def zoneQuery_def emit_def reportViolation_def IsConnected_def
      is_PCB_TRACK_def F_Cu_def)

lemma nets_layers:
  "LSET_Seq (GetLayerSet net1_track \<inter> {F_Cu, B_Cu}) = [F_Cu]"
  "LSET_Seq (GetLayerSet net1_track' \<inter> {F_Cu, B_Cu}) = [F_Cu]"
  "LSET_Seq (GetLayerSet net2_track \<inter> {F_Cu, B_Cu}) = [F_Cu]"
  by (simp_all add: LSET_Seq_def net1_track_def net1_track'_def net2_track_def blank_item_def)

lemma nets_items:
  "addr net1_track = 1" "addr net1_track' = 2" "addr net2_track = 3"
  "GetNetCode net1_track = 1" "GetNetCode net1_track' = 1" "GetNetCode net2_track = 2"
  "IsConnected net1_track" "IsConnected net1_track'" "IsConnected net2_track"
  "Type net1_track = PCB_TRACE_T" "Type net1_track' = PCB_TRACE_T" "Type net2_track = PCB_TRACE_T"
  "\<not> HasHole net1_track" "\<not> HasHole net1_track'" "addr net1_zone = 10"
  by (simp_all add: net1_track_def net1_track'_def net2_track_def net1_zone_def blank_zone_def
      blank_item_def IsConnected_def is_PCB_TRACK_def)

lemma nets_track_phase:
  "map (\<lambda>v. (addr (fst (GetItems v)), addr (snd (GetItems v)), GetErrorCode v))
     (violations (testTrackClearances nets_env start_state))
   = [(1, 3, DRCE_CLEARANCE), (2, 3, DRCE_CLEARANCE), (3, 10, DRCE_CLEARANCE)]"
  by (simp add: testTrackClearances_def nets_env_simps nets_layers trackFilter_def
      trackVisitor_def freePadClaim_def nets_track_test nets_zone_tests nets_items pairKey_def
      progress_def cancelled_def emit_def start_state_def violations_def)

theorem no_violation_between_items_of_same_net_witness:
  "sameNonzeroNet net1_track net1_track' \<and> sameNonzeroNet net1_track net1_zone
   \<and> map (\<lambda>v. (addr (fst (GetItems v)), addr (snd (GetItems v)), GetErrorCode v))
        (violations (testTrackClearances nets_env start_state))
      = [(1, 3, DRCE_CLEARANCE), (2, 3, DRCE_CLEARANCE), (3, 10, DRCE_CLEARANCE)]
   \<and> sameNetViolations (testTrackClearances nets_env start_state) = []
   \<and> sameNetViolations (testPadClearances nets_env start_state) = []
   \<and> sameNetViolations (testGraphicClearances nets_env start_state) = []"
proof -
  have "\<forall>item l. \<forall>other \<in> set (CopperItemRTree (m_board nets_env) item l).
          Type other \<noteq> PCB_ZONE_T"
    by (simp add: nets_env_def blank_env_def blank_board_def nets_items)
  moreover have "sameNetViolations start_state = []"
    by (simp add: sameNetViolations_def)
  moreover have "sameNonzeroNet net1_track net1_track' \<and> sameNonzeroNet net1_track net1_zone"
    by (simp add: sameNonzeroNet_def nets_items net1_zone_def blank_zone_def IsConnected_def
        is_PCB_TRACK_def)
  ultimately show ?thesis
    using no_violation_between_items_of_same_net [of nets_env start_state] nets_track_phase
    by simp
qed

subsection \<open>One clearance violation for a pair and a layer\<close>

lemma clearanceCount_simps [simp]:
  "clearanceCount K (s\<lparr>tick := t\<rparr>) = clearanceCount K s"
  "clearanceCount K (reportViolation v s) =
     clearanceCount K s + (if isClearanceAt K v then 1 else 0)"
  "clearanceCount K (emit (EvCollide k a b c) s) = clearanceCount K s"
  "clearanceCount K (emit (EvZoneQuery k tree sh c) s) = clearanceCount K s"
  "clearanceCount K (emit (EvAux msg) s) = clearanceCount K s"
  "clearanceCount K (emit (EvPhase msg) s) = clearanceCount K s"
  by (simp_all add: clearanceCount_def violations_def reportViolation_def emit_def)

lemma trackHoles_clearanceCount:
  "clearanceCount K (snd (trackHoles e layer triples s)) = clearanceCount K s"
proof (induction triples arbitrary: s)
  case Nil
  then show ?case by simp
next
  case (Cons x triples)
  obtain a b a_shape where x: "x = (a, b, a_shape)" by (cases x)
  from Cons show ?case
    by (simp add: x read_defs Let_def isClearanceAt_def split: prod.splits option.splits)
qed

lemma trackClearance_clearanceCount:
  "clearanceCount K (snd (snd (trackClearance e track trackShape layer other constraint
                                clearance s)))
     \<le> clearanceCount K s + hit K track other layer"
  by (simp add: trackClearance_def read_defs Let_def isClearanceAt_def hit_def
      split: prod.splits option.splits)

lemma testTrackAgainstItem_clearanceCount:
  "clearanceCount K (snd (testTrackAgainstItem e track trackShape layer other s))
     \<le> clearanceCount K s + hit K track other layer"
proof -
  have "clearanceCount K (snd (snd (trackClearance e track trackShape layer other c cl
            (s\<lparr>tick := Suc (Suc (tick s))\<rparr>))))
          \<le> clearanceCount K s + hit K track other layer" for c cl
    using trackClearance_clearanceCount
            [of K e track trackShape layer other c cl "s\<lparr>tick := Suc (Suc (tick s))\<rparr>"]
    by simp
  then show ?thesis
    by (simp add: testTrackAgainstItem_def Let_def case_prod_beta errorLimitExceeded_def
        trackHoles_clearanceCount del: trackHoles.simps split: option.splits bool.splits)
qed

lemma zoneClearance_clearanceCount:
  "clearanceCount K (zoneClearance e aItem aZone aLayer zoneTree constraint clearance s)
     \<le> clearanceCount K s + hit K aItem aZone aLayer"
  by (simp add: zoneClearance_def read_defs isClearanceAt_def hit_def
      split: prod.splits option.splits)

lemma zoneHoles_clearanceCount:
  "clearanceCount K (zoneHoles e aItem aZone aLayer zoneTree testHoles s) = clearanceCount K s"
  by (simp add: zoneHoles_def read_defs Let_def isClearanceAt_def
      split: prod.splits option.splits)

lemma testItemAgainstZone_clearanceCount:
  "clearanceCount K (testItemAgainstZone e aItem aZone aLayer s)
     \<le> clearanceCount K s + hit K aItem aZone aLayer"
proof -
  have "clearanceCount K (zoneClearance e aItem aZone aLayer zoneTree c cl
            (s\<lparr>tick := Suc (Suc (tick s))\<rparr>))
          \<le> clearanceCount K s + hit K aItem aZone aLayer" for c cl zoneTree
    using zoneClearance_clearanceCount
            [of K e aItem aZone aLayer zoneTree c cl "s\<lparr>tick := Suc (Suc (tick s))\<rparr>"]
    by simp
  then show ?thesis
    by (simp add: testItemAgainstZone_def Let_def case_prod_beta errorLimitExceeded_def
        zoneHoles_clearanceCount split: option.splits)
qed

lemma testKnockoutTextAgainstZone_clearanceCount:
  "clearanceCount K (snd (testKnockoutTextAgainstZone e aText aInheritedNet aZone s))
     \<le> clearanceCount K s + hit K aText aZone (GetLayer aText)"
  by (simp add: testKnockoutTextAgainstZone_def Let_def case_prod_beta read_defs
      isClearanceAt_def hit_def split: option.splits)

lemma padHoleTest_clearanceCount:
  "clearanceCount K (snd (padHoleTest e constraint clearance pad other solid hole aLayer s))
     = clearanceCount K s"
  by (simp add: padHoleTest_def read_defs isClearanceAt_def split: prod.splits option.splits)

lemma padHoles_clearanceCount:
  "clearanceCount K (padHoles e pad padShape aLayer other testHoles s) = clearanceCount K s"
  by (simp add: padHoles_def Let_def case_prod_beta padHoleTest_clearanceCount)

lemma padClearance_clearanceCount:
  "clearanceCount K (snd (padClearance e pad padShape aLayer other testClearance testHoles s))
     \<le> clearanceCount K s + (if testClearance then hit K pad other aLayer else 0)"
  by (simp add: padClearance_def read_defs Let_def isClearanceAt_def hit_def
      split: prod.splits option.splits)

lemma testPadAgainstItem_clearanceCount:
  "clearanceCount K (snd (testPadAgainstItem e pad padShape aLayer other s))
     \<le> clearanceCount K s + (if is_PCB_TRACK other then 0 else hit K pad other aLayer)"
proof -
  have a: "clearanceCount K (snd (padClearance e pad padShape aLayer other c h
             (s\<lparr>tick := Suc (Suc (Suc (tick s)))\<rparr>)))
           \<le> clearanceCount K s + (if c then hit K pad other aLayer else 0)" for c h
    using padClearance_clearanceCount
            [of K e pad padShape aLayer other c h "s\<lparr>tick := Suc (Suc (Suc (tick s)))\<rparr>"]
    by simp
  show ?thesis
  proof (cases "is_PCB_TRACK other")
    case True
    then show ?thesis
      by (simp add: testPadAgainstItem_def Let_def case_prod_beta errorLimitExceeded_def
          cancelled_def padHoles_clearanceCount isClearanceAt_def)
  next
    case False
    have "clearanceCount K (snd (padClearance e pad padShape aLayer other c h
             (s\<lparr>tick := Suc (Suc (Suc (tick s)))\<rparr>)))
           \<le> clearanceCount K s + hit K pad other aLayer" for c h
      using a [of c h] by (simp split: if_splits)
    with False show ?thesis
      by (simp add: testPadAgainstItem_def Let_def case_prod_beta errorLimitExceeded_def
          cancelled_def padHoles_clearanceCount isClearanceAt_def)
  qed
qed

lemma reportZoneResult_clearanceCount:
  "clearanceCount K (reportZoneResult e testClearance testIntersects
                       (checkZones e testClearance testIntersects c zoneA zoneB clr layer) s)
     \<le> clearanceCount K s
         + hit K (m_DRCCopperZones (m_board e) ! zoneA) (m_DRCCopperZones (m_board e) ! zoneB) layer"
proof -
  let ?r = "checkZones e testClearance testIntersects c zoneA zoneB clr layer"
  have "?r = invalid_result
        \<or> (\<exists>pt d. ?r = (int zoneA, int zoneB, pt, d, clr, layer))"
    using refSegmentsLoop_result [OF refl, of e testClearance testIntersects c "int zoneA"
        "int zoneB" clr layer] unfolding checkZones_def by blast
  then show ?thesis
    by (auto simp: reportZoneResult_def invalid_result_def invalid_zone_def Let_def
        isClearanceAt_def hit_def)
qed

lemma pairKey_eq_iff:
  "pairKey a b = pairKey c d \<longleftrightarrow>
     (addr a = addr c \<and> addr b = addr d) \<or> (addr a = addr d \<and> addr b = addr c)"
  by (auto simp: pairKey_def)

lemma touches_pairKey [simp]:
  "touches A (pairKey a b, layer) \<longleftrightarrow> addr a \<in> A \<or> addr b \<in> A"
  by (auto simp: touches_def pairKey_def)

lemma hit_le_one: "hit K a b layer \<le> 1"
  by (simp add: hit_def)

lemma zoneHits_Nil [simp]: "zoneHits K [] L zones = 0" "zoneHits K items L [] = 0"
  by (simp_all add: zoneHits_def)

text \<open>Zones at different addresses: only one of them can make up the pair \<open>K\<close>.\<close>
lemma zoneHits_zone_Cons:
  assumes "addr zone \<notin> addr ` set zones"
  shows "hit K item zone layer + zoneHits K [item] (\<lambda>i. {layer}) zones
           = zoneHits K [item] (\<lambda>i. {layer}) (zone # zones)"
  using assms by (auto simp: hit_def zoneHits_def pairKey_eq_iff)

lemma zoneHits_layer_Cons:
  assumes "layer \<notin> set layerSeq"
  shows "zoneHits K [item] (\<lambda>i. {layer}) zones + zoneHits K [item] (\<lambda>i. set layerSeq) zones
           = zoneHits K [item] (\<lambda>i. set (layer # layerSeq)) zones"
  using assms by (auto simp: zoneHits_def)

text \<open>
  Items at different addresses, none of them the address of a zone: only one of them
  can make up the pair \<open>K\<close> with a zone.
\<close>
lemma zoneHits_item_Cons:
  assumes "addr item \<notin> addr ` set items"
    and "addr item \<notin> addr ` set zones" and "\<forall>i \<in> set items. addr i \<notin> addr ` set zones"
  shows "zoneHits K [item] L zones + zoneHits K items L zones = zoneHits K (item # items) L zones"
proof -
  have "pairKey i z' \<noteq> pairKey item z"
    if "z \<in> set zones" "z' \<in> set zones" "i \<in> set items" for z z' i
    using that assms by (auto simp: pairKey_eq_iff image_iff)
  then show ?thesis
    by (auto simp: zoneHits_def)
qed

lemma zoneHits_mono_layers:
  "L item \<subseteq> L' item \<Longrightarrow> zoneHits K [item] L zones \<le> zoneHits K [item] L' zones"
  by (auto simp: zoneHits_def)

lemma trackZones_clearanceCount:
  assumes "distinct (map addr zones)"
  shows "clearanceCount K (trackZones e track layer zones s)
           \<le> clearanceCount K s + zoneHits K [track] (\<lambda>i. {layer}) zones"
  using assms
proof (induction zones arbitrary: s)
  case Nil
  then show ?case by simp
next
  case (Cons zone zones)
  let ?s1 = "testItemAgainstZone e track zone layer s"
  have a: "clearanceCount K ?s1 \<le> clearanceCount K s + hit K track zone layer"
    by (rule testItemAgainstZone_clearanceCount)
  have b: "clearanceCount K (trackZones e track layer zones s')
             \<le> clearanceCount K s' + zoneHits K [track] (\<lambda>i. {layer}) zones" for s'
    using Cons by simp
  have c: "hit K track zone layer + zoneHits K [track] (\<lambda>i. {layer}) zones
             = zoneHits K [track] (\<lambda>i. {layer}) (zone # zones)"
    using Cons.prems by (intro zoneHits_zone_Cons) simp
  show ?case
    using a b [of "?s1\<lparr>tick := Suc (tick ?s1)\<rparr>"] c
    by (simp add: cancelled_def split: bool.splits)
qed

lemma trackFilter_state [simp]:
  "snd (snd (snd (trackFilter e track layer other st))) = snd (snd st)"
  by (cases st) (simp add: trackFilter_def split: option.splits)

lemma freePadClaim_clearanceCount:
  "clearanceCount K (snd (snd (freePadClaim e track trackShape layer other freePads s)))
     = clearanceCount K s"
  by (simp add: freePadClaim_def read_defs split: option.splits prod.splits)

lemma trackVisitor_clearanceCount:
  "clearanceCount K (snd (snd (snd (trackVisitor e track trackShape layer other st))))
     \<le> clearanceCount K (snd (snd st)) + hit K track other layer"
proof -
  obtain checkedPairs freePads s where st: "st = (checkedPairs, freePads, s)" by (cases st)
  let ?s1 = "s\<lparr>tick := Suc (tick s)\<rparr>"
  let ?f = "freePadClaim e track trackShape layer other freePads ?s1"
  have "clearanceCount K (snd (testTrackAgainstItem e track trackShape layer other (snd (snd ?f))))
          \<le> clearanceCount K s + hit K track other layer"
    using testTrackAgainstItem_clearanceCount [of K e track trackShape layer other "snd (snd ?f)"]
    by (simp add: freePadClaim_clearanceCount)
  then show ?thesis
    by (simp add: st trackVisitor_def Let_def cancelled_def case_prod_beta
        freePadClaim_clearanceCount split: bool.splits)
qed

text \<open>The query adds nothing for \<open>K\<close> when \<open>K\<close> is not the pair of the track and a candidate.\<close>
lemma trackQuery_clearanceCount:
  assumes "\<forall>other \<in> set candidates. hit K track other layer = 0"
  shows "clearanceCount K (snd (snd (QueryColliding (trackFilter e track layer)
                                      (trackVisitor e track trackShape layer) candidates st)))
           \<le> clearanceCount K (snd (snd st))"
proof (rule QueryColliding_invariant
    [where I = "\<lambda>st'. clearanceCount K (snd (snd st')) \<le> clearanceCount K (snd (snd st))"
       and J = "\<lambda>other st'. clearanceCount K (snd (snd st')) \<le> clearanceCount K (snd (snd st))
                  \<and> other \<in> set candidates"])
  show "clearanceCount K (snd (snd st)) \<le> clearanceCount K (snd (snd st))" by simp
next
  fix other :: BOARD_ITEM and st' :: track_phase
  assume "other \<in> set candidates"
    "clearanceCount K (snd (snd st')) \<le> clearanceCount K (snd (snd st))"
  then show "if fst (trackFilter e track layer other st')
      then clearanceCount K (snd (snd (snd (trackFilter e track layer other st'))))
             \<le> clearanceCount K (snd (snd st)) \<and> other \<in> set candidates
      else clearanceCount K (snd (snd (snd (trackFilter e track layer other st'))))
             \<le> clearanceCount K (snd (snd st))"
    by simp
next
  fix other :: BOARD_ITEM and st' :: track_phase
  assume j: "clearanceCount K (snd (snd st')) \<le> clearanceCount K (snd (snd st))
               \<and> other \<in> set candidates"
  with assms have "hit K track other layer = 0" by blast
  with trackVisitor_clearanceCount [of K e track trackShape layer other st'] j
  show "clearanceCount K (snd (snd (snd (trackVisitor e track trackShape layer other st'))))
          \<le> clearanceCount K (snd (snd st))"
    by simp
qed

lemma trackLayers_zone_bound:
  assumes "\<forall>layer. \<forall>other \<in> set (CopperItemRTree (m_board e) track layer).
             hit K track other layer = 0"
    and "distinct layerSeq" and "distinct (map addr (m_DRCCopperZones (m_board e)))"
  shows "clearanceCount K (snd (snd (trackLayers e track layerSeq st)))
           \<le> clearanceCount K (snd (snd st))
               + zoneHits K [track] (\<lambda>i. set layerSeq) (m_DRCCopperZones (m_board e))"
  using assms(2)
proof (induction layerSeq arbitrary: st)
  case Nil
  then show ?case by (simp add: zoneHits_def)
next
  case (Cons layer layerSeq)
  let ?zones = "m_DRCCopperZones (m_board e)"
  let ?q = "QueryColliding (trackFilter e track layer)
              (trackVisitor e track (GetEffectiveShape track layer) layer)
              (CopperItemRTree (m_board e) track layer) st"
  let ?s2 = "trackZones e track layer ?zones (snd (snd ?q))"
  have a: "clearanceCount K (snd (snd ?q)) \<le> clearanceCount K (snd (snd st))"
    using assms(1) by (intro trackQuery_clearanceCount) blast
  have b: "clearanceCount K ?s2
             \<le> clearanceCount K (snd (snd ?q)) + zoneHits K [track] (\<lambda>i. {layer}) ?zones"
    by (rule trackZones_clearanceCount [OF assms(3)])
  have c: "clearanceCount K (snd (snd (trackLayers e track layerSeq (fst ?q, fst (snd ?q), ?s2))))
             \<le> clearanceCount K ?s2 + zoneHits K [track] (\<lambda>i. set layerSeq) ?zones"
    using Cons.IH [of "(fst ?q, fst (snd ?q), ?s2)"] Cons.prems by simp
  have d: "zoneHits K [track] (\<lambda>i. {layer}) ?zones + zoneHits K [track] (\<lambda>i. set layerSeq) ?zones
             = zoneHits K [track] (\<lambda>i. set (layer # layerSeq)) ?zones"
    using Cons.prems by (intro zoneHits_layer_Cons) simp
  show ?case
    using a b c d by (simp add: case_prod_beta)
qed

lemma tracksLoop_zone_bound:
  assumes "\<forall>track \<in> set tracks. \<forall>layer. \<forall>other \<in> set (CopperItemRTree (m_board e) track layer).
             hit K track other layer = 0"
    and "distinct (map addr tracks)"
    and "distinct (map addr (m_DRCCopperZones (m_board e)))"
    and "\<forall>track \<in> set tracks. addr track \<notin> addr ` set (m_DRCCopperZones (m_board e))"
  shows "clearanceCount K (snd (snd (tracksLoop e tracks st)))
           \<le> clearanceCount K (snd (snd st))
               + zoneHits K tracks (\<lambda>i. UNIV) (m_DRCCopperZones (m_board e))"
  using assms(1,2,4)
proof (induction tracks arbitrary: st)
  case Nil
  then show ?case by simp
next
  case (Cons track tracks)
  let ?zones = "m_DRCCopperZones (m_board e)"
  obtain checkedPairs freePads s where st: "st = (checkedPairs, freePads, s)" by (cases st)
  let ?layers = "LSET_Seq (GetLayerSet track \<inter> CopperLayers (m_board e))"
  let ?st1 = "trackLayers e track ?layers (checkedPairs, freePads, s\<lparr>tick := Suc (tick s)\<rparr>)"
  have a: "clearanceCount K (snd (snd ?st1))
             \<le> clearanceCount K s + zoneHits K [track] (\<lambda>i. set ?layers) ?zones"
    using trackLayers_zone_bound [of e track K ?layers
        "(checkedPairs, freePads, s\<lparr>tick := Suc (tick s)\<rparr>)"] Cons.prems(1) assms(3)
    by (simp add: LSET_Seq_def)
  have a': "zoneHits K [track] (\<lambda>i. set ?layers) ?zones \<le> zoneHits K [track] (\<lambda>i. UNIV) ?zones"
    by (rule zoneHits_mono_layers) simp
  have b: "clearanceCount K (snd (snd (tracksLoop e tracks ?st1)))
             \<le> clearanceCount K (snd (snd ?st1)) + zoneHits K tracks (\<lambda>i. UNIV) ?zones"
    using Cons.IH [of ?st1] Cons.prems by simp
  have c: "zoneHits K [track] (\<lambda>i. UNIV) ?zones + zoneHits K tracks (\<lambda>i. UNIV) ?zones
             = zoneHits K (track # tracks) (\<lambda>i. UNIV) ?zones"
    using Cons.prems by (intro zoneHits_item_Cons) auto
  show ?case
    using a a' b c by (simp add: st progress_def split: bool.splits)
qed

lemma trackMemo_state:
  assumes "trackMemo K c (checkedPairs, freePads, s)" and "clearanceCount K s' \<le> clearanceCount K s"
  shows "trackMemo K c (checkedPairs, freePads', s')"
  using assms by (auto simp: trackMemo_def)

lemma trackFilter_trackMemo:
  assumes "trackMemo K c st"
  shows "trackMemo K c (snd (trackFilter e track layer other st))"
  using assms
  by (cases st) (auto simp: trackFilter_def trackMemo_def split: option.splits if_splits)

lemma trackFilter_accepts_fresh:
  assumes "trackMemo (pairKey track other, layer) c st"
    and "fst (trackFilter e track layer other st)"
  shows "clearanceCount (pairKey track other, layer) (snd (snd st)) \<le> c"
  using assms
  by (cases st) (auto simp: trackFilter_def trackMemo_def split: option.splits if_splits)

lemma trackFilter_accepts_memo:
  assumes "fst (trackFilter e track layer other st)"
  shows "\<exists>it. fst (snd (trackFilter e track layer other st)) (pairKey track other) = Some it
              \<and> layer \<in> layers it"
  using assms
  by (cases st) (auto simp: trackFilter_def split: option.splits if_splits)

lemma trackVisitor_memo:
  assumes "fst st k = Some it"
  shows "\<exists>it'. fst (snd (trackVisitor e track trackShape layer other st)) k = Some it'
               \<and> layers it' = layers it"
  using assms
  by (cases st)
     (auto simp: trackVisitor_def Let_def case_prod_beta cancelled_def
       split: bool.splits option.splits)

lemma trackVisitor_trackMemo:
  assumes "trackMemo K c st"
    and "K = (pairKey track other, layer) \<Longrightarrow> clearanceCount K (snd (snd st)) \<le> c"
    and "\<exists>it. fst st (pairKey track other) = Some it \<and> layer \<in> layers it"
  shows "trackMemo K c (snd (trackVisitor e track trackShape layer other st))"
proof (cases "K = (pairKey track other, layer)")
  case True
  from assms(3) obtain it where "fst st (pairKey track other) = Some it" "layer \<in> layers it"
    by blast
  with trackVisitor_memo [of st "pairKey track other" it e track trackShape layer other]
  have "\<exists>it'. fst (snd (trackVisitor e track trackShape layer other st)) (fst K) = Some it'
               \<and> snd K \<in> layers it'"
    by (auto simp: True)
  moreover have "clearanceCount K (snd (snd (snd (trackVisitor e track trackShape layer other st))))
                   \<le> Suc c"
    using trackVisitor_clearanceCount [of K e track trackShape layer other st] assms(2) True
      hit_le_one [of K track other layer]
    by simp
  ultimately show ?thesis
    by (simp add: trackMemo_def)
next
  case False
  then have le: "clearanceCount K (snd (snd (snd (trackVisitor e track trackShape layer other st))))
                   \<le> clearanceCount K (snd (snd st))"
    using trackVisitor_clearanceCount [of K e track trackShape layer other st]
    by (simp add: hit_def)
  from assms(1) show ?thesis
    unfolding trackMemo_def
  proof
    assume "clearanceCount K (snd (snd st)) \<le> c"
    with le show "clearanceCount K (snd (snd (snd (trackVisitor e track trackShape layer other st)))) \<le> c
        \<or> clearanceCount K (snd (snd (snd (trackVisitor e track trackShape layer other st)))) \<le> Suc c
          \<and> (\<exists>it. fst (snd (trackVisitor e track trackShape layer other st)) (fst K) = Some it
                   \<and> snd K \<in> layers it)"
      by simp
  next
    assume a: "clearanceCount K (snd (snd st)) \<le> Suc c
                 \<and> (\<exists>it. fst st (fst K) = Some it \<and> snd K \<in> layers it)"
    then obtain it where "fst st (fst K) = Some it" "snd K \<in> layers it" by blast
    with trackVisitor_memo [of st "fst K" it e track trackShape layer other]
    have "\<exists>it'. fst (snd (trackVisitor e track trackShape layer other st)) (fst K) = Some it'
                 \<and> snd K \<in> layers it'"
      by auto
    with le a show "clearanceCount K (snd (snd (snd (trackVisitor e track trackShape layer other st)))) \<le> c
        \<or> clearanceCount K (snd (snd (snd (trackVisitor e track trackShape layer other st)))) \<le> Suc c
          \<and> (\<exists>it. fst (snd (trackVisitor e track trackShape layer other st)) (fst K) = Some it
                   \<and> snd K \<in> layers it)"
      by simp
  qed
qed

lemma trackQuery_trackMemo:
  assumes "trackMemo K c st"
  shows "trackMemo K c (QueryColliding (trackFilter e track layer)
                          (trackVisitor e track trackShape layer) candidates st)"
proof (rule QueryColliding_invariant
    [where I = "trackMemo K c"
       and J = "\<lambda>other st'. trackMemo K c st'
                  \<and> (K = (pairKey track other, layer) \<longrightarrow> clearanceCount K (snd (snd st')) \<le> c)
                  \<and> (\<exists>it. fst st' (pairKey track other) = Some it \<and> layer \<in> layers it)"])
  show "trackMemo K c st" by (rule assms)
next
  fix other :: BOARD_ITEM and st' :: track_phase
  assume "trackMemo K c st'"
  then show "if fst (trackFilter e track layer other st')
      then trackMemo K c (snd (trackFilter e track layer other st'))
           \<and> (K = (pairKey track other, layer)
                \<longrightarrow> clearanceCount K (snd (snd (snd (trackFilter e track layer other st')))) \<le> c)
           \<and> (\<exists>it. fst (snd (trackFilter e track layer other st')) (pairKey track other) = Some it
                    \<and> layer \<in> layers it)
      else trackMemo K c (snd (trackFilter e track layer other st'))"
    using trackFilter_trackMemo [of K c st' e track layer other]
      trackFilter_accepts_fresh [of track other layer c st' e]
      trackFilter_accepts_memo [of e track layer other st']
    by auto
next
  fix other :: BOARD_ITEM and st' :: track_phase
  assume "trackMemo K c st'
            \<and> (K = (pairKey track other, layer) \<longrightarrow> clearanceCount K (snd (snd st')) \<le> c)
            \<and> (\<exists>it. fst st' (pairKey track other) = Some it \<and> layer \<in> layers it)"
  then show "trackMemo K c (snd (trackVisitor e track trackShape layer other st'))"
    by (intro trackVisitor_trackMemo) blast+
qed

lemma trackLayers_trackMemo:
  assumes "zoneHits K [track] (\<lambda>i. UNIV) (m_DRCCopperZones (m_board e)) = 0"
    and "distinct (map addr (m_DRCCopperZones (m_board e)))"
    and "trackMemo K c st"
  shows "trackMemo K c (trackLayers e track layerSeq st)"
  using assms(3)
proof (induction layerSeq arbitrary: st)
  case Nil
  then show ?case by simp
next
  case (Cons layer layerSeq)
  let ?zones = "m_DRCCopperZones (m_board e)"
  let ?q = "QueryColliding (trackFilter e track layer)
              (trackVisitor e track (GetEffectiveShape track layer) layer)
              (CopperItemRTree (m_board e) track layer) st"
  let ?s2 = "trackZones e track layer ?zones (snd (snd ?q))"
  have "trackMemo K c ?q"
    using Cons.prems by (rule trackQuery_trackMemo)
  then have a: "trackMemo K c (fst ?q, fst (snd ?q), snd (snd ?q))" by simp
  have "zoneHits K [track] (\<lambda>i. {layer}) ?zones \<le> zoneHits K [track] (\<lambda>i. UNIV) ?zones"
    by (rule zoneHits_mono_layers) simp
  with assms(1) trackZones_clearanceCount [OF assms(2), of K e track layer "snd (snd ?q)"]
  have "clearanceCount K ?s2 \<le> clearanceCount K (snd (snd ?q))" by simp
  with a have "trackMemo K c (fst ?q, fst (snd ?q), ?s2)"
    by (rule trackMemo_state)
  then show ?case
    using Cons.IH by (simp add: case_prod_beta)
qed

lemma tracksLoop_trackMemo:
  assumes "zoneHits K tracks (\<lambda>i. UNIV) (m_DRCCopperZones (m_board e)) = 0"
    and "distinct (map addr (m_DRCCopperZones (m_board e)))"
    and "trackMemo K c st"
  shows "trackMemo K c (tracksLoop e tracks st)"
  using assms(1,3)
proof (induction tracks arbitrary: st)
  case Nil
  then show ?case by simp
next
  case (Cons track tracks)
  obtain checkedPairs freePads s where st: "st = (checkedPairs, freePads, s)" by (cases st)
  let ?zones = "m_DRCCopperZones (m_board e)"
  let ?layers = "LSET_Seq (GetLayerSet track \<inter> CopperLayers (m_board e))"
  let ?st0 = "(checkedPairs, freePads, s\<lparr>tick := Suc (tick s)\<rparr>)"
  from Cons.prems(1) have z: "zoneHits K [track] (\<lambda>i. UNIV) ?zones = 0"
    "zoneHits K tracks (\<lambda>i. UNIV) ?zones = 0"
    by (auto simp: zoneHits_def split: if_splits)
  from Cons.prems(2) have m0: "trackMemo K c ?st0"
    unfolding st by (rule trackMemo_state) simp
  then have "trackMemo K c (trackLayers e track ?layers ?st0)"
    by (intro trackLayers_trackMemo z assms(2))
  then have "trackMemo K c (tracksLoop e tracks (trackLayers e track ?layers ?st0))"
    by (intro Cons.IH z)
  with m0 show ?case
    by (simp add: st progress_def split: bool.splits)
qed

lemma zoneHits_nonzero:
  assumes "zoneHits K items L zones \<noteq> 0"
  shows "touches (addr ` set items) K"
    and "touches (addr ` set zones) K"
    and "addr ` set items \<inter> A = {} \<Longrightarrow> addr ` set zones \<inter> A = {} \<Longrightarrow> \<not> touches A K"
proof -
  from assms obtain item zone layer
    where k: "K = (pairKey item zone, layer)" "item \<in> set items" "zone \<in> set zones"
    by (auto simp: zoneHits_def split: if_splits)
  then show "touches (addr ` set items) K" "touches (addr ` set zones) K"
    by simp_all
  show "\<not> touches A K" if "addr ` set items \<inter> A = {}" "addr ` set zones \<inter> A = {}"
    using k that by auto
qed

lemma zoneHits_le_one: "zoneHits K items L zones \<le> 1"
  by (simp add: zoneHits_def)

lemma wf_board_addrs:
  assumes "wf_board b"
  shows "distinct (map addr (Tracks b))"
    and "distinct (map addr (allPads b))"
    and "distinct (map addr (allGraphics b))"
    and "distinct (map addr (m_DRCCopperZones b))"
    and "addr ` set (Tracks b) \<inter> addr ` set (allPads b) = {}"
    and "addr ` set (Tracks b) \<inter> addr ` set (allGraphics b) = {}"
    and "addr ` set (Tracks b) \<inter> addr ` set (m_DRCCopperZones b) = {}"
    and "addr ` set (allPads b) \<inter> addr ` set (allGraphics b) = {}"
    and "addr ` set (allPads b) \<inter> addr ` set (m_DRCCopperZones b) = {}"
    and "addr ` set (allGraphics b) \<inter> addr ` set (m_DRCCopperZones b) = {}"
  using assms unfolding wf_board_def
  by (simp_all add: image_Un Int_Un_distrib)

lemma wf_board_rtree:
  assumes "wf_board b" and "other \<in> set (CopperItemRTree b item layer)"
  shows "addr other \<notin> addr ` set (m_DRCCopperZones b)"
    and "addr other \<in> addr ` set (Tracks b) \<Longrightarrow> is_PCB_TRACK other"
  using assms unfolding wf_board_def by blast+

text \<open>The track phase adds at most one violation for \<open>K\<close>, and none unless a track is in \<open>K\<close>.\<close>
lemma testTrackClearances_clearanceCount:
  assumes "wf_board (m_board e)"
  shows "clearanceCount K (testTrackClearances e s)
           \<le> clearanceCount K s
               + (if touches (addr ` set (Tracks (m_board e))) K then 1 else 0)"
proof -
  let ?b = "m_board e"
  let ?zones = "m_DRCCopperZones ?b"
  let ?T = "addr ` set (Tracks ?b)" and ?Z = "addr ` set ?zones"
  let ?st = "(Map.empty, Map.empty, emit (EvAux ''Testing tracks & vias...'') s)
               :: track_phase"
  from assms have d: "distinct (map addr (Tracks ?b))" "distinct (map addr ?zones)"
    and tz: "\<forall>track \<in> set (Tracks ?b). addr track \<notin> ?Z"
    and rt: "\<forall>item layer. \<forall>other \<in> set (CopperItemRTree ?b item layer). addr other \<notin> ?Z"
    by (auto simp: wf_board_def)
  have zh: "zoneHits K (Tracks ?b) (\<lambda>i. UNIV) ?zones \<noteq> 0 \<Longrightarrow> touches ?T K \<and> touches ?Z K"
    by (auto simp: zoneHits_def split: if_splits)
  show ?thesis
  proof (cases "touches ?Z K \<or> \<not> touches ?T K")
    case True
    have "\<forall>track \<in> set (Tracks ?b). \<forall>layer. \<forall>other \<in> set (CopperItemRTree ?b track layer).
            hit K track other layer = 0"
    proof (intro ballI allI)
      fix track layer other
      assume "track \<in> set (Tracks ?b)" "other \<in> set (CopperItemRTree ?b track layer)"
      with tz rt True show "hit K track other layer = 0"
        by (auto simp: hit_def)
    qed
    then have "clearanceCount K (snd (snd (tracksLoop e (Tracks ?b) ?st)))
                 \<le> clearanceCount K (snd (snd ?st)) + zoneHits K (Tracks ?b) (\<lambda>i. UNIV) ?zones"
      using d tz by (intro tracksLoop_zone_bound) auto
    moreover have "zoneHits K (Tracks ?b) (\<lambda>i. UNIV) ?zones
                     \<le> (if touches ?T K then 1 else 0)"
      using zh by (auto simp: zoneHits_def)
    ultimately show ?thesis
      by (simp add: testTrackClearances_def)
  next
    case False
    with zh have "zoneHits K (Tracks ?b) (\<lambda>i. UNIV) ?zones = 0" by blast
    moreover have "trackMemo K (clearanceCount K s) ?st"
      by (simp add: trackMemo_def)
    ultimately have "trackMemo K (clearanceCount K s) (tracksLoop e (Tracks ?b) ?st)"
      using d by (intro tracksLoop_trackMemo)
    with False show ?thesis
      by (auto simp: testTrackClearances_def trackMemo_def)
  qed
qed

lemma zoneHits_append:
  assumes "distinct (map addr (xs @ ys))"
    and "\<forall>i \<in> set (xs @ ys). addr i \<notin> addr ` set zones"
  shows "zoneHits K xs L zones + zoneHits K ys L zones = zoneHits K (xs @ ys) L zones"
proof -
  define P where "P = (\<lambda>i. \<exists>layer \<in> L i. \<exists>zone \<in> set zones. K = (pairKey i zone, layer))"
  have "pairKey j z' \<noteq> pairKey i z"
    if "z \<in> set zones" "z' \<in> set zones" "i \<in> set xs" "j \<in> set ys" for z z' i j
    using that assms by (auto simp: pairKey_eq_iff image_iff)
  then have "\<not> (P i \<and> P j)" if "i \<in> set xs" "j \<in> set ys" for i j
    using that unfolding P_def by (metis prod.inject)
  moreover have "zoneHits K l L zones = (if \<exists>i \<in> set l. P i then 1 else 0)" for l
    by (simp add: zoneHits_def P_def)
  ultimately show ?thesis
    by auto
qed

lemma padZones_clearanceCount:
  assumes "distinct (map addr zones)"
  shows "clearanceCount K (snd (padZones e pad layer zones s))
           \<le> clearanceCount K s + zoneHits K [pad] (\<lambda>i. {layer}) zones"
  using assms
proof (induction zones arbitrary: s)
  case Nil
  then show ?case by simp
next
  case (Cons zone zones)
  let ?s1 = "testItemAgainstZone e pad zone layer s"
  have a: "clearanceCount K ?s1 \<le> clearanceCount K s + hit K pad zone layer"
    by (rule testItemAgainstZone_clearanceCount)
  have b: "clearanceCount K (snd (padZones e pad layer zones s'))
             \<le> clearanceCount K s' + zoneHits K [pad] (\<lambda>i. {layer}) zones" for s'
    using Cons by simp
  have c: "hit K pad zone layer + zoneHits K [pad] (\<lambda>i. {layer}) zones
             = zoneHits K [pad] (\<lambda>i. {layer}) (zone # zones)"
    using Cons.prems by (intro zoneHits_zone_Cons) simp
  show ?case
    using a b [of "?s1\<lparr>tick := Suc (tick ?s1)\<rparr>"] c
    by (simp add: cancelled_def split: bool.splits)
qed

lemma padFilter_state [simp]: "snd (snd (padFilter pad other st)) = snd st"
  by (cases st) (simp add: padFilter_def)

lemma padVisitor_memo [simp]: "fst (snd (padVisitor e pad padShape layer other st)) = fst st"
  by (cases st) (simp add: padVisitor_def case_prod_beta)

lemma padVisitor_clearanceCount:
  "clearanceCount K (snd (snd (padVisitor e pad padShape layer other st)))
     \<le> clearanceCount K (snd st) + (if is_PCB_TRACK other then 0 else hit K pad other layer)"
  using testPadAgainstItem_clearanceCount [of K e pad padShape layer other "snd st"]
  by (cases st) (simp add: padVisitor_def case_prod_beta)

lemma padQuery_clearanceCount:
  assumes "\<forall>other \<in> set candidates. is_PCB_TRACK other \<or> hit K pad other layer = 0"
  shows "clearanceCount K (snd (QueryColliding (padFilter pad)
                                 (padVisitor e pad padShape layer) candidates st))
           \<le> clearanceCount K (snd st)"
proof (rule QueryColliding_invariant
    [where I = "\<lambda>st'. clearanceCount K (snd st') \<le> clearanceCount K (snd st)"
       and J = "\<lambda>other st'. clearanceCount K (snd st') \<le> clearanceCount K (snd st)
                  \<and> other \<in> set candidates"])
  show "clearanceCount K (snd st) \<le> clearanceCount K (snd st)" by simp
next
  fix other :: BOARD_ITEM and st' :: pad_phase
  assume "other \<in> set candidates" "clearanceCount K (snd st') \<le> clearanceCount K (snd st)"
  then show "if fst (padFilter pad other st')
      then clearanceCount K (snd (snd (padFilter pad other st'))) \<le> clearanceCount K (snd st)
             \<and> other \<in> set candidates
      else clearanceCount K (snd (snd (padFilter pad other st'))) \<le> clearanceCount K (snd st)"
    by simp
next
  fix other :: BOARD_ITEM and st' :: pad_phase
  assume j: "clearanceCount K (snd st') \<le> clearanceCount K (snd st) \<and> other \<in> set candidates"
  with assms have "is_PCB_TRACK other \<or> hit K pad other layer = 0" by simp
  with padVisitor_clearanceCount [of K e pad padShape layer other st'] j
  show "clearanceCount K (snd (snd (padVisitor e pad padShape layer other st')))
          \<le> clearanceCount K (snd st)"
    by (auto split: if_splits)
qed

lemma padLayers_zone_bound:
  assumes "\<forall>layer. \<forall>other \<in> set (CopperItemRTree (m_board e) pad layer).
             is_PCB_TRACK other \<or> hit K pad other layer = 0"
    and "distinct layerSeq" and "distinct (map addr (m_DRCCopperZones (m_board e)))"
  shows "clearanceCount K (snd (snd (padLayers e pad layerSeq st)))
           \<le> clearanceCount K (snd st)
               + zoneHits K [pad] (\<lambda>i. set layerSeq) (m_DRCCopperZones (m_board e))"
  using assms(2)
proof (induction layerSeq arbitrary: st)
  case Nil
  then show ?case by (simp add: zoneHits_def)
next
  case (Cons layer layerSeq)
  let ?zones = "m_DRCCopperZones (m_board e)"
  let ?q = "QueryColliding (padFilter pad) (padVisitor e pad (GetEffectiveShape pad layer) layer)
              (CopperItemRTree (m_board e) pad layer) st"
  let ?z = "padZones e pad layer ?zones (snd ?q)"
  have a: "clearanceCount K (snd ?q) \<le> clearanceCount K (snd st)"
    using assms(1) by (intro padQuery_clearanceCount) simp
  have b: "clearanceCount K (snd ?z)
             \<le> clearanceCount K (snd ?q) + zoneHits K [pad] (\<lambda>i. {layer}) ?zones"
    by (rule padZones_clearanceCount [OF assms(3)])
  have c: "clearanceCount K (snd (snd (padLayers e pad layerSeq (fst ?q, snd ?z))))
             \<le> clearanceCount K (snd ?z) + zoneHits K [pad] (\<lambda>i. set layerSeq) ?zones"
    using Cons.IH [of "(fst ?q, snd ?z)"] Cons.prems by simp
  have d: "zoneHits K [pad] (\<lambda>i. {layer}) ?zones + zoneHits K [pad] (\<lambda>i. set layerSeq) ?zones
             = zoneHits K [pad] (\<lambda>i. set (layer # layerSeq)) ?zones"
    using Cons.prems by (intro zoneHits_layer_Cons) simp
  show ?case
    using a b c d by (simp add: case_prod_beta split: bool.splits)
qed

lemma padsLoop_zone_bound:
  assumes "\<forall>pad \<in> set pads. \<forall>layer. \<forall>other \<in> set (CopperItemRTree (m_board e) pad layer).
             is_PCB_TRACK other \<or> hit K pad other layer = 0"
    and "distinct (map addr pads)"
    and "distinct (map addr (m_DRCCopperZones (m_board e)))"
    and "\<forall>pad \<in> set pads. addr pad \<notin> addr ` set (m_DRCCopperZones (m_board e))"
  shows "clearanceCount K (snd (snd (padsLoop e pads st)))
           \<le> clearanceCount K (snd st)
               + zoneHits K pads (\<lambda>i. UNIV) (m_DRCCopperZones (m_board e))"
  using assms(1,2,4)
proof (induction pads arbitrary: st)
  case Nil
  then show ?case by simp
next
  case (Cons pad pads)
  let ?zones = "m_DRCCopperZones (m_board e)"
  let ?layers = "LSET_Seq (GetLayerSet pad \<inter> CopperLayers (m_board e))"
  let ?l = "padLayers e pad ?layers st"
  let ?s1 = "snd (snd ?l)"
  let ?st2 = "(fst (snd ?l), ?s1\<lparr>tick := Suc (tick ?s1)\<rparr>)"
  have a: "clearanceCount K ?s1
             \<le> clearanceCount K (snd st) + zoneHits K [pad] (\<lambda>i. set ?layers) ?zones"
    using padLayers_zone_bound [of e pad K ?layers st] Cons.prems(1) assms(3)
    by (simp add: LSET_Seq_def)
  have a': "zoneHits K [pad] (\<lambda>i. set ?layers) ?zones \<le> zoneHits K [pad] (\<lambda>i. UNIV) ?zones"
    by (rule zoneHits_mono_layers) simp
  have b: "clearanceCount K (snd (snd (padsLoop e pads ?st2)))
             \<le> clearanceCount K ?s1 + zoneHits K pads (\<lambda>i. UNIV) ?zones"
    using Cons.IH [of ?st2] Cons.prems by simp
  have c: "zoneHits K [pad] (\<lambda>i. UNIV) ?zones + zoneHits K pads (\<lambda>i. UNIV) ?zones
             = zoneHits K (pad # pads) (\<lambda>i. UNIV) ?zones"
    using Cons.prems by (intro zoneHits_item_Cons) auto
  show ?case
    using a a' b c by (simp add: case_prod_beta progress_def split: bool.splits)
qed

lemma footprintsLoop_zone_bound:
  assumes "\<forall>pad \<in> set (concat (map Pads footprints)). \<forall>layer.
             \<forall>other \<in> set (CopperItemRTree (m_board e) pad layer).
               is_PCB_TRACK other \<or> hit K pad other layer = 0"
    and "distinct (map addr (concat (map Pads footprints)))"
    and "distinct (map addr (m_DRCCopperZones (m_board e)))"
    and "\<forall>pad \<in> set (concat (map Pads footprints)).
           addr pad \<notin> addr ` set (m_DRCCopperZones (m_board e))"
  shows "clearanceCount K (snd (footprintsLoop e footprints st))
           \<le> clearanceCount K (snd st)
               + zoneHits K (concat (map Pads footprints)) (\<lambda>i. UNIV)
                   (m_DRCCopperZones (m_board e))"
  using assms(1,2,4)
proof (induction footprints arbitrary: st)
  case Nil
  then show ?case by simp
next
  case (Cons footprint footprints)
  let ?zones = "m_DRCCopperZones (m_board e)"
  let ?rest = "concat (map Pads footprints)"
  let ?l = "padsLoop e (Pads footprint) st"
  let ?s1 = "snd (snd ?l)"
  let ?st2 = "(fst (snd ?l), ?s1\<lparr>tick := Suc (tick ?s1)\<rparr>)"
  have a: "clearanceCount K ?s1
             \<le> clearanceCount K (snd st) + zoneHits K (Pads footprint) (\<lambda>i. UNIV) ?zones"
    using Cons.prems assms(3) by (intro padsLoop_zone_bound) auto
  have b: "clearanceCount K (snd (footprintsLoop e footprints ?st2))
             \<le> clearanceCount K ?s1 + zoneHits K ?rest (\<lambda>i. UNIV) ?zones"
    using Cons.IH [of ?st2] Cons.prems by simp
  have c: "zoneHits K (Pads footprint) (\<lambda>i. UNIV) ?zones + zoneHits K ?rest (\<lambda>i. UNIV) ?zones
             = zoneHits K (Pads footprint @ ?rest) (\<lambda>i. UNIV) ?zones"
    using Cons.prems by (intro zoneHits_append) simp_all
  show ?case
    using a b c by (simp add: case_prod_beta cancelled_def split: bool.splits)
qed

lemma padMemo_state:
  assumes "padMemo K c (checkedPairs, s)" and "clearanceCount K s' \<le> clearanceCount K s"
  shows "padMemo K c (checkedPairs, s')"
  using assms by (auto simp: padMemo_def)

lemma padFilter_padMemo:
  assumes "padMemo K c st"
  shows "padMemo K c (snd (padFilter pad other st))"
  using assms
  by (cases st) (auto simp: padFilter_def padMemo_def)

lemma padFilter_accepts_fresh:
  assumes "padMemo (pairKey pad other, layer) c st" and "fst (padFilter pad other st)"
  shows "clearanceCount (pairKey pad other, layer) (snd st) \<le> c"
  using assms
  by (cases st) (auto simp: padFilter_def padMemo_def split: if_splits)

lemma padFilter_accepts_memo:
  assumes "fst (padFilter pad other st)"
  shows "fst (snd (padFilter pad other st)) (pairKey pad other) \<noteq> None"
  using assms
  by (cases st) (auto simp: padFilter_def split: if_splits)

lemma padVisitor_padMemo:
  assumes "padMemo K c st"
    and "fst K = pairKey pad other \<Longrightarrow> clearanceCount K (snd st) \<le> c"
    and "fst st (pairKey pad other) \<noteq> None"
  shows "padMemo K c (snd (padVisitor e pad padShape layer other st))"
proof (cases "K = (pairKey pad other, layer)")
  case True
  then have "clearanceCount K (snd (snd (padVisitor e pad padShape layer other st))) \<le> Suc c"
    using padVisitor_clearanceCount [of K e pad padShape layer other st] assms(2)
      hit_le_one [of K pad other layer]
    by (auto split: if_splits)
  with assms(3) True show ?thesis
    by (simp add: padMemo_def)
next
  case False
  then have "clearanceCount K (snd (snd (padVisitor e pad padShape layer other st)))
               \<le> clearanceCount K (snd st)"
    using padVisitor_clearanceCount [of K e pad padShape layer other st]
    by (auto simp: hit_def split: if_splits)
  with assms(1) show ?thesis
    by (auto simp: padMemo_def)
qed

lemma padQuery_padMemo:
  assumes "padMemo K c st"
  shows "padMemo K c (QueryColliding (padFilter pad) (padVisitor e pad padShape layer)
                        candidates st)"
proof (rule QueryColliding_invariant
    [where I = "padMemo K c"
       and J = "\<lambda>other st'. padMemo K c st'
                  \<and> (fst K = pairKey pad other \<longrightarrow> clearanceCount K (snd st') \<le> c)
                  \<and> fst st' (pairKey pad other) \<noteq> None"])
  show "padMemo K c st" by (rule assms)
next
  fix other :: BOARD_ITEM and st' :: pad_phase
  assume "padMemo K c st'"
  then show "if fst (padFilter pad other st')
      then padMemo K c (snd (padFilter pad other st'))
           \<and> (fst K = pairKey pad other
                \<longrightarrow> clearanceCount K (snd (snd (padFilter pad other st'))) \<le> c)
           \<and> fst (snd (padFilter pad other st')) (pairKey pad other) \<noteq> None
      else padMemo K c (snd (padFilter pad other st'))"
    using padFilter_padMemo [of K c st' pad other]
      padFilter_accepts_fresh [of pad other "snd K" c st']
      padFilter_accepts_memo [of pad other st']
    by (cases K) auto
next
  fix other :: BOARD_ITEM and st' :: pad_phase
  assume "padMemo K c st'
            \<and> (fst K = pairKey pad other \<longrightarrow> clearanceCount K (snd st') \<le> c)
            \<and> fst st' (pairKey pad other) \<noteq> None"
  then show "padMemo K c (snd (padVisitor e pad padShape layer other st'))"
    by (intro padVisitor_padMemo) blast+
qed

lemma padLayers_padMemo:
  assumes "zoneHits K [pad] (\<lambda>i. UNIV) (m_DRCCopperZones (m_board e)) = 0"
    and "distinct (map addr (m_DRCCopperZones (m_board e)))"
    and "padMemo K c st"
  shows "padMemo K c (snd (padLayers e pad layerSeq st))"
  using assms(3)
proof (induction layerSeq arbitrary: st)
  case Nil
  then show ?case by simp
next
  case (Cons layer layerSeq)
  let ?zones = "m_DRCCopperZones (m_board e)"
  let ?q = "QueryColliding (padFilter pad) (padVisitor e pad (GetEffectiveShape pad layer) layer)
              (CopperItemRTree (m_board e) pad layer) st"
  let ?z = "padZones e pad layer ?zones (snd ?q)"
  have "padMemo K c ?q"
    using Cons.prems by (rule padQuery_padMemo)
  then have a: "padMemo K c (fst ?q, snd ?q)" by simp
  have "zoneHits K [pad] (\<lambda>i. {layer}) ?zones \<le> zoneHits K [pad] (\<lambda>i. UNIV) ?zones"
    by (rule zoneHits_mono_layers) simp
  with assms(1) padZones_clearanceCount [OF assms(2), of K e pad layer "snd ?q"]
  have "clearanceCount K (snd ?z) \<le> clearanceCount K (snd ?q)" by simp
  with a have b: "padMemo K c (fst ?q, snd ?z)"
    by (rule padMemo_state)
  then have "padMemo K c (snd (padLayers e pad layerSeq (fst ?q, snd ?z)))"
    by (rule Cons.IH)
  with b show ?case
    by (simp add: case_prod_beta split: bool.splits)
qed

lemma padsLoop_padMemo:
  assumes "zoneHits K pads (\<lambda>i. UNIV) (m_DRCCopperZones (m_board e)) = 0"
    and "distinct (map addr (m_DRCCopperZones (m_board e)))"
    and "padMemo K c st"
  shows "padMemo K c (snd (padsLoop e pads st))"
  using assms(1,3)
proof (induction pads arbitrary: st)
  case Nil
  then show ?case by simp
next
  case (Cons pad pads)
  let ?zones = "m_DRCCopperZones (m_board e)"
  let ?layers = "LSET_Seq (GetLayerSet pad \<inter> CopperLayers (m_board e))"
  let ?l = "padLayers e pad ?layers st"
  let ?s1 = "snd (snd ?l)"
  let ?st2 = "(fst (snd ?l), ?s1\<lparr>tick := Suc (tick ?s1)\<rparr>)"
  from Cons.prems(1) have z: "zoneHits K [pad] (\<lambda>i. UNIV) ?zones = 0"
    "zoneHits K pads (\<lambda>i. UNIV) ?zones = 0"
    by (auto simp: zoneHits_def split: if_splits)
  have a: "padMemo K c (snd ?l)"
    using Cons.prems(2) by (intro padLayers_padMemo z assms(2))
  then have "padMemo K c (fst (snd ?l), ?s1)" by simp
  then have b: "padMemo K c ?st2"
    by (rule padMemo_state) simp
  then have "padMemo K c (snd (padsLoop e pads ?st2))"
    by (intro Cons.IH z)
  with a b show ?case
    by (simp add: case_prod_beta progress_def split: bool.splits)
qed

lemma footprintsLoop_padMemo:
  assumes "zoneHits K (concat (map Pads footprints)) (\<lambda>i. UNIV) (m_DRCCopperZones (m_board e)) = 0"
    and "distinct (map addr (m_DRCCopperZones (m_board e)))"
    and "padMemo K c st"
  shows "padMemo K c (footprintsLoop e footprints st)"
  using assms(1,3)
proof (induction footprints arbitrary: st)
  case Nil
  then show ?case by simp
next
  case (Cons footprint footprints)
  let ?zones = "m_DRCCopperZones (m_board e)"
  let ?l = "padsLoop e (Pads footprint) st"
  let ?s1 = "snd (snd ?l)"
  let ?st2 = "(fst (snd ?l), ?s1\<lparr>tick := Suc (tick ?s1)\<rparr>)"
  from Cons.prems(1) have z: "zoneHits K (Pads footprint) (\<lambda>i. UNIV) ?zones = 0"
    "zoneHits K (concat (map Pads footprints)) (\<lambda>i. UNIV) ?zones = 0"
    by (auto simp: zoneHits_def split: if_splits)
  have a: "padMemo K c (snd ?l)"
    using Cons.prems(2) by (intro padsLoop_padMemo z assms(2))
  then have "padMemo K c (fst (snd ?l), ?s1)" by simp
  then have b: "padMemo K c ?st2"
    by (rule padMemo_state) simp
  then have "padMemo K c (footprintsLoop e footprints ?st2)"
    by (intro Cons.IH z)
  with a b show ?case
    by (simp add: case_prod_beta cancelled_def split: bool.splits)
qed

text \<open>
  The pad phase adds at most one violation for \<open>K\<close>, and none unless a pad is in \<open>K\<close>
  and no track is.
\<close>
lemma testPadClearances_clearanceCount:
  assumes "wf_board (m_board e)"
  shows "clearanceCount K (testPadClearances e s)
           \<le> clearanceCount K s
               + (if \<not> touches (addr ` set (Tracks (m_board e))) K
                     \<and> touches (addr ` set (allPads (m_board e))) K then 1 else 0)"
proof -
  let ?b = "m_board e"
  let ?zones = "m_DRCCopperZones ?b"
  define pads where "pads = concat (map Pads (Footprints ?b))"
  let ?T = "addr ` set (Tracks ?b)" and ?P = "addr ` set pads" and ?Z = "addr ` set ?zones"
  let ?st = "(Map.empty, emit (EvAux ''Testing pads...'') s) :: pad_phase"
  have ap: "allPads ?b = pads"
    by (simp add: allPads_def pads_def)
  note w = wf_board_addrs [OF assms, unfolded ap]
  have d: "distinct (map addr pads)" "distinct (map addr ?zones)"
    by (rule w)+
  have pz: "\<forall>pad \<in> set pads. addr pad \<notin> ?Z"
    using w(9) by blast
  have pt: "\<forall>pad \<in> set pads. addr pad \<notin> ?T"
    using w(5) by blast
  have zh: "zoneHits K pads (\<lambda>i. UNIV) ?zones \<noteq> 0
              \<Longrightarrow> touches ?P K \<and> touches ?Z K \<and> \<not> touches ?T K"
    using zoneHits_nonzero(1,2) [of K pads "\<lambda>i. UNIV" ?zones]
      zoneHits_nonzero(3) [of K pads "\<lambda>i. UNIV" ?zones ?T] w(5,7)
    by blast
  show ?thesis
  proof (cases "touches ?Z K \<or> touches ?T K \<or> \<not> touches ?P K")
    case True
    have "\<forall>pad \<in> set pads. \<forall>layer. \<forall>other \<in> set (CopperItemRTree ?b pad layer).
            is_PCB_TRACK other \<or> hit K pad other layer = 0"
    proof (intro ballI allI)
      fix pad layer other
      assume "pad \<in> set pads" "other \<in> set (CopperItemRTree ?b pad layer)"
      with pz pt True wf_board_rtree [OF assms, of other pad layer]
      show "is_PCB_TRACK other \<or> hit K pad other layer = 0"
        by (auto simp: hit_def)
    qed
    then have "clearanceCount K (snd (footprintsLoop e (Footprints ?b) ?st))
                 \<le> clearanceCount K (snd ?st) + zoneHits K pads (\<lambda>i. UNIV) ?zones"
      using d pz unfolding pads_def by (intro footprintsLoop_zone_bound)
    moreover have "zoneHits K pads (\<lambda>i. UNIV) ?zones
                     \<le> (if \<not> touches ?T K \<and> touches ?P K then 1 else 0)"
      using zh zoneHits_le_one [of K pads "\<lambda>i. UNIV" ?zones]
      by (cases "zoneHits K pads (\<lambda>i. UNIV) ?zones = 0") simp_all
    ultimately show ?thesis
      by (simp add: testPadClearances_def ap)
  next
    case False
    with zh have "zoneHits K pads (\<lambda>i. UNIV) ?zones = 0" by blast
    moreover have "padMemo K (clearanceCount K s) ?st"
      by (simp add: padMemo_def)
    ultimately have "padMemo K (clearanceCount K s) (footprintsLoop e (Footprints ?b) ?st)"
      using d unfolding pads_def by (intro footprintsLoop_padMemo)
    with False show ?thesis
      by (auto simp: testPadClearances_def padMemo_def ap)
  qed
qed

lemma graphicZones_clearanceCount:
  assumes "distinct (map addr zones)"
  shows "clearanceCount K (graphicZones e item inheritedNet zones s)
           \<le> clearanceCount K s + zoneHits K [item] (\<lambda>i. {GetLayer item}) zones"
  using assms
proof (induction zones arbitrary: s inheritedNet)
  case Nil
  then show ?case by simp
next
  case (Cons zone zones)
  let ?k = "testKnockoutTextAgainstZone e item inheritedNet zone s"
  let ?s1 = "testItemAgainstZone e item zone (GetLayer item) s"
  have a: "clearanceCount K (snd ?k) \<le> clearanceCount K s + hit K item zone (GetLayer item)"
    by (rule testKnockoutTextAgainstZone_clearanceCount)
  have a': "clearanceCount K ?s1 \<le> clearanceCount K s + hit K item zone (GetLayer item)"
    by (rule testItemAgainstZone_clearanceCount)
  have b: "clearanceCount K (graphicZones e item inh zones s')
             \<le> clearanceCount K s' + zoneHits K [item] (\<lambda>i. {GetLayer item}) zones" for s' inh
    using Cons by simp
  have c: "hit K item zone (GetLayer item) + zoneHits K [item] (\<lambda>i. {GetLayer item}) zones
             = zoneHits K [item] (\<lambda>i. {GetLayer item}) (zone # zones)"
    using Cons.prems by (intro zoneHits_zone_Cons) simp
  show ?case
    using a a' c b [of "fst ?k" "(snd ?k)\<lparr>tick := Suc (tick (snd ?k))\<rparr>"]
      b [of inheritedNet "?s1\<lparr>tick := Suc (tick ?s1)\<rparr>"]
    by (simp add: cancelled_def case_prod_beta split: bool.splits)
qed

lemma testGraphicAgainstZone_clearanceCount:
  assumes "distinct (map addr (m_DRCCopperZones (m_board e)))"
  shows "clearanceCount K (testGraphicAgainstZone e item s)
           \<le> clearanceCount K s + zoneHits K [item] (\<lambda>i. UNIV) (m_DRCCopperZones (m_board e))"
proof -
  have "zoneHits K [item] (\<lambda>i. {GetLayer item}) (m_DRCCopperZones (m_board e))
          \<le> zoneHits K [item] (\<lambda>i. UNIV) (m_DRCCopperZones (m_board e))"
    by (rule zoneHits_mono_layers) simp
  with graphicZones_clearanceCount [OF assms, of K e item None s] show ?thesis
    by (simp add: testGraphicAgainstZone_def)
qed

lemma graphicsLoop_zone_bound:
  assumes "distinct (map addr items)"
    and "distinct (map addr (m_DRCCopperZones (m_board e)))"
    and "\<forall>item \<in> set items. addr item \<notin> addr ` set (m_DRCCopperZones (m_board e))"
  shows "clearanceCount K (snd (graphicsLoop e items s))
           \<le> clearanceCount K s + zoneHits K items (\<lambda>i. UNIV) (m_DRCCopperZones (m_board e))"
  using assms(1,3)
proof (induction items arbitrary: s)
  case Nil
  then show ?case by simp
next
  case (Cons item items)
  let ?zones = "m_DRCCopperZones (m_board e)"
  let ?s1 = "testGraphicAgainstZone e item s"
  have a: "clearanceCount K ?s1 \<le> clearanceCount K s + zoneHits K [item] (\<lambda>i. UNIV) ?zones"
    by (rule testGraphicAgainstZone_clearanceCount [OF assms(2)])
  have b: "clearanceCount K (snd (graphicsLoop e items (?s1\<lparr>tick := Suc (tick ?s1)\<rparr>)))
             \<le> clearanceCount K ?s1 + zoneHits K items (\<lambda>i. UNIV) ?zones"
    using Cons.IH [of "?s1\<lparr>tick := Suc (tick ?s1)\<rparr>"] Cons.prems by simp
  have c: "zoneHits K [item] (\<lambda>i. UNIV) ?zones + zoneHits K items (\<lambda>i. UNIV) ?zones
             = zoneHits K (item # items) (\<lambda>i. UNIV) ?zones"
    using Cons.prems by (intro zoneHits_item_Cons) auto
  show ?case
    using a b c by (simp add: progress_def split: bool.splits)
qed

lemma footprintGraphicsLoop_zone_bound:
  assumes "distinct (map addr (concat (map GraphicalItems footprints)))"
    and "distinct (map addr (m_DRCCopperZones (m_board e)))"
    and "\<forall>item \<in> set (concat (map GraphicalItems footprints)).
           addr item \<notin> addr ` set (m_DRCCopperZones (m_board e))"
  shows "clearanceCount K (footprintGraphicsLoop e footprints s)
           \<le> clearanceCount K s
               + zoneHits K (concat (map GraphicalItems footprints)) (\<lambda>i. UNIV)
                   (m_DRCCopperZones (m_board e))"
  using assms(1,3)
proof (induction footprints arbitrary: s)
  case Nil
  then show ?case by simp
next
  case (Cons footprint footprints)
  let ?zones = "m_DRCCopperZones (m_board e)"
  let ?rest = "concat (map GraphicalItems footprints)"
  let ?l = "graphicsLoop e (GraphicalItems footprint) s"
  have a: "clearanceCount K (snd ?l)
             \<le> clearanceCount K s + zoneHits K (GraphicalItems footprint) (\<lambda>i. UNIV) ?zones"
    using Cons.prems assms(2) by (intro graphicsLoop_zone_bound) auto
  have b: "clearanceCount K (footprintGraphicsLoop e footprints (snd ?l))
             \<le> clearanceCount K (snd ?l) + zoneHits K ?rest (\<lambda>i. UNIV) ?zones"
    using Cons.IH [of "snd ?l"] Cons.prems by simp
  have c: "zoneHits K (GraphicalItems footprint) (\<lambda>i. UNIV) ?zones
             + zoneHits K ?rest (\<lambda>i. UNIV) ?zones
             = zoneHits K (GraphicalItems footprint @ ?rest) (\<lambda>i. UNIV) ?zones"
    using Cons.prems by (intro zoneHits_append) simp_all
  show ?case
    using a b c by (simp add: case_prod_beta split: bool.splits)
qed

text \<open>
  The graphic phase adds at most one violation for \<open>K\<close>, and none unless a graphic item
  is in \<open>K\<close> and no track and no pad is.
\<close>
lemma testGraphicClearances_clearanceCount:
  assumes "wf_board (m_board e)"
  shows "clearanceCount K (testGraphicClearances e s)
           \<le> clearanceCount K s
               + (if \<not> touches (addr ` set (Tracks (m_board e))) K
                     \<and> \<not> touches (addr ` set (allPads (m_board e))) K
                     \<and> touches (addr ` set (allGraphics (m_board e))) K then 1 else 0)"
proof -
  let ?b = "m_board e"
  let ?zones = "m_DRCCopperZones ?b"
  define drawings where "drawings = Drawings ?b"
  define others where "others = concat (map GraphicalItems (Footprints ?b))"
  let ?s0 = "emit (EvAux ''Testing graphics...'') s"
  let ?l = "graphicsLoop e drawings ?s0"
  have ag: "allGraphics ?b = drawings @ others"
    by (simp add: allGraphics_def drawings_def others_def)
  note w = wf_board_addrs [OF assms, unfolded ag]
  have d: "distinct (map addr drawings)" "distinct (map addr others)"
    using w(3) by simp_all
  have gz: "\<forall>item \<in> set drawings. addr item \<notin> addr ` set ?zones"
    "\<forall>item \<in> set others. addr item \<notin> addr ` set ?zones"
    using w(10) by auto
  have a: "clearanceCount K (snd ?l)
             \<le> clearanceCount K s + zoneHits K drawings (\<lambda>i. UNIV) ?zones"
    using graphicsLoop_zone_bound [OF d(1) w(4) gz(1), of K ?s0] by simp
  have b: "clearanceCount K (footprintGraphicsLoop e (Footprints ?b) (snd ?l))
             \<le> clearanceCount K (snd ?l) + zoneHits K others (\<lambda>i. UNIV) ?zones"
    using d(2) w(4) gz(2) unfolding others_def by (intro footprintGraphicsLoop_zone_bound)
  have c: "zoneHits K drawings (\<lambda>i. UNIV) ?zones + zoneHits K others (\<lambda>i. UNIV) ?zones
             = zoneHits K (drawings @ others) (\<lambda>i. UNIV) ?zones"
    using w(3) gz by (intro zoneHits_append) auto
  have e: "zoneHits K (drawings @ others) (\<lambda>i. UNIV) ?zones
             \<le> (if \<not> touches (addr ` set (Tracks ?b)) K
                   \<and> \<not> touches (addr ` set (allPads ?b)) K
                   \<and> touches (addr ` set (drawings @ others)) K then 1 else 0)"
  proof (cases "zoneHits K (drawings @ others) (\<lambda>i. UNIV) ?zones = 0")
    case True
    then show ?thesis by simp
  next
    case False
    have gT: "addr ` set (drawings @ others) \<inter> addr ` set (Tracks ?b) = {}"
      using w(6) by (simp only: Int_commute)
    have zT: "addr ` set ?zones \<inter> addr ` set (Tracks ?b) = {}"
      using w(7) by (simp only: Int_commute)
    have gP: "addr ` set (drawings @ others) \<inter> addr ` set (allPads ?b) = {}"
      using w(8) by (simp only: Int_commute)
    have zP: "addr ` set ?zones \<inter> addr ` set (allPads ?b) = {}"
      using w(9) by (simp only: Int_commute)
    from zoneHits_nonzero(1) [OF False] zoneHits_nonzero(3) [OF False gT zT]
      zoneHits_nonzero(3) [OF False gP zP] zoneHits_le_one [of K "drawings @ others" "\<lambda>i. UNIV" ?zones]
    show ?thesis
      by (simp only: if_True simp_thms)
  qed
  have "clearanceCount K (testGraphicClearances e s)
          \<le> clearanceCount K s + zoneHits K (drawings @ others) (\<lambda>i. UNIV) ?zones"
    using a b c
    by (simp add: testGraphicClearances_def case_prod_beta drawings_def [symmetric]
        split: bool.splits)
  with e show ?thesis
    unfolding ag by simp
qed

lemma zoneBLoop_ids:
  "set (map taskId (zoneBLoop e layer ia ibs)) \<subseteq> (\<lambda>ib. (ia, ib, layer)) ` set ibs
   \<and> (distinct ibs \<longrightarrow> distinct (map taskId (zoneBLoop e layer ia ibs)))"
  by (induction ibs) (auto simp: Let_def taskId_def)

lemma zoneALoop_ids:
  "set (map taskId (fst (snd (zoneALoop e layer ias s))))
     \<subseteq> zonePairs (set ias) (length (m_DRCCopperZones (m_board e))) {layer}
   \<and> (distinct ias \<longrightarrow> distinct (map taskId (fst (snd (zoneALoop e layer ias s)))))"
proof (induction ias arbitrary: s)
  case Nil
  then show ?case by simp
next
  case (Cons ia ias)
  let ?n = "length (m_DRCCopperZones (m_board e))"
  let ?s1 = "s\<lparr>tick := Suc (tick s)\<rparr>"
  define tasks where "tasks = (if \<not> IsOnLayer (m_DRCCopperZones (m_board e) ! ia) layer then []
                               else zoneBLoop e layer ia [Suc ia ..< ?n])"
  define tasks' where "tasks' = fst (snd (zoneALoop e layer ias ?s1))"
  have a: "set (map taskId tasks) \<subseteq> zonePairs {ia} ?n {layer}" "distinct (map taskId tasks)"
    using zoneBLoop_ids [of e layer ia "[Suc ia ..< ?n]"]
    by (auto simp: tasks_def zonePairs_def)
  have b: "set (map taskId tasks') \<subseteq> zonePairs (set ias) ?n {layer}"
    "distinct ias \<Longrightarrow> distinct (map taskId tasks')"
    using Cons [of ?s1] by (simp_all add: tasks'_def)
  have c: "set (map taskId (tasks @ tasks')) \<subseteq> zonePairs (set (ia # ias)) ?n {layer}"
    using a(1) b(1) by (auto simp: zonePairs_def)
  have d: "distinct (map taskId (tasks @ tasks'))" if "distinct (ia # ias)"
  proof -
    from that a(1) b(1) have "set (map taskId tasks) \<inter> set (map taskId tasks') = {}"
      by (auto simp: zonePairs_def)
    with that a(2) b(2) show ?thesis by simp
  qed
  have "fst (snd (zoneALoop e layer (ia # ias) s)) = []
        \<or> fst (snd (zoneALoop e layer (ia # ias) s)) = tasks @ tasks'"
    by (simp add: progress_def Let_def case_prod_beta tasks_def tasks'_def split: bool.splits)
  with c d show ?case
    by (elim disjE) (auto simp del: zoneALoop.simps)
qed

lemma zoneLayersLoop_ids:
  "set (map taskId (fst (snd (zoneLayersLoop e layerSeq s))))
     \<subseteq> zonePairs UNIV (length (m_DRCCopperZones (m_board e))) (set layerSeq)
   \<and> (distinct layerSeq \<longrightarrow> distinct (map taskId (fst (snd (zoneLayersLoop e layerSeq s)))))"
proof (induction layerSeq arbitrary: s)
  case Nil
  then show ?case by simp
next
  case (Cons layer layerSeq)
  let ?n = "length (m_DRCCopperZones (m_board e))"
  let ?l = "zoneALoop e layer [0 ..< ?n] s"
  define tasks where "tasks = fst (snd ?l)"
  define tasks' where "tasks' = fst (snd (zoneLayersLoop e layerSeq (snd (snd ?l))))"
  define skipped where "skipped = fst (snd (zoneLayersLoop e layerSeq s))"
  have a: "set (map taskId tasks) \<subseteq> zonePairs UNIV ?n {layer}" "distinct (map taskId tasks)"
    using zoneALoop_ids [of e layer "[0 ..< ?n]" s]
    by (auto simp: tasks_def zonePairs_def)
  have b: "set (map taskId tasks') \<subseteq> zonePairs UNIV ?n (set layerSeq)"
    "distinct layerSeq \<Longrightarrow> distinct (map taskId tasks')"
    using Cons [of "snd (snd ?l)"] by (simp_all add: tasks'_def)
  have b': "set (map taskId skipped) \<subseteq> zonePairs UNIV ?n (set layerSeq)"
    "distinct layerSeq \<Longrightarrow> distinct (map taskId skipped)"
    using Cons [of s] by (simp_all add: skipped_def)
  have c: "set (map taskId (tasks @ tasks')) \<subseteq> zonePairs UNIV ?n (set (layer # layerSeq))"
    "set (map taskId tasks) \<subseteq> zonePairs UNIV ?n (set (layer # layerSeq))"
    "set (map taskId skipped) \<subseteq> zonePairs UNIV ?n (set (layer # layerSeq))"
    using a(1) b(1) b'(1) by (auto simp: zonePairs_def)
  have d: "distinct (map taskId (tasks @ tasks'))" "distinct (map taskId skipped)"
    if "distinct (layer # layerSeq)"
  proof -
    from that a(1) b(1) have "set (map taskId tasks) \<inter> set (map taskId tasks') = {}"
      by (auto simp: zonePairs_def)
    with that a(2) b(2) show "distinct (map taskId (tasks @ tasks'))" by simp
    from that b'(2) show "distinct (map taskId skipped)" by simp
  qed
  have "fst (snd (zoneLayersLoop e (layer # layerSeq) s)) = skipped
        \<or> fst (snd (zoneLayersLoop e (layer # layerSeq) s)) = tasks
        \<or> fst (snd (zoneLayersLoop e (layer # layerSeq) s)) = tasks @ tasks'"
    by (simp add: case_prod_beta tasks_def tasks'_def skipped_def split: bool.splits)
  with a(2) c d show ?case
    by (elim disjE) (auto simp del: zoneLayersLoop.simps)
qed

lemma idKey_inj:
  assumes "distinct (map addr zones)"
  shows "inj_on (idKey zones) (zonePairs UNIV (length zones) UNIV)"
proof (rule inj_onI)
  fix i j
  assume i: "i \<in> zonePairs UNIV (length zones) UNIV"
    and j: "j \<in> zonePairs UNIV (length zones) UNIV"
    and eq: "idKey zones i = idKey zones j"
  have n: "addr (zones ! p) = addr (zones ! q) \<longleftrightarrow> p = q"
    if "p < length zones" "q < length zones" for p q
    using assms that nth_eq_iff_index_eq [of "map addr zones" p q] by simp
  from i j have lt: "fst i < fst (snd i)" "fst (snd i) < length zones"
    "fst j < fst (snd j)" "fst (snd j) < length zones"
    by (simp_all add: zonePairs_def)
  then have lt': "fst i < length zones" "fst j < length zones" by simp_all
  from eq have "(addr (zones ! fst i) = addr (zones ! fst j)
                  \<and> addr (zones ! fst (snd i)) = addr (zones ! fst (snd j)))
                \<or> (addr (zones ! fst i) = addr (zones ! fst (snd j))
                  \<and> addr (zones ! fst (snd i)) = addr (zones ! fst j))"
    and l: "snd (snd i) = snd (snd j)"
    by (simp_all add: idKey_def pairKey_eq_iff)
  with lt lt' have "fst i = fst j \<and> fst (snd i) = fst (snd j)"
    by (auto simp: n)
  with l show "i = j"
    by (simp add: prod_eq_iff)
qed

lemma futuresLoop_clearanceCount:
  assumes "distinct (map (idKey (m_DRCCopperZones (m_board e))) (map taskId tasks))"
  shows "clearanceCount K (futuresLoop e testClearance testIntersects tasks c s)
           \<le> clearanceCount K s
               + (if K \<in> idKey (m_DRCCopperZones (m_board e)) ` set (map taskId tasks)
                  then 1 else 0)"
  using assms
proof (induction tasks arbitrary: c s)
  case Nil
  then show ?case by simp
next
  case (Cons task tasks)
  let ?zones = "m_DRCCopperZones (m_board e)"
  let ?s1 = "s\<lparr>tick := Suc (tick s)\<rparr>"
  obtain zoneA zoneB clr layer where task: "task = (zoneA, zoneB, clr, layer)"
    by (cases task)
  let ?s2 = "reportZoneResult e testClearance testIntersects
               (checkZones e testClearance testIntersects c zoneA zoneB clr layer) ?s1"
  have k: "idKey ?zones (taskId task) = (pairKey (?zones ! zoneA) (?zones ! zoneB), layer)"
    by (simp add: task idKey_def taskId_def)
  have a: "clearanceCount K ?s2
             \<le> clearanceCount K s + (if K = idKey ?zones (taskId task) then 1 else 0)"
    using reportZoneResult_clearanceCount [of K e testClearance testIntersects c zoneA zoneB
        clr layer ?s1]
    by (simp add: k hit_def)
  have b: "clearanceCount K (futuresLoop e testClearance testIntersects tasks c' s')
             \<le> clearanceCount K s'
                 + (if K \<in> idKey ?zones ` set (map taskId tasks) then 1 else 0)" for c' s'
    using Cons by simp
  have d: "idKey ?zones (taskId task) \<notin> idKey ?zones ` set (map taskId tasks)"
    using Cons.prems by (auto simp: image_iff)
  show ?case
    using a b [of True ?s1] b [of c ?s2] d
    by (auto simp: task cancelled_def split: bool.splits if_splits)
qed

lemma zoneALoop_clearanceCount:
  "clearanceCount K (snd (snd (zoneALoop e layer ias s))) = clearanceCount K s"
  by (induction ias arbitrary: s)
     (simp_all add: progress_def case_prod_beta Let_def split: bool.splits)

lemma zoneLayersLoop_clearanceCount:
  "clearanceCount K (snd (snd (zoneLayersLoop e layerSeq s))) = clearanceCount K s"
  by (induction layerSeq arbitrary: s)
     (simp_all add: zoneALoop_clearanceCount case_prod_beta split: bool.splits)

text \<open>
  The zone phase adds at most one violation for \<open>K\<close>, and none if a track, a pad or a
  graphic item is in \<open>K\<close>.
\<close>
lemma testZonesToZones_clearanceCount:
  assumes "wf_board (m_board e)"
  shows "clearanceCount K (testZonesToZones e s)
           \<le> clearanceCount K s
               + (if \<not> touches (addr ` set (Tracks (m_board e))) K
                     \<and> \<not> touches (addr ` set (allPads (m_board e))) K
                     \<and> \<not> touches (addr ` set (allGraphics (m_board e))) K then 1 else 0)"
proof -
  let ?b = "m_board e"
  let ?zones = "m_DRCCopperZones ?b"
  let ?s2 = "s\<lparr>tick := Suc (Suc (tick s))\<rparr>"
  let ?l = "zoneLayersLoop e [F_Cu ..< Suc B_Cu] ?s2"
  define tasks where "tasks = fst (snd ?l)"
  define testClearance where "testClearance = (\<not> IsErrorLimitExceeded e DRCE_CLEARANCE (tick s))"
  define testIntersects
    where "testIntersects = (\<not> IsErrorLimitExceeded e DRCE_ZONES_INTERSECT (Suc (tick s)))"
  note w = wf_board_addrs [OF assms]
  have ids: "set (map taskId tasks) \<subseteq> zonePairs UNIV (length ?zones) UNIV"
    and dist: "distinct (map taskId tasks)"
    using zoneLayersLoop_ids [of e "[F_Cu ..< Suc B_Cu]" ?s2]
    by (auto simp: tasks_def zonePairs_def simp del: upt_Suc)
  have "inj_on (idKey ?zones) (set (map taskId tasks))"
    using idKey_inj [OF w(4)] ids by (rule inj_on_subset)
  with dist have "distinct (map (idKey ?zones) (map taskId tasks))"
    by (simp only: distinct_map simp_thms)
  then have a: "clearanceCount K (futuresLoop e testClearance testIntersects tasks False (snd (snd ?l)))
                  \<le> clearanceCount K s
                      + (if K \<in> idKey ?zones ` set (map taskId tasks) then 1 else 0)"
    using futuresLoop_clearanceCount [of e tasks K testClearance testIntersects False "snd (snd ?l)"]
    by (simp only: zoneLayersLoop_clearanceCount clearanceCount_simps)
  have b: "\<not> touches A K"
    if "K \<in> idKey ?zones ` set (map taskId tasks)" "A \<inter> addr ` set ?zones = {}" for A
  proof -
    from that(1) ids obtain i where i: "i \<in> zonePairs UNIV (length ?zones) UNIV"
      "K = idKey ?zones i"
      by blast
    then have "?zones ! fst i \<in> set ?zones" "?zones ! fst (snd i) \<in> set ?zones"
      by (simp_all add: zonePairs_def)
    with that(2) have "addr (?zones ! fst i) \<notin> A" "addr (?zones ! fst (snd i)) \<notin> A"
      by blast+
    then show ?thesis
      by (simp add: i(2) idKey_def)
  qed
  have c: "(if K \<in> idKey ?zones ` set (map taskId tasks) then 1 else 0)
             \<le> (if \<not> touches (addr ` set (Tracks ?b)) K
                   \<and> \<not> touches (addr ` set (allPads ?b)) K
                   \<and> \<not> touches (addr ` set (allGraphics ?b)) K then 1 else (0::nat))"
    using b [OF _ w(7)] b [OF _ w(9)] b [OF _ w(10)] by simp
  have "clearanceCount K (testZonesToZones e s)
          \<le> clearanceCount K s
              + (if K \<in> idKey ?zones ` set (map taskId tasks) then 1 else 0)"
    using a zoneLayersLoop_clearanceCount [of K e "[F_Cu ..< Suc B_Cu]" ?s2]
    by (simp add: testZonesToZones_def errorLimitExceeded_def Let_def case_prod_beta tasks_def
        testClearance_def testIntersects_def del: upt_Suc split: bool.splits if_splits)
  with c show ?thesis
    by (simp split: if_splits)
qed

lemma runPhase_clearanceCount:
  assumes "\<And>s'. clearanceCount K (test e s') \<le> clearanceCount K s' + d"
  shows "clearanceCount K (snd (runPhase e msg test s)) \<le> clearanceCount K s + d"
  using assms [of "emit (EvPhase msg) (s\<lparr>tick := Suc (tick s)\<rparr>)"]
  by (simp add: runPhase_def phase_def split: bool.splits)

lemma runTracks_clearanceCount:
  assumes "wf_board (m_board e)"
  shows "clearanceCount K (snd (runTracks e s))
           \<le> clearanceCount K s
               + (if touches (addr ` set (Tracks (m_board e))) K then 1 else 0)"
proof -
  note r = runPhase_clearanceCount [of K testTrackClearances e,
      OF testTrackClearances_clearanceCount [OF assms]]
  show ?thesis
    using r [of "''Checking track & via clearances...''" "s\<lparr>tick := Suc (tick s)\<rparr>"]
      r [of "''Checking hole clearances...''" "s\<lparr>tick := Suc (Suc (tick s))\<rparr>"]
    by (simp add: runTracks_def errorLimitExceeded_def split: bool.splits if_splits)
qed

lemma runPads_clearanceCount:
  assumes "wf_board (m_board e)"
  shows "clearanceCount K (snd (runPads e s))
           \<le> clearanceCount K s
               + (if \<not> touches (addr ` set (Tracks (m_board e))) K
                     \<and> touches (addr ` set (allPads (m_board e))) K then 1 else 0)"
proof -
  note r = runPhase_clearanceCount [of K testPadClearances e,
      OF testPadClearances_clearanceCount [OF assms]]
  show ?thesis
    using r [of "''Checking pad clearances...''" "s\<lparr>tick := Suc (tick s)\<rparr>"]
      r [of "''Checking pads...''" "s\<lparr>tick := Suc (Suc (tick s))\<rparr>"]
      r [of "''Checking pads...''" "s\<lparr>tick := Suc (Suc (Suc (tick s)))\<rparr>"]
    by (simp add: runPads_def errorLimitExceeded_def split: bool.splits if_splits)
qed

lemma runGraphics_clearanceCount:
  assumes "wf_board (m_board e)"
  shows "clearanceCount K (snd (runGraphics e s))
           \<le> clearanceCount K s
               + (if \<not> touches (addr ` set (Tracks (m_board e))) K
                     \<and> \<not> touches (addr ` set (allPads (m_board e))) K
                     \<and> touches (addr ` set (allGraphics (m_board e))) K then 1 else 0)"
proof -
  note r = runPhase_clearanceCount [of K testGraphicClearances e,
      OF testGraphicClearances_clearanceCount [OF assms]]
  show ?thesis
    using r [of "''Checking copper graphic clearances...''" "s\<lparr>tick := Suc (tick s)\<rparr>"]
    by (simp add: runGraphics_def errorLimitExceeded_def split: bool.splits if_splits)
qed

lemma runZones_clearanceCount:
  assumes "wf_board (m_board e)"
  shows "clearanceCount K (snd (runZones e s))
           \<le> clearanceCount K s
               + (if \<not> touches (addr ` set (Tracks (m_board e))) K
                     \<and> \<not> touches (addr ` set (allPads (m_board e))) K
                     \<and> \<not> touches (addr ` set (allGraphics (m_board e))) K then 1 else 0)"
proof -
  note r = runPhase_clearanceCount [of K testZonesToZones e,
      OF testZonesToZones_clearanceCount [OF assms]]
  show ?thesis
    using r [of "''Checking copper zone clearances...''" "s\<lparr>tick := Suc (tick s)\<rparr>"]
      r [of "''Checking zones...''" "s\<lparr>tick := Suc (Suc (tick s))\<rparr>"]
    by (simp add: runZones_def errorLimitExceeded_def split: bool.splits if_splits)
qed

text \<open>
  Claim C4.  On a board whose items (tracks, pads, graphic items, zones) are at
  addresses of their own, and whose copper item index holds no zone and, at the
  address of a track, only that track: for every pair of items \<open>a\<close> and \<open>b\<close>, in
  either order, and every layer, a run adds at most one clearance violation between
  \<open>a\<close> and \<open>b\<close> on that layer to the report.  This holds whether or not all track
  errors are reported, so in particular when they are not.
\<close>
theorem one_clearance_violation_per_pair_and_layer:
  assumes "wf_board (m_board e)"
  shows "clearanceCount (pairKey a b, layer) (snd (Run e s))
           \<le> clearanceCount (pairKey a b, layer) s + 1"
proof -
  let ?K = "(pairKey a b, layer)"
  let ?e = "e\<lparr>m_drcEpsilon := GetDRCEpsilon (m_board e)\<rparr>"
  let ?T = "touches (addr ` set (Tracks (m_board e))) ?K"
  let ?P = "touches (addr ` set (allPads (m_board e))) ?K"
  let ?G = "touches (addr ` set (allGraphics (m_board e))) ?K"
  let ?s1 = "snd (runTracks ?e s)"
  let ?s2 = "snd (runPads ?e ?s1)"
  let ?s3 = "snd (runGraphics ?e ?s2)"
  let ?s4 = "snd (runZones ?e ?s3)"
  have wf: "wf_board (m_board ?e)"
    using assms by simp
  have t: "clearanceCount ?K ?s1 \<le> clearanceCount ?K s + (if ?T then 1 else 0)"
    using runTracks_clearanceCount [OF wf, of ?K s] by simp
  have p: "clearanceCount ?K ?s2 \<le> clearanceCount ?K ?s1 + (if \<not> ?T \<and> ?P then 1 else 0)"
    using runPads_clearanceCount [OF wf, of ?K ?s1] by simp
  have g: "clearanceCount ?K ?s3
             \<le> clearanceCount ?K ?s2 + (if \<not> ?T \<and> \<not> ?P \<and> ?G then 1 else 0)"
    using runGraphics_clearanceCount [OF wf, of ?K ?s2] by simp
  have z: "clearanceCount ?K ?s4
             \<le> clearanceCount ?K ?s3 + (if \<not> ?T \<and> \<not> ?P \<and> \<not> ?G then 1 else 0)"
    using runZones_clearanceCount [OF wf, of ?K ?s3] by simp
  have r: "snd (Run e s) = emit (EvAux ''No Clearance constraints found. Tests not run.'') s
           \<or> snd (Run e s) = ?s1 \<or> snd (Run e s) = ?s2 \<or> snd (Run e s) = ?s3
           \<or> snd (Run e s) = ?s4
           \<or> snd (Run e s)
               = (emit (EvAux ''rule statistics'') ?s4)
                   \<lparr>tick := Suc (tick (emit (EvAux ''rule statistics'') ?s4))\<rparr>"
    by (simp add: Run_def Let_def case_prod_beta cancelled_def split: option.splits)
  have "clearanceCount ?K s' \<le> clearanceCount ?K s + 1"
    if "s' = s \<or> s' = ?s1 \<or> s' = ?s2 \<or> s' = ?s3 \<or> s' = ?s4" for s'
    using that t p g z by (elim disjE) (simp_all split: if_splits)
  with r show ?thesis
    by (elim disjE) simp_all
qed

lemma nets_env_epsilon:
  "nets_env\<lparr>m_drcEpsilon := GetDRCEpsilon (m_board nets_env)\<rparr> = nets_env"
  by (simp add: nets_env_def blank_env_def blank_board_def)

lemma nets_engine:
  "m_DRCMaxClearance (m_board nets_env) = 10"
  "IsErrorLimitExceeded nets_env = (\<lambda>k t. False)"
  "reportPhase nets_env = (\<lambda>t. True)"
  by (simp_all add: nets_env_def blank_env_def blank_board_def)

lemma nets_wf_board: "wf_board (m_board nets_env)"
  by (auto simp: wf_board_def allPads_def allGraphics_def nets_env_def blank_env_def
      blank_board_def nets_items is_PCB_TRACK_def)

lemma nets_track_count:
  "clearanceCount (pairKey net1_track net2_track, F_Cu) (testTrackClearances nets_env s)
     = Suc (clearanceCount (pairKey net1_track net2_track, F_Cu) s)"
  by (simp add: testTrackClearances_def nets_env_simps nets_layers trackFilter_def
      trackVisitor_def freePadClaim_def nets_track_test nets_zone_tests nets_items pairKey_def
      progress_def cancelled_def emit_def clearanceCount_def violations_def isClearanceAt_def)

lemma nets_pad_count:
  "clearanceCount K (testPadClearances nets_env s) = clearanceCount K s"
  by (simp add: testPadClearances_def nets_env_simps)

lemma nets_graphic_count:
  "clearanceCount K (testGraphicClearances nets_env s) = clearanceCount K s"
  by (simp add: testGraphicClearances_def nets_env_simps)

lemma zoneLayersLoop_single_zone:
  assumes "length (m_DRCCopperZones (m_board e)) = 1"
  shows "fst (snd (zoneLayersLoop e layerSeq s)) = []"
  using assms
  by (induction layerSeq arbitrary: s)
     (simp_all add: progress_def case_prod_beta Let_def split: bool.splits)

lemma nets_zone_count:
  "clearanceCount K (testZonesToZones nets_env s) = clearanceCount K s"
proof -
  have "length (m_DRCCopperZones (m_board nets_env)) = 1"
    by (simp add: nets_env_simps)
  then show ?thesis
    by (simp add: testZonesToZones_def errorLimitExceeded_def case_prod_beta
        zoneLayersLoop_single_zone zoneLayersLoop_clearanceCount del: upt_Suc
        split: bool.splits)
qed

lemma nets_run_count:
  "clearanceCount (pairKey net1_track net2_track, F_Cu) (snd (Run nets_env start_state)) = 1"
  by (simp add: Run_def nets_env_epsilon nets_engine runTracks_def runPads_def runGraphics_def
      runZones_def runPhase_def phase_def errorLimitExceeded_def cancelled_def nets_track_count
      nets_pad_count nets_graphic_count nets_zone_count clearanceCount_def [of _ start_state])

theorem one_clearance_violation_per_pair_and_layer_witness:
  "wf_board (m_board nets_env)
   \<and> clearanceCount (pairKey net1_track net2_track, F_Cu) start_state = 0
   \<and> clearanceCount (pairKey net1_track net2_track, F_Cu) (snd (Run nets_env start_state)) = 1"
  using one_clearance_violation_per_pair_and_layer
          [OF nets_wf_board, of net1_track net2_track F_Cu start_state]
    nets_wf_board nets_run_count
  by (simp add: clearanceCount_def)

end
